theory Spec2Isabelle
  imports Complex_Main "HOL-Library.AList"
begin

section \<open>Session monitor: the session store and the log reconciler\<close>

text \<open>
  A shallow embedding of the session manager (class \<open>SessionManager\<close>), the file watcher
  (class \<open>FileWatcher\<close>) and the stream parser (\<open>parseStreamChunk\<close>).

  Conventions of the embedding:
  \<^item> a JavaScript value that may be \<open>undefined\<close> or \<open>null\<close> is an \<open>option\<close>; a string test
    \<open>if (x)\<close> is \<open>truthy x\<close> (defined and not empty), a number test is \<open>truthy_num\<close>;
  \<^item> \<open>Date.now()\<close> is the parameter \<open>now\<close> of every operation (milliseconds): the clock
    is read as one value during one synchronous call (a method of the store called on its
    own, one poll of a file, one chunk of the stream);
  \<^item> token counts and times are JavaScript numbers holding integers, modelled as \<open>int\<close>;
    \<open>estimatedCost\<close> is modelled with exact arithmetic on \<open>real\<close>;
  \<^item> the \<open>Map\<close> of sessions keeps insertion order and is an association list with one
    entry per key; the other \<open>Map\<close>s are never iterated and are partial functions;
  \<^item> \<open>notifyChange\<close> appends the event tag and the session id to the log \<open>events\<close> of the
    store (the listeners themselves are outside the store);
  \<^item> strings are lists of characters; \<open>toLowerCase\<close> and \<open>trim\<close> are modelled on ASCII.
\<close>

subsection \<open>JavaScript helpers\<close>

definition truthy :: "string option \<Rightarrow> bool" where
  "truthy v = (case v of None \<Rightarrow> False | Some s \<Rightarrow> s \<noteq> [])"

definition truthy_num :: "int option \<Rightarrow> bool" where
  "truthy_num v = (case v of None \<Rightarrow> False | Some n \<Rightarrow> n \<noteq> 0)"

text \<open>\<open>v || d\<close> on numbers.\<close>

definition num_or :: "int option \<Rightarrow> int \<Rightarrow> int" where
  "num_or v d = (case v of None \<Rightarrow> d | Some n \<Rightarrow> if n = 0 then d else n)"

text \<open>\<open>xs.slice(start)\<close> and \<open>xs.slice(start, end)\<close>, with JavaScript's reading of negative
  indices (counted from the end) and its clamping.\<close>

definition js_index :: "int \<Rightarrow> nat \<Rightarrow> nat" where
  "js_index i len = (if i < 0 then nat (max (int len + i) 0) else min (nat i) len)"

definition js_slice :: "int \<Rightarrow> int \<Rightarrow> 'a list \<Rightarrow> 'a list" where
  "js_slice start end xs =
     (let a = js_index start (length xs); b = js_index end (length xs)
      in take (b - a) (drop a xs))"

definition js_slice_from :: "int \<Rightarrow> 'a list \<Rightarrow> 'a list" where
  "js_slice_from start xs = drop (js_index start (length xs)) xs"

text \<open>\<open>str.substring(0, n)\<close> and \<open>str.substring(n)\<close> for a natural number \<open>n\<close>.\<close>

definition substring_to :: "nat \<Rightarrow> string \<Rightarrow> string" where
  "substring_to n s = take n s"

definition substring_from :: "nat \<Rightarrow> string \<Rightarrow> string" where
  "substring_from n s = drop n s"

text \<open>\<open>s.includes(p)\<close>.\<close>

fun str_includes :: "string \<Rightarrow> string \<Rightarrow> bool" where
  "str_includes [] p = (p = [])"
| "str_includes (c # cs) p = (take (length p) (c # cs) = p \<or> str_includes cs p)"

definition startsWith :: "string \<Rightarrow> string \<Rightarrow> bool" where
  "startsWith s p = (take (length p) s = p)"

definition endsWith :: "string \<Rightarrow> string \<Rightarrow> bool" where
  "endsWith s p = (length p \<le> length s \<and> drop (length s - length p) s = p)"

text \<open>\<open>s.split(sep)\<close> for a one-character separator, and \<open>parts.join(sep)\<close>.\<close>

fun split_on :: "char \<Rightarrow> string \<Rightarrow> string list" where
  "split_on sep [] = [[]]"
| "split_on sep (c # cs) =
     (if c = sep then [] # split_on sep cs
      else (case split_on sep cs of
              [] \<Rightarrow> [[c]]
            | w # ws \<Rightarrow> (c # w) # ws))"

fun join :: "string \<Rightarrow> string list \<Rightarrow> string" where
  "join sep [] = []"
| "join sep [w] = w"
| "join sep (w # v # ws) = w @ sep @ join sep (v # ws)"

definition lower_char :: "char \<Rightarrow> char" where
  "lower_char c =
     (if of_char c \<ge> (65::nat) \<and> of_char c \<le> (90::nat)
      then char_of (of_char c + (32::nat)) else c)"

definition toLowerCase :: "string \<Rightarrow> string" where
  "toLowerCase s = map lower_char s"

definition is_space :: "char \<Rightarrow> bool" where
  "is_space c = (of_char c \<in> {9::nat, 10, 11, 12, 13, 32})"

text \<open>\<open>s.trim()\<close> used as a condition: true when a character other than white space is left.
  The white space is that of ASCII; \<open>trim\<close> of the code also strips the white space outside
  ASCII (U+00A0 and others), so a line or a message made of such characters only is blank
  in the code and is not blank here.\<close>

definition trim_truthy :: "string \<Rightarrow> bool" where
  "trim_truthy s = (\<not> list_all is_space s)"

text \<open>The helper \<open>truncate(str, maxLength)\<close> of both classes.\<close>

definition truncate_str :: "string option \<Rightarrow> nat \<Rightarrow> string" where
  "truncate_str str maxLength =
     (case str of
        None \<Rightarrow> []
      | Some s \<Rightarrow>
          if s = [] then []
          else if length s \<le> maxLength then s
          else substring_to maxLength s @ ''...'')"

subsection \<open>Configuration\<close>

text \<open>The constants read from the environment at load time, each
  \<open>parseInt(process.env.X) || default\<close>: an unset, unparsable or zero value gives the
  default, any other integer is taken as it is.\<close>

record config =
  SESSION_TIMEOUT_MS :: int
  MAX_TOOL_HISTORY :: int
  MAX_MESSAGES :: int
  CLEANUP_INTERVAL_MS :: int
  IDLE_THRESHOLD_MS :: int

record environment =
  env_SESSION_TIMEOUT_MS :: "int option"
  env_MAX_TOOL_HISTORY :: "int option"
  env_MAX_MESSAGES :: "int option"
  env_CLEANUP_INTERVAL_MS :: "int option"
  env_IDLE_THRESHOLD_MS :: "int option"

definition load_config :: "environment \<Rightarrow> config" where
  "load_config env =
     \<lparr> SESSION_TIMEOUT_MS = num_or (env_SESSION_TIMEOUT_MS env) 300000,
       MAX_TOOL_HISTORY = num_or (env_MAX_TOOL_HISTORY env) 10,
       MAX_MESSAGES = num_or (env_MAX_MESSAGES env) 20,
       CLEANUP_INTERVAL_MS = num_or (env_CLEANUP_INTERVAL_MS env) 60000,
       IDLE_THRESHOLD_MS = num_or (env_IDLE_THRESHOLD_MS env) 30000 \<rparr>"

definition default_config :: config where
  "default_config = load_config
     \<lparr> env_SESSION_TIMEOUT_MS = None, env_MAX_TOOL_HISTORY = None, env_MAX_MESSAGES = None,
       env_CLEANUP_INTERVAL_MS = None, env_IDLE_THRESHOLD_MS = None \<rparr>"

subsection \<open>The session entity\<close>

datatype session_status = Active | Idle | Completed | Error

datatype tool_status = Running | ToolCompleted | ToolFailed

record tokens =
  tok_input :: int
  tok_output :: int
  tok_cacheRead :: int
  tok_cacheCreation :: int
  tok_total :: int

text \<open>The detail fields spread into a tool execution by the callers of \<open>startTool\<close>.\<close>

record tool_details =
  d_toolId :: "string option"
  d_timestamp :: "string option"
  d_command :: "string option"
  d_file :: "string option"
  d_preview :: "string option"
  d_pattern :: "string option"
  d_path :: "string option"
  d_description :: "string option"
  d_agentType :: "string option"
  d_url :: "string option"
  d_query :: "string option"
  d_count :: "nat option"

definition no_details :: tool_details where
  "no_details =
     \<lparr> d_toolId = None, d_timestamp = None, d_command = None, d_file = None,
       d_preview = None, d_pattern = None, d_path = None, d_description = None,
       d_agentType = None, d_url = None, d_query = None, d_count = None \<rparr>"

record current_tool =
  tool_name :: string
  tool_startTime :: int
  tool_status :: tool_status
  tool_details :: tool_details

text \<open>The detail fields spread into a history entry by the callers of \<open>completeTool\<close>.\<close>

record completion_details =
  c_toolId :: "string option"
  c_output :: "string option"

definition no_completion_details :: completion_details where
  "no_completion_details = \<lparr> c_toolId = None, c_output = None \<rparr>"

record history_entry =
  hist_name :: string
  hist_duration :: int
  hist_status :: tool_status
  hist_completedAt :: int
  hist_details :: completion_details

text \<open>A message's time stamp is the one of the log record, or the clock's reading
  (\<open>new Date().toISOString()\<close>).\<close>

datatype msg_time = Logged string | Clock int

record message =
  msg_role :: string
  msg_content :: string
  msg_timestamp :: msg_time
  msg_id :: int

record session =
  session_id :: string
  startTime :: int
  lastActivity :: int
  status :: session_status
  currentTool :: "current_tool option"
  toolHistory :: "history_entry list"
  model :: "string option"
  modelShort :: "string option"
  cwd :: "string option"
  version :: "string option"
  gitBranch :: "string option"
  tokens :: tokens
  estimatedCost :: real
  messages :: "message list"
  parentSessionId :: "string option"
  agentId :: "string option"
  subAgents :: "string list"
  isSubAgent :: bool
  prompt :: "string option"
  todos :: "string list option"

subsection \<open>The store\<close>

datatype event_type =
  session_created | session_updated | tool_started | tool_completed
  | session_completed | session_removed

record store =
  sessions :: "(string \<times> session) list"
  agentToSession :: "string \<rightharpoonup> string"
  events :: "(event_type \<times> string) list"

text \<open>The state after the constructor.\<close>

definition init_store :: store where
  "init_store = \<lparr> sessions = [], agentToSession = Map.empty, events = [] \<rparr>"

text \<open>\<open>this.sessions.get(id)\<close>.\<close>

definition sessions_get :: "store \<Rightarrow> string \<Rightarrow> session option" where
  "sessions_get st k = map_of (sessions st) k"

text \<open>A write to fields of the session object stored under a key: the object is shared
  by reference, so the write is seen by every later \<open>sessions.get\<close>.\<close>

definition modify :: "string \<Rightarrow> (session \<Rightarrow> session) \<Rightarrow> store \<Rightarrow> store" where
  "modify k f st = st\<lparr>sessions := AList.map_entry k f (sessions st)\<rparr>"

definition notifyChange :: "event_type \<Rightarrow> string \<Rightarrow> store \<Rightarrow> store" where
  "notifyChange ev k st = st\<lparr>events := events st @ [(ev, k)]\<rparr>"

subsection \<open>SessionManager\<close>

definition new_session :: "string \<Rightarrow> int \<Rightarrow> session" where
  "new_session sessionId timestamp =
     \<lparr> session_id = sessionId,
       startTime = timestamp,
       lastActivity = timestamp,
       status = Active,
       currentTool = None,
       toolHistory = [],
       model = None,
       modelShort = None,
       cwd = None,
       version = None,
       gitBranch = None,
       tokens = \<lparr> tok_input = 0, tok_output = 0, tok_cacheRead = 0,
                  tok_cacheCreation = 0, tok_total = 0 \<rparr>,
       estimatedCost = 0,
       messages = [],
       parentSessionId = None,
       agentId = None,
       subAgents = [],
       isSubAgent = False,
       prompt = None,
       todos = None \<rparr>"

text \<open>\<open>getOrCreateSession(sessionId, initialTimestamp = null)\<close>. The session it returns is
  the one stored under \<open>sessionId\<close> in the resulting store.\<close>

definition getOrCreateSession :: "int \<Rightarrow> string \<Rightarrow> int option \<Rightarrow> store \<Rightarrow> store" where
  "getOrCreateSession now sessionId initialTimestamp st =
     (case sessions_get st sessionId of
        None \<Rightarrow>
          notifyChange session_created sessionId
            (st\<lparr>sessions :=
                 AList.update sessionId (new_session sessionId (num_or initialTimestamp now))
                   (sessions st)\<rparr>)
      | Some _ \<Rightarrow>
          if \<not> truthy_num initialTimestamp
          then modify sessionId (\<lambda>s. s\<lparr>lastActivity := now\<rparr>) st
          else st)"

definition parseModelName :: "string option \<Rightarrow> string option" where
  "parseModelName m =
     (case m of
        None \<Rightarrow> None
      | Some mdl \<Rightarrow>
          if mdl = [] then None
          else let modelLower = toLowerCase mdl in
            if str_includes modelLower ''opus'' then Some ''Opus 4.5''
            else if str_includes modelLower ''sonnet'' then Some ''Sonnet 4.5''
            else if str_includes modelLower ''haiku'' then Some ''Haiku 4.5''
            else Some (join '' '' (js_slice 1 3 (split_on CHR ''-'' mdl))))"

definition updateModelInfo ::
  "int \<Rightarrow> string \<Rightarrow> string option \<Rightarrow> string option \<Rightarrow> store \<Rightarrow> store" where
  "updateModelInfo now sessionId mdl ver st =
     (let st1 = getOrCreateSession now sessionId None st;
          st2 = modify sessionId
                  (\<lambda>s. if truthy mdl \<and> \<not> truthy (model s)
                       then s\<lparr>model := mdl, modelShort := parseModelName mdl\<rparr> else s) st1;
          st3 = modify sessionId
                  (\<lambda>s. if truthy ver \<and> \<not> truthy (version s)
                       then s\<lparr>version := ver\<rparr> else s) st2
      in notifyChange session_updated sessionId st3)"

definition updateCwd :: "int \<Rightarrow> string \<Rightarrow> string option \<Rightarrow> store \<Rightarrow> store" where
  "updateCwd now sessionId dir st =
     (let st1 = getOrCreateSession now sessionId None st in
      case sessions_get st1 sessionId of
        None \<Rightarrow> st1
      | Some s \<Rightarrow>
          if truthy dir \<and> \<not> truthy (cwd s)
          then notifyChange session_updated sessionId
                 (modify sessionId (\<lambda>s. s\<lparr>cwd := dir\<rparr>) st1)
          else st1)"

definition updateGitBranch :: "int \<Rightarrow> string \<Rightarrow> string option \<Rightarrow> store \<Rightarrow> store" where
  "updateGitBranch now sessionId branch st =
     (let st1 = getOrCreateSession now sessionId None st in
      case sessions_get st1 sessionId of
        None \<Rightarrow> st1
      | Some s \<Rightarrow>
          if truthy branch \<and> \<not> truthy (gitBranch s)
          then notifyChange session_updated sessionId
                 (modify sessionId (\<lambda>s. s\<lparr>gitBranch := branch\<rparr>) st1)
          else st1)"

record rates =
  rate_input :: real
  rate_output :: real

text \<open>The table \<open>MODEL_PRICING\<close> (per million tokens), read at the keys the table itself
  defines. The table of the code is a plain object, which also answers the keys it
  inherits (\<open>constructor\<close>, \<open>toString\<close>, ...): for a model whose short name is such a key the
  code computes a cost that is not a number, where \<open>pricing_for\<close> gives the default rates.
  No statement below reads \<open>estimatedCost\<close> at such a short name.\<close>

definition MODEL_PRICING :: "string \<Rightarrow> rates option" where
  "MODEL_PRICING k =
     (if k = ''Opus 4.5'' then Some \<lparr> rate_input = 15, rate_output = 75 \<rparr>
      else if k = ''Sonnet 4.5'' then Some \<lparr> rate_input = 3, rate_output = 15 \<rparr>
      else if k = ''Haiku 4.5'' then Some \<lparr> rate_input = 1 / 4, rate_output = 5 / 4 \<rparr>
      else if k = ''default'' then Some \<lparr> rate_input = 3, rate_output = 15 \<rparr>
      else None)"

definition pricing_for :: "string option \<Rightarrow> rates" where
  "pricing_for short =
     (case (case short of None \<Rightarrow> None | Some k \<Rightarrow> MODEL_PRICING k) of
        Some r \<Rightarrow> r
      | None \<Rightarrow> \<lparr> rate_input = 3, rate_output = 15 \<rparr>)"

definition estimateCost :: "session \<Rightarrow> real" where
  "estimateCost s =
     (let r = pricing_for (modelShort s) in
      real_of_int (tok_input (tokens s)) * rate_input r / 1000000
      + real_of_int (tok_output (tokens s)) * rate_output r / 1000000)"

record usage =
  input_tokens :: "int option"
  output_tokens :: "int option"
  cache_read_input_tokens :: "int option"
  cache_creation_input_tokens :: "int option"

definition add_usage :: "usage \<Rightarrow> tokens \<Rightarrow> tokens" where
  "add_usage u t =
     (let t1 = t\<lparr>tok_input := tok_input t + num_or (input_tokens u) 0\<rparr>;
          t2 = t1\<lparr>tok_output := tok_output t1 + num_or (output_tokens u) 0\<rparr>;
          t3 = t2\<lparr>tok_cacheRead := tok_cacheRead t2 + num_or (cache_read_input_tokens u) 0\<rparr>;
          t4 = t3\<lparr>tok_cacheCreation :=
                    tok_cacheCreation t3 + num_or (cache_creation_input_tokens u) 0\<rparr>
      in t4\<lparr>tok_total := tok_input t4 + tok_output t4\<rparr>)"

definition updateTokenUsage :: "int \<Rightarrow> string \<Rightarrow> usage option \<Rightarrow> store \<Rightarrow> store" where
  "updateTokenUsage now sessionId usg st =
     (case (sessions_get st sessionId, usg) of
        (Some _, Some u) \<Rightarrow>
          notifyChange session_updated sessionId
            (modify sessionId
               (\<lambda>s. let s1 = s\<lparr>tokens := add_usage u (tokens s)\<rparr>;
                         s2 = s1\<lparr>estimatedCost := estimateCost s1\<rparr>
                     in s2\<lparr>lastActivity := now\<rparr>) st)
      | _ \<Rightarrow> st)"

text \<open>\<open>addMessage(sessionId, role, content, timestamp = null)\<close>. The duplicate test compares
  the argument with the content stored in the last message, which is the truncated one.\<close>

definition is_duplicate :: "message list \<Rightarrow> string \<Rightarrow> string \<Rightarrow> bool" where
  "is_duplicate msgs role content =
     (case msgs of
        [] \<Rightarrow> False
      | _ # _ \<Rightarrow> msg_content (last msgs) = content \<and> msg_role (last msgs) = role)"

text \<open>The entry that \<open>addMessage\<close> pushes.\<close>

definition new_message :: "int \<Rightarrow> string \<Rightarrow> string \<Rightarrow> string option \<Rightarrow> message" where
  "new_message now role content timestamp =
     \<lparr> msg_role = role,
       msg_content = truncate_str (Some content) 1000,
       msg_timestamp = (if truthy timestamp
                        then (case timestamp of Some t \<Rightarrow> Logged t | None \<Rightarrow> Clock now)
                        else Clock now),
       msg_id = now \<rparr>"

text \<open>\<open>messages.push(entry)\<close>, then the trim to the last \<open>MAX_MESSAGES\<close>.\<close>

definition push_message ::
  "config \<Rightarrow> int \<Rightarrow> string \<Rightarrow> string \<Rightarrow> string option \<Rightarrow> message list \<Rightarrow> message list" where
  "push_message cfg now role content timestamp msgs =
     (let pushed = msgs @ [new_message now role content timestamp]
      in if int (length pushed) > MAX_MESSAGES cfg
         then js_slice_from (- MAX_MESSAGES cfg) pushed
         else pushed)"

definition addMessage ::
  "config \<Rightarrow> int \<Rightarrow> string \<Rightarrow> string \<Rightarrow> string \<Rightarrow> string option \<Rightarrow> store \<Rightarrow> store" where
  "addMessage cfg now sessionId role content timestamp st =
     (case sessions_get st sessionId of
        None \<Rightarrow> st
      | Some s \<Rightarrow>
          if content = [] then st
          else if is_duplicate (messages s) role content then st
          else notifyChange session_updated sessionId
                 (modify sessionId
                    (\<lambda>s. s\<lparr>messages := push_message cfg now role content timestamp (messages s),
                           lastActivity := now\<rparr>) st))"

definition linkSubAgent :: "string \<Rightarrow> string \<Rightarrow> store \<Rightarrow> store" where
  "linkSubAgent parentId agent st =
     (case sessions_get st parentId of
        None \<Rightarrow> st
      | Some parent \<Rightarrow>
          if agent \<notin> set (subAgents parent)
          then notifyChange session_updated parentId
                 (modify parentId (\<lambda>p. p\<lparr>subAgents := subAgents p @ [agent]\<rparr>) st)
          else st)"

text \<open>\<open>createSubAgent(agentId, parentSessionId, isSidechain = false)\<close>; the third argument
  is not used by the body.\<close>

definition createSubAgent :: "int \<Rightarrow> string \<Rightarrow> string \<Rightarrow> store \<Rightarrow> store" where
  "createSubAgent now agent parentId st =
     (case sessions_get st agent of
        Some _ \<Rightarrow> st
      | None \<Rightarrow>
          let st1 = getOrCreateSession now agent None st;
              st2 = modify agent
                      (\<lambda>s. s\<lparr>agentId := Some agent, parentSessionId := Some parentId,
                             isSubAgent := True\<rparr>) st1;
              st3 = st2\<lparr>agentToSession := (agentToSession st2)(agent \<mapsto> agent)\<rparr>
          in linkSubAgent parentId agent st3)"

definition getSession :: "store \<Rightarrow> string \<Rightarrow> session option" where
  "getSession st k =
     (case sessions_get st k of
        Some s \<Rightarrow> Some s
      | None \<Rightarrow> (case agentToSession st k of
                   None \<Rightarrow> None
                 | Some k' \<Rightarrow> sessions_get st k'))"

text \<open>\<open>toolHistory.unshift(historyEntry)\<close>, then the trim to the first
  \<open>MAX_TOOL_HISTORY\<close>.\<close>

definition unshift_history ::
  "config \<Rightarrow> history_entry \<Rightarrow> history_entry list \<Rightarrow> history_entry list" where
  "unshift_history cfg historyEntry history =
     (let unshifted = historyEntry # history
      in if int (length unshifted) > MAX_TOOL_HISTORY cfg
         then js_slice 0 (MAX_TOOL_HISTORY cfg) unshifted
         else unshifted)"

text \<open>\<open>completeTool(sessionId, toolName, status = 'completed', details = {})\<close>.\<close>

definition completeTool ::
  "config \<Rightarrow> int \<Rightarrow> string \<Rightarrow> string \<Rightarrow> tool_status \<Rightarrow> completion_details \<Rightarrow> store \<Rightarrow> store"
  where
  "completeTool cfg now sessionId toolName stat details st =
     (case sessions_get st sessionId of
        None \<Rightarrow> st
      | Some s \<Rightarrow>
          (case currentTool s of
             None \<Rightarrow> st
           | Some t \<Rightarrow>
               let historyEntry =
                     \<lparr> hist_name = toolName,
                       hist_duration = now - tool_startTime t,
                       hist_status = stat,
                       hist_completedAt = now,
                       hist_details = details \<rparr>
               in notifyChange tool_completed sessionId
                    (modify sessionId
                       (\<lambda>s. s\<lparr>toolHistory := unshift_history cfg historyEntry (toolHistory s),
                              currentTool := None,
                              lastActivity := now\<rparr>) st)))"

text \<open>The step shared by \<open>startTool\<close> and \<open>completeSession\<close>: a tool that is still
  running is completed first.\<close>

definition complete_running :: "config \<Rightarrow> int \<Rightarrow> string \<Rightarrow> store \<Rightarrow> store" where
  "complete_running cfg now sessionId st =
     (case sessions_get st sessionId of
        None \<Rightarrow> st
      | Some s \<Rightarrow>
          (case currentTool s of
             None \<Rightarrow> st
           | Some t \<Rightarrow>
               if tool_status t = Running
               then completeTool cfg now sessionId (tool_name t) ToolCompleted
                      no_completion_details st
               else st))"

text \<open>\<open>startTool(sessionId, toolName, details = {})\<close>.\<close>

definition startTool ::
  "config \<Rightarrow> int \<Rightarrow> string \<Rightarrow> string \<Rightarrow> tool_details \<Rightarrow> store \<Rightarrow> store" where
  "startTool cfg now sessionId toolName details st =
     (let st1 = getOrCreateSession now sessionId None st;
          st2 = complete_running cfg now sessionId st1;
          st3 = modify sessionId
                  (\<lambda>s. s\<lparr>currentTool :=
                           Some \<lparr> tool_name = toolName, tool_startTime = now,
                                  tool_status = Running, tool_details = details \<rparr>,
                         status := Active,
                         lastActivity := now\<rparr>) st2
      in notifyChange tool_started sessionId st3)"

definition completeSession :: "config \<Rightarrow> int \<Rightarrow> string \<Rightarrow> store \<Rightarrow> store" where
  "completeSession cfg now sessionId st =
     (case sessions_get st sessionId of
        None \<Rightarrow> st
      | Some _ \<Rightarrow>
          let st1 = complete_running cfg now sessionId st;
              st2 = modify sessionId (\<lambda>s. s\<lparr>status := Completed, lastActivity := now\<rparr>) st1
          in notifyChange session_completed sessionId st2)"

definition updateSessionStatus :: "int \<Rightarrow> string \<Rightarrow> session_status \<Rightarrow> store \<Rightarrow> store" where
  "updateSessionStatus now sessionId stat st =
     (case sessions_get st sessionId of
        None \<Rightarrow> st
      | Some _ \<Rightarrow>
          notifyChange session_updated sessionId
            (modify sessionId (\<lambda>s. s\<lparr>status := stat, lastActivity := now\<rparr>) st))"

definition updateSessionPrompt :: "int \<Rightarrow> string \<Rightarrow> string \<Rightarrow> store \<Rightarrow> store" where
  "updateSessionPrompt now sessionId p st =
     (let st1 = getOrCreateSession now sessionId None st
      in notifyChange session_updated sessionId
           (modify sessionId (\<lambda>s. s\<lparr>prompt := Some p, lastActivity := now\<rparr>) st1))"

definition updateTodos :: "int \<Rightarrow> string \<Rightarrow> string list \<Rightarrow> store \<Rightarrow> store" where
  "updateTodos now sessionId tds st =
     (case sessions_get st sessionId of
        None \<Rightarrow> st
      | Some _ \<Rightarrow>
          notifyChange session_updated sessionId
            (modify sessionId (\<lambda>s. s\<lparr>todos := Some tds, lastActivity := now\<rparr>) st))"

definition getAllSessions :: "store \<Rightarrow> session list" where
  "getAllSessions st = map snd (sessions st)"

definition getActiveSessions :: "store \<Rightarrow> session list" where
  "getActiveSessions st = filter (\<lambda>s. status s = Active) (getAllSessions st)"

text \<open>\<open>cleanupStaleSessions()\<close>: the body of the loop for one entry of the map, and the loop
  over the entries. Deleting the entry under the iterator does not disturb the iteration
  of a \<open>Map\<close>, and the loop touches no entry but the current one.\<close>

definition sweep_entry :: "config \<Rightarrow> int \<Rightarrow> string \<times> session \<Rightarrow> store \<Rightarrow> store" where
  "sweep_entry cfg now e st =
     (let sessionId = fst e; s = snd e; inactiveTime = now - lastActivity s in
      if inactiveTime > SESSION_TIMEOUT_MS cfg
      then notifyChange session_removed sessionId
             (st\<lparr>sessions := AList.delete sessionId (sessions st)\<rparr>)
      else if status s = Active \<and> currentTool s = None \<and> inactiveTime > IDLE_THRESHOLD_MS cfg
      then notifyChange session_updated sessionId
             (modify sessionId (\<lambda>s. s\<lparr>status := Idle\<rparr>) st)
      else st)"

definition cleanupStaleSessions :: "config \<Rightarrow> int \<Rightarrow> store \<Rightarrow> store" where
  "cleanupStaleSessions cfg now st = fold (sweep_entry cfg now) (sessions st) st"

subsection \<open>Log records\<close>

text \<open>The fields of a tool invocation's \<open>input\<close> that the extraction table reads;
  \<open>in_todos\<close> is the length of \<open>input.todos\<close>.\<close>

record tool_input =
  in_command :: "string option"
  in_file_path :: "string option"
  in_new_string :: "string option"
  in_pattern :: "string option"
  in_path :: "string option"
  in_description :: "string option"
  in_subagent_type :: "string option"
  in_url :: "string option"
  in_query :: "string option"
  in_todos :: "nat option"

definition empty_input :: tool_input where
  "empty_input =
     \<lparr> in_command = None, in_file_path = None, in_new_string = None, in_pattern = None,
       in_path = None, in_description = None, in_subagent_type = None, in_url = None,
       in_query = None, in_todos = None \<rparr>"

text \<open>A content block: \<open>{type: 'text', text}\<close>, \<open>{type: 'tool_use', name, id, input}\<close>, or a
  block of another type.\<close>

datatype content_block =
  TextBlock "string option"
  | ToolUseBlock string "string option" "tool_input option"
  | OtherBlock

datatype message_content =
  NoContent
  | StringContent string
  | BlockContent "content_block list"

record log_message =
  lm_content :: message_content
  lm_model :: "string option"
  lm_usage :: "usage option"

text \<open>One decoded line of a session file (\<open>data\<close>).\<close>

record log_record =
  r_type :: "string option"
  r_sessionId :: "string option"
  r_agentId :: "string option"
  r_timestamp :: "string option"
  r_cwd :: "string option"
  r_gitBranch :: "string option"
  r_version :: "string option"
  r_isSidechain :: "bool option"
  r_operation :: "string option"
  r_message :: "log_message option"
  r_is_error :: "bool option"

subsection \<open>FileWatcher: the reconciler\<close>

record watcher =
  sessionManager :: store
  filePositions :: "string \<rightharpoonup> nat"
  sessionFiles :: "string \<rightharpoonup> string"
  fileModTimes :: "string \<rightharpoonup> int"

definition init_watcher :: watcher where
  "init_watcher =
     \<lparr> sessionManager = init_store, filePositions = Map.empty, sessionFiles = Map.empty,
       fileModTimes = Map.empty \<rparr>"

text \<open>A call of a method of \<open>this.sessionManager\<close>.\<close>

definition on_manager :: "(store \<Rightarrow> store) \<Rightarrow> watcher \<Rightarrow> watcher" where
  "on_manager f w = w\<lparr>sessionManager := f (sessionManager w)\<rparr>"

text \<open>\<open>extractToolDetails(toolName, input)\<close> of the file watcher.\<close>

definition extractToolDetails :: "string \<Rightarrow> tool_input \<Rightarrow> tool_details" where
  "extractToolDetails toolName inp =
     (if toolName = ''Bash''
        then no_details\<lparr>d_command := Some (truncate_str (in_command inp) 100)\<rparr>
      else if toolName = ''Read''
        then no_details\<lparr>d_file := in_file_path inp\<rparr>
      else if toolName = ''Edit''
        then no_details\<lparr>d_file := in_file_path inp,
                        d_preview := Some (truncate_str (in_new_string inp) 50)\<rparr>
      else if toolName = ''Write''
        then no_details\<lparr>d_file := in_file_path inp\<rparr>
      else if toolName = ''Glob''
        then no_details\<lparr>d_pattern := in_pattern inp, d_path := in_path inp\<rparr>
      else if toolName = ''Grep''
        then no_details\<lparr>d_pattern := in_pattern inp, d_path := in_path inp\<rparr>
      else if toolName = ''Task''
        then no_details\<lparr>d_description := Some (truncate_str (in_description inp) 100),
                        d_agentType := in_subagent_type inp\<rparr>
      else if toolName = ''WebFetch''
        then no_details\<lparr>d_url := in_url inp\<rparr>
      else if toolName = ''WebSearch''
        then no_details\<lparr>d_query := in_query inp\<rparr>
      else if toolName = ''TodoWrite''
        then no_details\<lparr>d_count := Some (case in_todos inp of None \<Rightarrow> 0 | Some n \<Rightarrow> n)\<rparr>
      else
        (let d1 = (if truthy (in_description inp)
                   then no_details\<lparr>d_description :=
                                     Some (truncate_str (in_description inp) 100)\<rparr>
                   else no_details);
             d2 = (if truthy (in_file_path inp) then d1\<lparr>d_file := in_file_path inp\<rparr> else d1)
         in if truthy (in_command inp)
            then d2\<lparr>d_command := Some (truncate_str (in_command inp) 100)\<rparr> else d2))"

definition handleToolUse ::
  "config \<Rightarrow> int \<Rightarrow> string \<Rightarrow> string \<Rightarrow> string option \<Rightarrow> tool_input option
     \<Rightarrow> string option \<Rightarrow> store \<Rightarrow> store" where
  "handleToolUse cfg now sessionId toolName toolId inp timestamp st =
     (let details = extractToolDetails toolName
                      (case inp of None \<Rightarrow> empty_input | Some i \<Rightarrow> i)
      in startTool cfg now sessionId toolName
           (details\<lparr>d_toolId := toolId, d_timestamp := timestamp\<rparr>) st)"

definition handleUserMessage :: "config \<Rightarrow> int \<Rightarrow> string \<Rightarrow> log_record \<Rightarrow> store \<Rightarrow> store" where
  "handleUserMessage cfg now sessionId data st =
     (case r_message data of
        None \<Rightarrow> st
      | Some m \<Rightarrow>
          (case lm_content m of
             StringContent content \<Rightarrow>
               if trim_truthy content \<and> content \<noteq> ''Warmup''
               then addMessage cfg now sessionId ''user'' content (r_timestamp data)
                      (updateSessionPrompt now sessionId (substring_to 200 content) st)
               else st
           | _ \<Rightarrow> st))"

definition handle_block ::
  "config \<Rightarrow> int \<Rightarrow> string \<Rightarrow> string option \<Rightarrow> content_block \<Rightarrow> store \<Rightarrow> store" where
  "handle_block cfg now sessionId timestamp block st =
     (case block of
        TextBlock t \<Rightarrow>
          (case t of
             None \<Rightarrow> st
           | Some txt \<Rightarrow>
               if txt \<noteq> [] then addMessage cfg now sessionId ''assistant'' txt timestamp st
               else st)
      | ToolUseBlock toolName toolId inp \<Rightarrow>
          handleToolUse cfg now sessionId toolName toolId inp timestamp st
      | OtherBlock \<Rightarrow> st)"

definition handleAssistantMessage ::
  "config \<Rightarrow> int \<Rightarrow> string \<Rightarrow> log_record \<Rightarrow> string option \<Rightarrow> store \<Rightarrow> store" where
  "handleAssistantMessage cfg now sessionId data timestamp st =
     (case r_message data of
        None \<Rightarrow> st
      | Some m \<Rightarrow>
          let st1 = (if truthy (lm_model m)
                     then updateModelInfo now sessionId (lm_model m) (r_version data) st
                     else st);
              st2 = (case lm_usage m of
                       None \<Rightarrow> st1
                     | Some u \<Rightarrow> updateTokenUsage now sessionId (Some u) st1)
          in (case lm_content m of
                BlockContent blocks \<Rightarrow>
                  fold (handle_block cfg now sessionId timestamp) blocks st2
              | _ \<Rightarrow> st2))"

definition handleToolResult :: "config \<Rightarrow> int \<Rightarrow> string \<Rightarrow> log_record \<Rightarrow> store \<Rightarrow> store" where
  "handleToolResult cfg now sessionId data st =
     (case sessions_get st sessionId of
        None \<Rightarrow> st
      | Some s \<Rightarrow>
          (case currentTool s of
             None \<Rightarrow> st
           | Some t \<Rightarrow>
               completeTool cfg now sessionId (tool_name t)
                 (if r_is_error data = Some True then ToolFailed else ToolCompleted)
                 no_completion_details st))"

text \<open>The classification at the head of \<open>processMessage\<close>.\<close>

definition isSubAgentRecord :: "log_record \<Rightarrow> string \<Rightarrow> bool" where
  "isSubAgentRecord data filePath =
     (str_includes filePath ''/agent-''
      \<or> (truthy (r_agentId data) \<and> truthy (r_sessionId data)
          \<and> r_agentId data \<noteq> r_sessionId data))"

definition effectiveSessionId :: "log_record \<Rightarrow> string \<Rightarrow> string option" where
  "effectiveSessionId data filePath =
     (if isSubAgentRecord data filePath then r_agentId data
      else if truthy (r_sessionId data) then r_sessionId data
      else r_agentId data)"

text \<open>The \<open>switch (type)\<close> of \<open>processMessage\<close>.\<close>

definition dispatch_type :: "config \<Rightarrow> int \<Rightarrow> string \<Rightarrow> log_record \<Rightarrow> store \<Rightarrow> store" where
  "dispatch_type cfg now eff data st =
     (if r_type data = Some ''user'' then handleUserMessage cfg now eff data st
      else if r_type data = Some ''assistant''
        then handleAssistantMessage cfg now eff data (r_timestamp data) st
      else if r_type data = Some ''tool_result'' then handleToolResult cfg now eff data st
      else if r_type data = Some ''result'' then completeSession cfg now eff st
      else if r_type data = Some ''queue-operation''
        then (if r_operation data = Some ''dequeue''
              then getOrCreateSession now eff None st else st)
      else st)"

definition processMessage :: "config \<Rightarrow> int \<Rightarrow> log_record \<Rightarrow> string \<Rightarrow> watcher \<Rightarrow> watcher" where
  "processMessage cfg now data filePath w =
     (case effectiveSessionId data filePath of
        None \<Rightarrow> w
      | Some eff \<Rightarrow>
          if eff = [] then w
          else
            let w1 = (case (r_agentId data, r_sessionId data) of
                        (Some a, Some p) \<Rightarrow>
                          if isSubAgentRecord data filePath \<and> p \<noteq> [] \<and> a \<noteq> []
                          then on_manager (createSubAgent now a p) w
                          else w
                      | _ \<Rightarrow> w);
                w2 = w1\<lparr>sessionFiles := (sessionFiles w1)(eff \<mapsto> filePath)\<rparr>;
                w3 = (if truthy (r_cwd data)
                      then on_manager (updateCwd now eff (r_cwd data)) w2 else w2);
                w4 = (if truthy (r_gitBranch data)
                      then on_manager (updateGitBranch now eff (r_gitBranch data)) w3 else w3)
            in on_manager (dispatch_type cfg now eff data) w4)"

subsection \<open>FileWatcher: offsets and files\<close>

text \<open>The file system as the calls of \<open>fs\<close> see it at one moment; \<open>None\<close> is a call that
  throws. \<open>JSON.parse\<close> on a line and on a todo file are the parameters \<open>parse\<close> and
  \<open>parse_todos\<close>, \<open>None\<close> when they throw.\<close>

record stats =
  mtimeMs :: int
  size_bytes :: nat

record filesystem =
  existsSync :: "string \<Rightarrow> bool"
  readdirSync :: "string \<Rightarrow> string list option"
  statSync :: "string \<Rightarrow> stats option"
  readFileSync :: "string \<Rightarrow> string option"

datatype io_error = StatFailed string | ReadFailed string | ReaddirFailed string

definition MAX_FILE_AGE_MS :: int where
  "MAX_FILE_AGE_MS = 10 * 60 * 1000"

text \<open>\<open>content.split('\n').filter(line => line.trim())\<close>.\<close>

definition nonblank_lines :: "string \<Rightarrow> string list" where
  "nonblank_lines content = filter trim_truthy (split_on (CHR 0x0A) content)"

definition process_line ::
  "config \<Rightarrow> (string \<Rightarrow> log_record option) \<Rightarrow> int \<Rightarrow> string \<Rightarrow> string \<Rightarrow> watcher \<Rightarrow> watcher"
  where
  "process_line cfg parse now filePath line w =
     (case parse line of
        None \<Rightarrow> w
      | Some data \<Rightarrow> processMessage cfg now data filePath w)"

text \<open>The body of the \<open>try\<close> block of \<open>processNewLines\<close>, with what it throws as \<open>Inl\<close>.\<close>

definition processNewLines_try ::
  "config \<Rightarrow> (string \<Rightarrow> log_record option) \<Rightarrow> filesystem \<Rightarrow> int \<Rightarrow> string \<Rightarrow> watcher
     \<Rightarrow> io_error + watcher" where
  "processNewLines_try cfg parse fs now filePath w =
     (case statSync fs filePath of
        None \<Rightarrow> Inl (StatFailed filePath)
      | Some stats \<Rightarrow>
          let currentSize = size_bytes stats;
              lastPosition = (case filePositions w filePath of None \<Rightarrow> 0 | Some p \<Rightarrow> p)
          in if currentSize < lastPosition
             then Inr (w\<lparr>filePositions := (filePositions w)(filePath \<mapsto> 0)\<rparr>)
             else if currentSize = lastPosition then Inr w
             else (case readFileSync fs filePath of
                     None \<Rightarrow> Inl (ReadFailed filePath)
                   | Some content \<Rightarrow>
                       let newContent = substring_from lastPosition content;
                           w1 = w\<lparr>filePositions := (filePositions w)(filePath \<mapsto> currentSize)\<rparr>
                       in Inr (fold (process_line cfg parse now filePath)
                                 (nonblank_lines newContent) w1)))"

text \<open>\<open>processNewLines(filePath)\<close>: the \<open>catch\<close> logs the error and returns.\<close>

definition processNewLines ::
  "config \<Rightarrow> (string \<Rightarrow> log_record option) \<Rightarrow> filesystem \<Rightarrow> int \<Rightarrow> string \<Rightarrow> watcher
     \<Rightarrow> watcher" where
  "processNewLines cfg parse fs now filePath w =
     (case processNewLines_try cfg parse fs now filePath w of
        Inl _ \<Rightarrow> w
      | Inr w' \<Rightarrow> w')"

definition handleFileAdded ::
  "config \<Rightarrow> (string \<Rightarrow> log_record option) \<Rightarrow> filesystem \<Rightarrow> int \<Rightarrow> string \<Rightarrow> watcher
     \<Rightarrow> watcher" where
  "handleFileAdded cfg parse fs now filePath w =
     (case statSync fs filePath of
        None \<Rightarrow> w
      | Some stats \<Rightarrow>
          if now - mtimeMs stats > MAX_FILE_AGE_MS then w
          else processNewLines cfg parse fs now filePath
                 (w\<lparr>filePositions := (filePositions w)(filePath \<mapsto> 0)\<rparr>))"

definition handleFileChanged ::
  "config \<Rightarrow> (string \<Rightarrow> log_record option) \<Rightarrow> filesystem \<Rightarrow> int \<Rightarrow> string \<Rightarrow> watcher
     \<Rightarrow> watcher" where
  "handleFileChanged cfg parse fs now filePath w =
     (let w1 = (case filePositions w filePath of
                  Some _ \<Rightarrow> w
                | None \<Rightarrow>
                    (case statSync fs filePath of
                       Some stats \<Rightarrow>
                         w\<lparr>filePositions := (filePositions w)(filePath \<mapsto> size_bytes stats)\<rparr>
                     | None \<Rightarrow> w\<lparr>filePositions := (filePositions w)(filePath \<mapsto> 0)\<rparr>))
      in processNewLines cfg parse fs now filePath w1)"

text \<open>The character class \<open>[a-f0-9-]\<close> of the two file-name patterns.\<close>

definition is_id_char :: "char \<Rightarrow> bool" where
  "is_id_char c =
     ((of_char c \<ge> (97::nat) \<and> of_char c \<le> (102::nat))
      \<or> (of_char c \<ge> (48::nat) \<and> of_char c \<le> (57::nat))
      \<or> c = CHR ''-'')"

text \<open>\<open>filePath.split('/').pop()\<close>.\<close>

definition basename :: "string \<Rightarrow> string" where
  "basename filePath = last (split_on CHR ''/'' filePath)"

definition handleTodoChanged ::
  "(string \<Rightarrow> string list option) \<Rightarrow> filesystem \<Rightarrow> int \<Rightarrow> string \<Rightarrow> watcher \<Rightarrow> watcher" where
  "handleTodoChanged parse_todos fs now filePath w =
     (case readFileSync fs filePath of
        None \<Rightarrow> w
      | Some todoContent \<Rightarrow>
          (case parse_todos todoContent of
             None \<Rightarrow> w
           | Some tds \<Rightarrow>
               let m = takeWhile is_id_char (basename filePath)
               in if m \<noteq> [] \<and> length tds > 0
                  then on_manager (updateTodos now m tds) w
                  else w))"

text \<open>\<open>extractSessionIdFromFile(filePath)\<close>.\<close>

fun first_session_id :: "(string \<Rightarrow> log_record option) \<Rightarrow> string list \<Rightarrow> string option" where
  "first_session_id parse [] = None"
| "first_session_id parse (line # rest) =
     (case parse line of
        None \<Rightarrow> first_session_id parse rest
      | Some data \<Rightarrow>
          let sessionId = (if truthy (r_sessionId data) then r_sessionId data
                           else r_agentId data)
          in if truthy sessionId then sessionId else first_session_id parse rest)"

definition extractSessionIdFromFile ::
  "(string \<Rightarrow> log_record option) \<Rightarrow> filesystem \<Rightarrow> string \<Rightarrow> string option" where
  "extractSessionIdFromFile parse fs filePath =
     (case readFileSync fs filePath of
        None \<Rightarrow> None
      | Some content \<Rightarrow>
          (case first_session_id parse (take 10 (nonblank_lines content)) of
             Some sessionId \<Rightarrow> Some sessionId
           | None \<Rightarrow>
               let filename = basename filePath
               in if length filename \<ge> 36 \<and> list_all is_id_char (take 36 filename)
                  then Some (take 36 filename)
                  else None))"

subsection \<open>FileWatcher: the startup scan\<close>

record file_stat =
  fs_path :: string
  fs_file :: string
  fs_mtimeMs :: int
  fs_size :: nat

text \<open>\<open>files.map(file => ...statSync(join(PROJECTS_DIR, file))...)\<close>: the first \<open>statSync\<close>
  that throws ends the scan.\<close>

fun stat_files :: "filesystem \<Rightarrow> string \<Rightarrow> string list \<Rightarrow> io_error + file_stat list" where
  "stat_files fs projectsDir [] = Inr []"
| "stat_files fs projectsDir (file # rest) =
     (let filePath = projectsDir @ ''/'' @ file in
      case statSync fs filePath of
        None \<Rightarrow> Inl (StatFailed filePath)
      | Some stats \<Rightarrow>
          (case stat_files fs projectsDir rest of
             Inl e \<Rightarrow> Inl e
           | Inr others \<Rightarrow>
               Inr (\<lparr> fs_path = filePath, fs_file = file, fs_mtimeMs = mtimeMs stats,
                       fs_size = size_bytes stats \<rparr> # others)))"

text \<open>The body of the loop over \<open>recentFiles\<close>.\<close>

definition scan_file ::
  "config \<Rightarrow> (string \<Rightarrow> log_record option) \<Rightarrow> filesystem \<Rightarrow> int \<Rightarrow> file_stat list
     \<Rightarrow> file_stat \<Rightarrow> watcher \<Rightarrow> watcher" where
  "scan_file cfg parse fs now recentFiles f w =
     (let filePath = fs_path f;
          w1 = w\<lparr>fileModTimes := (fileModTimes w)(filePath \<mapsto> fs_mtimeMs f)\<rparr>
      in case extractSessionIdFromFile parse fs filePath of
           None \<Rightarrow> w1
         | Some sessionId \<Rightarrow>
             if sessionId = [] then w1
             else
               let w2 = w1\<lparr>sessionFiles := (sessionFiles w1)(sessionId \<mapsto> filePath)\<rparr>;
                   w3 = on_manager (getOrCreateSession now sessionId (Some (fs_mtimeMs f))) w2;
                   w4 = (if (case recentFiles of [] \<Rightarrow> False | f0 # _ \<Rightarrow> filePath = fs_path f0)
                            \<and> fs_size f > 0
                         then on_manager (modify sessionId (\<lambda>s. s\<lparr>status := Active\<rparr>)) w3
                         else w3);
                   w5 = w4\<lparr>filePositions := (filePositions w4)(filePath \<mapsto> 0)\<rparr>
               in processNewLines cfg parse fs now filePath w5)"

text \<open>The body of the \<open>try\<close> block of \<open>scanExistingSessions\<close>; \<open>projectsDir\<close> is \<open>PROJECTS_DIR\<close>.
  The list of files is what one \<open>readdirSync(PROJECTS_DIR)\<close> returns, the names of the
  entries of that directory itself.\<close>

definition scanExistingSessions_try ::
  "config \<Rightarrow> (string \<Rightarrow> log_record option) \<Rightarrow> filesystem \<Rightarrow> int \<Rightarrow> string \<Rightarrow> watcher
     \<Rightarrow> io_error + watcher" where
  "scanExistingSessions_try cfg parse fs now projectsDir w =
     (if \<not> existsSync fs projectsDir then Inr w
      else
        (case readdirSync fs projectsDir of
           None \<Rightarrow> Inl (ReaddirFailed projectsDir)
         | Some names \<Rightarrow>
             let files = filter (\<lambda>f. endsWith f ''.jsonl'') names in
             if length files = 0 then Inr w
             else
               (case stat_files fs projectsDir files of
                  Inl e \<Rightarrow> Inl e
                | Inr stats \<Rightarrow>
                    let fileStats = sort_key (\<lambda>f. - fs_mtimeMs f) stats;
                        recentFiles =
                          filter (\<lambda>f. now - fs_mtimeMs f < MAX_FILE_AGE_MS) fileStats
                    in Inr (fold (scan_file cfg parse fs now recentFiles) recentFiles w))))"

definition scanExistingSessions ::
  "config \<Rightarrow> (string \<Rightarrow> log_record option) \<Rightarrow> filesystem \<Rightarrow> int \<Rightarrow> string \<Rightarrow> watcher
     \<Rightarrow> watcher" where
  "scanExistingSessions cfg parse fs now projectsDir w =
     (case scanExistingSessions_try cfg parse fs now projectsDir w of
        Inl _ \<Rightarrow> w
      | Inr w' \<Rightarrow> w')"

subsection \<open>The stream parser\<close>

datatype chunk_content =
  ChunkNone
  | ChunkText string
  | ChunkBlocks "content_block list"

record stream_chunk =
  c_type :: "string option"
  c_session_id :: "string option"
  c_sessionId :: "string option"
  c_metadata_session_id :: "string option"
  c_content :: chunk_content
  c_tool_use_id :: "string option"
  c_is_error :: "bool option"

definition chunk_session_id :: "stream_chunk \<Rightarrow> string" where
  "chunk_session_id c =
     (case (if truthy (c_session_id c) then c_session_id c
            else if truthy (c_sessionId c) then c_sessionId c
            else if truthy (c_metadata_session_id c) then c_metadata_session_id c
            else None) of
        Some k \<Rightarrow> k
      | None \<Rightarrow> ''unknown'')"

text \<open>\<open>extractToolDetails(toolName, input)\<close> of the stream parser.\<close>

definition extractToolDetails_stream :: "string \<Rightarrow> tool_input \<Rightarrow> tool_details" where
  "extractToolDetails_stream toolName inp =
     (if toolName = ''Bash''
        then no_details\<lparr>d_command := Some (truncate_str (in_command inp) 100)\<rparr>
      else if toolName = ''Read'' \<or> toolName = ''Edit'' \<or> toolName = ''Write''
        then no_details\<lparr>d_file := in_file_path inp\<rparr>
      else if toolName = ''Glob'' \<or> toolName = ''Grep''
        then no_details\<lparr>d_pattern := in_pattern inp\<rparr>
      else if toolName = ''Task''
        then no_details\<lparr>d_description := in_description inp,
                        d_agentType := in_subagent_type inp\<rparr>
      else if toolName = ''WebFetch''
        then no_details\<lparr>d_url := in_url inp\<rparr>
      else if toolName = ''WebSearch''
        then no_details\<lparr>d_query := in_query inp\<rparr>
      else
        (let d1 = (if truthy (in_description inp)
                   then no_details\<lparr>d_description :=
                                     Some (truncate_str (in_description inp) 100)\<rparr>
                   else no_details);
             d2 = (if truthy (in_file_path inp) then d1\<lparr>d_file := in_file_path inp\<rparr> else d1)
         in if truthy (in_command inp)
            then d2\<lparr>d_command := Some (truncate_str (in_command inp) 100)\<rparr> else d2))"

definition handleToolUse_stream ::
  "config \<Rightarrow> int \<Rightarrow> string \<Rightarrow> string \<Rightarrow> string option \<Rightarrow> tool_input option \<Rightarrow> store \<Rightarrow> store"
  where
  "handleToolUse_stream cfg now sessionId toolName toolId inp st =
     (let details = extractToolDetails_stream toolName
                      (case inp of None \<Rightarrow> empty_input | Some i \<Rightarrow> i)
      in startTool cfg now sessionId toolName (details\<lparr>d_toolId := toolId\<rparr>) st)"

text \<open>\<open>truncateOutput(content, maxLength = 200)\<close>: an array is joined with line feeds, an
  element giving its text, or what \<open>join\<close> prints for an object.\<close>

definition block_text :: "content_block \<Rightarrow> string" where
  "block_text b =
     (case b of
        TextBlock (Some t) \<Rightarrow> if t \<noteq> [] then t else ''[object Object]''
      | _ \<Rightarrow> ''[object Object]'')"

definition truncateOutput :: "chunk_content \<Rightarrow> string" where
  "truncateOutput content =
     (case content of
        ChunkNone \<Rightarrow> []
      | ChunkText t \<Rightarrow> truncate_str (Some t) 200
      | ChunkBlocks bs \<Rightarrow> truncate_str (Some (join [CHR 0x0A] (map block_text bs))) 200)"

definition handleToolResult_stream ::
  "config \<Rightarrow> int \<Rightarrow> string \<Rightarrow> stream_chunk \<Rightarrow> store \<Rightarrow> store" where
  "handleToolResult_stream cfg now sessionId result st =
     (let toolName =
            (case sessions_get st sessionId of
               None \<Rightarrow> ''Unknown''
             | Some s \<Rightarrow>
                 (case currentTool s of
                    None \<Rightarrow> ''Unknown''
                  | Some t \<Rightarrow> if tool_name t \<noteq> [] then tool_name t else ''Unknown''))
      in completeTool cfg now sessionId toolName
           (if c_is_error result = Some True then ToolFailed else ToolCompleted)
           \<lparr> c_toolId = c_tool_use_id result,
             c_output = Some (truncateOutput (c_content result)) \<rparr> st)"

definition stream_block :: "config \<Rightarrow> int \<Rightarrow> string \<Rightarrow> content_block \<Rightarrow> store \<Rightarrow> store" where
  "stream_block cfg now sessionId block st =
     (case block of
        ToolUseBlock toolName toolId inp \<Rightarrow>
          handleToolUse_stream cfg now sessionId toolName toolId inp st
      | _ \<Rightarrow> st)"

definition parseStreamChunk :: "config \<Rightarrow> int \<Rightarrow> stream_chunk \<Rightarrow> store \<Rightarrow> store" where
  "parseStreamChunk cfg now jsonData st =
     (let sessionId = chunk_session_id jsonData in
      if c_type jsonData = Some ''init'' then getOrCreateSession now sessionId None st
      else if c_type jsonData = Some ''user'' then updateSessionStatus now sessionId Active st
      else if c_type jsonData = Some ''assistant''
        then (case c_content jsonData of
                ChunkBlocks blocks \<Rightarrow> fold (stream_block cfg now sessionId) blocks st
              | _ \<Rightarrow> st)
      else if c_type jsonData = Some ''tool_result''
        then handleToolResult_stream cfg now sessionId jsonData st
      else if c_type jsonData = Some ''result'' then completeSession cfg now sessionId st
      else if c_type jsonData = Some ''error'' then updateSessionStatus now sessionId Error st
      else getOrCreateSession now sessionId None st)"

subsection \<open>Sequences of operations on the store\<close>

text \<open>One call of a mutating method of \<open>SessionManager\<close>. \<open>SetStatusActive\<close> is the one write
  to a session made outside the class, \<open>session.status = 'active'\<close> in the startup scan.\<close>

datatype call =
  GetOrCreateSession string "int option"
  | UpdateModelInfo string "string option" "string option"
  | UpdateCwd string "string option"
  | UpdateGitBranch string "string option"
  | UpdateTokenUsage string "usage option"
  | AddMessage string string string "string option"
  | CreateSubAgent string string
  | LinkSubAgent string string
  | StartTool string string tool_details
  | CompleteTool string string tool_status completion_details
  | CompleteSession string
  | UpdateSessionStatus string session_status
  | UpdateSessionPrompt string string
  | UpdateTodos string "string list"
  | CleanupStaleSessions
  | SetStatusActive string

fun exec :: "config \<Rightarrow> int \<times> call \<Rightarrow> store \<Rightarrow> store" where
  "exec cfg (now, GetOrCreateSession k ts) st = getOrCreateSession now k ts st"
| "exec cfg (now, UpdateModelInfo k m v) st = updateModelInfo now k m v st"
| "exec cfg (now, UpdateCwd k d) st = updateCwd now k d st"
| "exec cfg (now, UpdateGitBranch k b) st = updateGitBranch now k b st"
| "exec cfg (now, UpdateTokenUsage k u) st = updateTokenUsage now k u st"
| "exec cfg (now, AddMessage k role content ts) st = addMessage cfg now k role content ts st"
| "exec cfg (now, CreateSubAgent a p) st = createSubAgent now a p st"
| "exec cfg (now, LinkSubAgent p a) st = linkSubAgent p a st"
| "exec cfg (now, StartTool k n d) st = startTool cfg now k n d st"
| "exec cfg (now, CompleteTool k n stat d) st = completeTool cfg now k n stat d st"
| "exec cfg (now, CompleteSession k) st = completeSession cfg now k st"
| "exec cfg (now, UpdateSessionStatus k stat) st = updateSessionStatus now k stat st"
| "exec cfg (now, UpdateSessionPrompt k p) st = updateSessionPrompt now k p st"
| "exec cfg (now, UpdateTodos k tds) st = updateTodos now k tds st"
| "exec cfg (now, CleanupStaleSessions) st = cleanupStaleSessions cfg now st"
| "exec cfg (now, SetStatusActive k) st = modify k (\<lambda>s. s\<lparr>status := Active\<rparr>) st"

text \<open>The store after a sequence of calls, each at its own time, from the initial store.\<close>

definition run :: "config \<Rightarrow> (int \<times> call) list \<Rightarrow> store" where
  "run cfg trace = fold (exec cfg) trace init_store"

subsection \<open>Reading a file from its start\<close>

text \<open>\<open>processNewLines\<close> after the tracked offset of the file was set to 0, as
  \<open>handleFileAdded\<close> and the startup scan call it: the whole file is read.\<close>

definition process_from_start ::
  "config \<Rightarrow> (string \<Rightarrow> log_record option) \<Rightarrow> filesystem \<Rightarrow> int \<Rightarrow> string \<Rightarrow> watcher
     \<Rightarrow> watcher" where
  "process_from_start cfg parse fs now filePath w =
     processNewLines cfg parse fs now filePath
       (w\<lparr>filePositions := (filePositions w)(filePath \<mapsto> 0)\<rparr>)"

subsection \<open>Properties of sessions and stores\<close>

text \<open>A property that holds of every session held by the store.\<close>

definition all_sessions :: "(session \<Rightarrow> bool) \<Rightarrow> store \<Rightarrow> bool" where
  "all_sessions P st = list_all (\<lambda>e. P (snd e)) (sessions st)"

text \<open>The \<open>Map\<close> holds one entry per key.\<close>

definition unique_keys :: "store \<Rightarrow> bool" where
  "unique_keys st = distinct (map fst (sessions st))"

definition tokens_ok :: "session \<Rightarrow> bool" where
  "tokens_ok s = (tok_total (tokens s) = tok_input (tokens s) + tok_output (tokens s))"

definition caps_ok :: "config \<Rightarrow> session \<Rightarrow> bool" where
  "caps_ok cfg s =
     (int (length (toolHistory s)) \<le> MAX_TOOL_HISTORY cfg
      \<and> int (length (messages s)) \<le> MAX_MESSAGES cfg)"

text \<open>An open tool is running, and its session is not completed.\<close>

definition tool_inv :: "session \<Rightarrow> bool" where
  "tool_inv s =
     (case currentTool s of
        None \<Rightarrow> True
      | Some t \<Rightarrow> tool_status t = Running \<and> status s \<noteq> Completed)"

text \<open>A call that writes the status completed without \<open>completeSession\<close>. The callers of
  \<open>updateSessionStatus\<close> pass active and error only.\<close>

fun writes_completed :: "call \<Rightarrow> bool" where
  "writes_completed (UpdateSessionStatus k stat) = (stat = Completed)"
| "writes_completed _ = False"

definition no_direct_completed :: "(int \<times> call) list \<Rightarrow> bool" where
  "no_direct_completed trace = list_all (\<lambda>c. \<not> writes_completed (snd c)) trace"

subsection \<open>What the steps of the reconciler keep\<close>

text \<open>The fields that link a sub-agent and its parent.\<close>

definition linkage :: "session \<Rightarrow> string option \<times> string option \<times> bool \<times> string list" where
  "linkage s = (parentSessionId s, agentId s, isSubAgent s, subAgents s)"

text \<open>A set-once attribute that is set stays set.\<close>

definition le_session :: "session \<Rightarrow> session \<Rightarrow> bool" where
  "le_session s s' =
     ((truthy (cwd s) \<longrightarrow> truthy (cwd s'))
      \<and> (truthy (gitBranch s) \<longrightarrow> truthy (gitBranch s'))
      \<and> (truthy (model s) \<longrightarrow> truthy (model s'))
      \<and> (truthy (version s) \<longrightarrow> truthy (version s')))"

text \<open>What a step keeps of a session: the attributes that are set and, when \<open>l\<close> holds, the
  linkage.\<close>

definition kept :: "bool \<Rightarrow> session \<Rightarrow> session \<Rightarrow> bool" where
  "kept l s s' = (le_session s s' \<and> (l \<longrightarrow> linkage s' = linkage s))"

text \<open>Every session of the first store is in the second store, related by \<open>R\<close>.\<close>

definition related :: "(session \<Rightarrow> session \<Rightarrow> bool) \<Rightarrow> store \<Rightarrow> store \<Rightarrow> bool" where
  "related R st st' =
     (\<forall>k s. sessions_get st k = Some s \<longrightarrow> (\<exists>s'. sessions_get st' k = Some s' \<and> R s s'))"

text \<open>The steps of \<open>processMessage\<close> on the store, in their order: the registration of a
  sub-agent, the working directory, the branch, and the \<open>switch\<close> on the type.\<close>

definition link_step :: "int \<Rightarrow> log_record \<Rightarrow> string \<Rightarrow> store \<Rightarrow> store" where
  "link_step now data filePath st =
     (case (r_agentId data, r_sessionId data) of
        (Some a, Some p) \<Rightarrow>
          if isSubAgentRecord data filePath \<and> p \<noteq> [] \<and> a \<noteq> []
          then createSubAgent now a p st else st
      | _ \<Rightarrow> st)"

definition cwd_step :: "int \<Rightarrow> string \<Rightarrow> log_record \<Rightarrow> store \<Rightarrow> store" where
  "cwd_step now eff data st =
     (if truthy (r_cwd data) then updateCwd now eff (r_cwd data) st else st)"

definition branch_step :: "int \<Rightarrow> string \<Rightarrow> log_record \<Rightarrow> store \<Rightarrow> store" where
  "branch_step now eff data st =
     (if truthy (r_gitBranch data) then updateGitBranch now eff (r_gitBranch data) st else st)"

definition after_link :: "config \<Rightarrow> int \<Rightarrow> string \<Rightarrow> log_record \<Rightarrow> store \<Rightarrow> store" where
  "after_link cfg now eff data st =
     dispatch_type cfg now eff data (branch_step now eff data (cwd_step now eff data st))"

subsection \<open>What a replay keeps\<close>

text \<open>The fields of a session that a replay of a file leaves as they are: those of
  \<open>stable_part\<close>, which no step of the reconciler changes once they are set, and the
  prompt.\<close>

type_synonym stable_fields =
  "string \<times> int \<times> string option \<times> string option \<times> string option \<times> string option
     \<times> string option \<times> (string option \<times> string option \<times> bool \<times> string list)
     \<times> string list option"

definition stable_part :: "session \<Rightarrow> stable_fields" where
  "stable_part s =
     (session_id s, startTime s, model s, modelShort s, version s, cwd s, gitBranch s,
      linkage s, todos s)"

definition replay_part :: "session \<Rightarrow> stable_fields \<times> string option" where
  "replay_part s = (stable_part s, prompt s)"

text \<open>The sessions of the store in their order, each with its stable fields.\<close>

definition stable_view :: "store \<Rightarrow> (string \<times> stable_fields) list" where
  "stable_view st = map (\<lambda>e. (fst e, stable_part (snd e))) (sessions st)"

text \<open>The store holds the session; it holds it with the attribute set.\<close>

definition exists_session :: "store \<Rightarrow> string \<Rightarrow> bool" where
  "exists_session st k = (sessions_get st k \<noteq> None)"

definition has_field :: "(session \<Rightarrow> string option) \<Rightarrow> store \<Rightarrow> string \<Rightarrow> bool" where
  "has_field g st k = (case sessions_get st k of None \<Rightarrow> False | Some s \<Rightarrow> truthy (g s))"

subsection \<open>Records that are settled in a store\<close>

text \<open>What a record asks of the store: the prompt a user message writes, whether an
  assistant message names a model or starts a tool, whether the record touches its
  session (so that the session is created when it is missing), and whether it registers
  a sub-agent.\<close>

fun is_tool_use :: "content_block \<Rightarrow> bool" where
  "is_tool_use (ToolUseBlock n i inp) = True"
| "is_tool_use _ = False"

definition prompt_written :: "log_record \<Rightarrow> string option" where
  "prompt_written data =
     (case r_message data of
        None \<Rightarrow> None
      | Some m \<Rightarrow>
          (case lm_content m of
             StringContent c \<Rightarrow>
               if trim_truthy c \<and> c \<noteq> ''Warmup'' then Some (substring_to 200 c) else None
           | _ \<Rightarrow> None))"

definition names_model :: "log_record \<Rightarrow> bool" where
  "names_model data = (case r_message data of None \<Rightarrow> False | Some m \<Rightarrow> truthy (lm_model m))"

definition starts_tool :: "log_record \<Rightarrow> bool" where
  "starts_tool data =
     (case r_message data of
        None \<Rightarrow> False
      | Some m \<Rightarrow> (case lm_content m of BlockContent bs \<Rightarrow> list_ex is_tool_use bs | _ \<Rightarrow> False))"

definition touches :: "log_record \<Rightarrow> bool" where
  "touches data =
     ((r_type data = Some ''user'' \<and> prompt_written data \<noteq> None)
      \<or> (r_type data = Some ''assistant'' \<and> (names_model data \<or> starts_tool data))
      \<or> (r_type data = Some ''queue-operation'' \<and> r_operation data = Some ''dequeue''))"

definition links :: "log_record \<Rightarrow> string \<Rightarrow> bool" where
  "links data filePath =
     (case (r_agentId data, r_sessionId data) of
        (Some a, Some p) \<Rightarrow> isSubAgentRecord data filePath \<and> p \<noteq> [] \<and> a \<noteq> []
      | _ \<Rightarrow> False)"

text \<open>A record is settled in a store when the store already holds what the record would
  create or set: processing it again changes no stable field.\<close>

definition settled_after_link :: "string \<Rightarrow> log_record \<Rightarrow> store \<Rightarrow> bool" where
  "settled_after_link eff data st =
     ((truthy (r_cwd data) \<longrightarrow> has_field cwd st eff)
      \<and> (truthy (r_gitBranch data) \<longrightarrow> has_field gitBranch st eff)
      \<and> (touches data \<longrightarrow> exists_session st eff)
      \<and> (r_type data = Some ''assistant'' \<and> names_model data \<longrightarrow>
           has_field model st eff
           \<and> (truthy (r_version data) \<longrightarrow> has_field version st eff)))"

definition settled :: "log_record \<Rightarrow> string \<Rightarrow> store \<Rightarrow> bool" where
  "settled data filePath st =
     (case effectiveSessionId data filePath of
        None \<Rightarrow> True
      | Some eff \<Rightarrow>
          eff = []
          \<or> ((links data filePath \<longrightarrow> exists_session st eff) \<and> settled_after_link eff data st))"

subsection \<open>Lines and prompts\<close>

text \<open>A line is settled when it does not decode or its record is settled.\<close>

definition settled_line ::
  "(string \<Rightarrow> log_record option) \<Rightarrow> string \<Rightarrow> store \<Rightarrow> string \<Rightarrow> bool" where
  "settled_line parse filePath st line =
     (case parse line of None \<Rightarrow> True | Some data \<Rightarrow> settled data filePath st)"

text \<open>The prompt of each session, and the prompt that a record, or a line, writes.\<close>

definition stored_prompt :: "store \<Rightarrow> string \<rightharpoonup> string" where
  "stored_prompt st k = (case sessions_get st k of None \<Rightarrow> None | Some s \<Rightarrow> prompt s)"

definition prompt_of_record :: "log_record \<Rightarrow> string \<Rightarrow> (string \<times> string) option" where
  "prompt_of_record data filePath =
     (case effectiveSessionId data filePath of
        None \<Rightarrow> None
      | Some eff \<Rightarrow>
          if eff \<noteq> [] \<and> r_type data = Some ''user''
          then map_option (Pair eff) (prompt_written data) else None)"

definition line_prompt ::
  "(string \<Rightarrow> log_record option) \<Rightarrow> string \<Rightarrow> string \<Rightarrow> (string \<times> string) option" where
  "line_prompt parse filePath line =
     (case parse line of None \<Rightarrow> None | Some data \<Rightarrow> prompt_of_record data filePath)"

definition apply_prompt :: "(string \<times> string) option \<Rightarrow> (string \<rightharpoonup> string) \<Rightarrow> (string \<rightharpoonup> string)"
  where
  "apply_prompt u g = (case u of None \<Rightarrow> g | Some kp \<Rightarrow> g(fst kp \<mapsto> snd kp))"

subsection \<open>Example stores\<close>

text \<open>A session created at time 10 and completed at time 20.\<close>

definition completed_store :: store where
  "completed_store =
     completeSession default_config 20 ''s1'' (getOrCreateSession 10 ''s1'' None init_store)"

text \<open>A session created at time 0 and left alone: active, with no tool open.\<close>

definition fresh_store :: store where
  "fresh_store = getOrCreateSession 0 ''s1'' None init_store"

text \<open>A session is created, then a usage of 5 input and 7 output tokens is recorded.\<close>

definition usage_5_7 :: usage where
  "usage_5_7 = \<lparr> input_tokens = Some 5, output_tokens = Some 7,
                  cache_read_input_tokens = None, cache_creation_input_tokens = None \<rparr>"

definition usage_trace :: "(int \<times> call) list" where
  "usage_trace = [(1, GetOrCreateSession ''s1'' None), (2, UpdateTokenUsage ''s1'' (Some usage_5_7))]"

text \<open>A configuration with both caps set to 2, and a session with two completed tools, a
  third one running, and two messages.\<close>

definition small_config :: config where
  "small_config = load_config
     \<lparr> env_SESSION_TIMEOUT_MS = None, env_MAX_TOOL_HISTORY = Some 2, env_MAX_MESSAGES = Some 2,
       env_CLEANUP_INTERVAL_MS = None, env_IDLE_THRESHOLD_MS = None \<rparr>"

definition full_trace :: "(int \<times> call) list" where
  "full_trace =
     [(1, StartTool ''s1'' ''Read'' no_details),
      (2, StartTool ''s1'' ''Edit'' no_details),
      (3, StartTool ''s1'' ''Bash'' no_details),
      (4, AddMessage ''s1'' ''user'' ''one'' None),
      (5, AddMessage ''s1'' ''assistant'' ''two'' None)]"

text \<open>The configuration loaded from an environment that sets both caps to -1 (a negative
  number is kept as it is), and a session that is created and sent one message.\<close>

definition negative_config :: config where
  "negative_config = load_config
     \<lparr> env_SESSION_TIMEOUT_MS = None, env_MAX_TOOL_HISTORY = Some (- 1),
       env_MAX_MESSAGES = Some (- 1), env_CLEANUP_INTERVAL_MS = None,
       env_IDLE_THRESHOLD_MS = None \<rparr>"

definition message_trace :: "(int \<times> call) list" where
  "message_trace =
     [(1, GetOrCreateSession ''s1'' None), (2, AddMessage ''s1'' ''user'' ''one'' None)]"

text \<open>A message of 1001 characters.\<close>

definition long_content :: string where
  "long_content = replicate 1001 CHR ''a''"

text \<open>A tool is started in a new session, and the session is completed.\<close>

definition tool_trace :: "(int \<times> call) list" where
  "tool_trace = [(1, StartTool ''s1'' ''Bash'' no_details)]"

definition tool_then_completed_trace :: "(int \<times> call) list" where
  "tool_then_completed_trace = tool_trace @ [(2, CompleteSession ''s1'')]"

text \<open>Two chunks of the stream: a tool invocation, and an error.\<close>

definition tool_chunk :: stream_chunk where
  "tool_chunk =
     \<lparr> c_type = Some ''assistant'', c_session_id = Some ''s1'', c_sessionId = None,
       c_metadata_session_id = None,
       c_content = ChunkBlocks [ToolUseBlock ''Bash'' None None],
       c_tool_use_id = None, c_is_error = None \<rparr>"

definition error_chunk :: stream_chunk where
  "error_chunk =
     \<lparr> c_type = Some ''error'', c_session_id = Some ''s1'', c_sessionId = None,
       c_metadata_session_id = None, c_content = ChunkNone,
       c_tool_use_id = None, c_is_error = None \<rparr>"

subsection \<open>Example files\<close>

text \<open>A decoder that knows one line, \<open>D\<close>, the dequeue record of session \<open>s1\<close>; a file system
  that holds one file; and a watcher that has read 120 bytes of the file.\<close>

definition dequeue_record :: log_record where
  "dequeue_record =
     \<lparr> r_type = Some ''queue-operation'', r_sessionId = Some ''s1'', r_agentId = None,
       r_timestamp = None, r_cwd = None, r_gitBranch = None, r_version = None,
       r_isSidechain = None, r_operation = Some ''dequeue'', r_message = None,
       r_is_error = None \<rparr>"

definition toy_parse :: "string \<Rightarrow> log_record option" where
  "toy_parse line = (if line = ''D'' then Some dequeue_record else None)"

definition file_with :: "string \<Rightarrow> int \<Rightarrow> string \<Rightarrow> filesystem" where
  "file_with filePath mtime content =
     \<lparr> existsSync = (\<lambda>p. p = filePath),
       readdirSync = (\<lambda>p. None),
       statSync = (\<lambda>p. if p = filePath
                         then Some \<lparr> mtimeMs = mtime, size_bytes = length content \<rparr>
                         else None),
       readFileSync = (\<lambda>p. if p = filePath then Some content else None) \<rparr>"

definition tracked_watcher :: watcher where
  "tracked_watcher = init_watcher\<lparr>filePositions := [''/p/s1.jsonl'' \<mapsto> 120]\<rparr>"


text \<open>The log directory \<open>/p\<close> with the session file in the project directory \<open>/p/proj\<close>, and
  with the session file in \<open>/p\<close> itself; the file was modified at time 1000.\<close>

definition nested_fs :: filesystem where
  "nested_fs =
     \<lparr> existsSync = (\<lambda>p. p = ''/p'' \<or> p = ''/p/proj'' \<or> p = ''/p/proj/s1.jsonl''),
       readdirSync = (\<lambda>p. if p = ''/p'' then Some [''proj'']
                           else if p = ''/p/proj'' then Some [''s1.jsonl'']
                           else None),
       statSync = (\<lambda>p. if p = ''/p/proj/s1.jsonl''
                         then Some \<lparr> mtimeMs = 1000, size_bytes = 1 \<rparr>
                         else if p = ''/p'' \<or> p = ''/p/proj''
                         then Some \<lparr> mtimeMs = 1000, size_bytes = 4096 \<rparr>
                         else None),
       readFileSync = (\<lambda>p. if p = ''/p/proj/s1.jsonl'' then Some ''D'' else None) \<rparr>"

definition flat_fs :: filesystem where
  "flat_fs =
     \<lparr> existsSync = (\<lambda>p. p = ''/p'' \<or> p = ''/p/s1.jsonl''),
       readdirSync = (\<lambda>p. if p = ''/p'' then Some [''s1.jsonl''] else None),
       statSync = (\<lambda>p. if p = ''/p/s1.jsonl''
                         then Some \<lparr> mtimeMs = 1000, size_bytes = 1 \<rparr>
                         else if p = ''/p''
                         then Some \<lparr> mtimeMs = 1000, size_bytes = 4096 \<rparr>
                         else None),
       readFileSync = (\<lambda>p. if p = ''/p/s1.jsonl'' then Some ''D'' else None) \<rparr>"


subsection \<open>Example records\<close>

text \<open>The dequeue record of the session \<open>P\<close>; a record of the sub-agent \<open>A\<close> of \<open>P\<close>, an assistant
  message with a usage of 5 and 7 tokens; and the watcher after the record of \<open>P\<close>.\<close>

definition parent_record :: log_record where
  "parent_record =
     \<lparr> r_type = Some ''queue-operation'', r_sessionId = Some ''P'', r_agentId = None,
       r_timestamp = None, r_cwd = None, r_gitBranch = None, r_version = None,
       r_isSidechain = None, r_operation = Some ''dequeue'', r_message = None,
       r_is_error = None \<rparr>"

definition sub_record :: log_record where
  "sub_record =
     \<lparr> r_type = Some ''assistant'', r_sessionId = Some ''P'', r_agentId = Some ''A'',
       r_timestamp = None, r_cwd = None, r_gitBranch = None, r_version = None,
       r_isSidechain = Some True, r_operation = None,
       r_message = Some \<lparr> lm_content = NoContent, lm_model = None,
                           lm_usage = Some usage_5_7 \<rparr>,
       r_is_error = None \<rparr>"

definition parent_watcher :: watcher where
  "parent_watcher = processMessage default_config 1 parent_record ''/p/P.jsonl'' init_watcher"


subsection \<open>An example file to replay\<close>

text \<open>A file of four lines: a result record of the session \<open>s1\<close>; an assistant message of
  \<open>s1\<close> that names the model, reports a usage of 5 and 7 tokens and says \<open>hi\<close>; a user
  message of \<open>s1\<close>; and an assistant message of the session \<open>s2\<close> that starts the tool
  \<open>Bash\<close>. The file is read from its start at time 10, and once more at time 20.\<close>

definition opus_usage_message :: log_message where
  "opus_usage_message =
     \<lparr> lm_content = BlockContent [TextBlock (Some ''hi'')],
       lm_model = Some ''claude-opus-4'',
       lm_usage = Some usage_5_7 \<rparr>"

definition bash_message :: log_message where
  "bash_message =
     \<lparr> lm_content = BlockContent [ToolUseBlock ''Bash'' None None],
       lm_model = None, lm_usage = None \<rparr>"

definition question_message :: log_message where
  "question_message =
     \<lparr> lm_content = StringContent ''why'', lm_model = None, lm_usage = None \<rparr>"

definition record_of :: "string \<Rightarrow> string \<Rightarrow> log_message option \<Rightarrow> log_record" where
  "record_of typ sessionId msg =
     \<lparr> r_type = Some typ, r_sessionId = Some sessionId, r_agentId = None,
       r_timestamp = None, r_cwd = None, r_gitBranch = None, r_version = None,
       r_isSidechain = None, r_operation = None, r_message = msg, r_is_error = None \<rparr>"

definition replay_parse :: "string \<Rightarrow> log_record option" where
  "replay_parse line =
     (if line = ''R'' then Some (record_of ''result'' ''s1'' None)
      else if line = ''A'' then Some (record_of ''assistant'' ''s1'' (Some opus_usage_message))
      else if line = ''U'' then Some (record_of ''user'' ''s1'' (Some question_message))
      else if line = ''T'' then Some (record_of ''assistant'' ''s2'' (Some bash_message))
      else None)"

definition replay_content :: string where
  "replay_content = [CHR ''R'', CHR 0x0A, CHR ''A'', CHR 0x0A, CHR ''U'', CHR 0x0A, CHR ''T'']"

definition replay_fs :: filesystem where
  "replay_fs = file_with ''/p/s1.jsonl'' 5 replay_content"

definition first_pass :: watcher where
  "first_pass = process_from_start default_config replay_parse replay_fs 10 ''/p/s1.jsonl''
                  init_watcher"

definition second_pass :: watcher where
  "second_pass = process_from_start default_config replay_parse replay_fs 20 ''/p/s1.jsonl''
                   first_pass"


section \<open>Reading the store after a write\<close>

named_theorems sm_defs

lemmas [sm_defs] = sessions_get_def modify_def notifyChange_def init_store_def new_session_def
  num_or_def truthy_def truthy_num_def getOrCreateSession_def completeSession_def
  complete_running_def completeTool_def startTool_def Let_def default_config_def load_config_def
  js_slice_def js_index_def js_slice_from_def updateSessionStatus_def unshift_history_def
  push_message_def new_message_def

lemma sessions_get_notifyChange [simp]:
  "sessions_get (notifyChange ev k st) k' = sessions_get st k'"
  by (simp add: sessions_get_def notifyChange_def)

lemma sessions_get_modify [simp]:
  "sessions_get (modify k f st) k' =
     (if k' = k then map_option f (sessions_get st k) else sessions_get st k')"
  by (simp add: sessions_get_def modify_def map_of_map_entry split: option.splits)

lemma sessions_get_insert [simp]:
  "sessions_get (st\<lparr>sessions := AList.update k v (sessions st)\<rparr>) k' =
     (if k' = k then Some v else sessions_get st k')"
  by (simp add: sessions_get_def update_conv')

lemma sessions_get_remove [simp]:
  "sessions_get (st\<lparr>sessions := AList.delete k (sessions st)\<rparr>) k' =
     (if k' = k then None else sessions_get st k')"
  by (simp add: sessions_get_def delete_conv')

lemma sessions_get_agentToSession [simp]:
  "sessions_get (st\<lparr>agentToSession := m\<rparr>) k' = sessions_get st k'"
  by (simp add: sessions_get_def)

lemma sessions_get_getOrCreateSession:
  "sessions_get (getOrCreateSession now k ts st) k' =
     (if k' = k
      then (case sessions_get st k of
              None \<Rightarrow> Some (new_session k (num_or ts now))
            | Some s \<Rightarrow> Some (if truthy_num ts then s else s\<lparr>lastActivity := now\<rparr>))
      else sessions_get st k')"
  by (simp add: getOrCreateSession_def split: option.splits)

lemma sessions_get_completeTool:
  "sessions_get (completeTool cfg now k n stat d st) k' =
     (if k' = k
      then (case sessions_get st k of
              None \<Rightarrow> None
            | Some s \<Rightarrow>
                (case currentTool s of
                   None \<Rightarrow> Some s
                 | Some t \<Rightarrow>
                     Some (s\<lparr>toolHistory :=
                               unshift_history cfg
                                 \<lparr> hist_name = n, hist_duration = now - tool_startTime t,
                                   hist_status = stat, hist_completedAt = now,
                                   hist_details = d \<rparr> (toolHistory s),
                             currentTool := None,
                             lastActivity := now\<rparr>)))
      else sessions_get st k')"
  by (simp add: completeTool_def Let_def split: option.splits)

lemma sessions_get_complete_running_other:
  "k' \<noteq> k \<Longrightarrow> sessions_get (complete_running cfg now k st) k' = sessions_get st k'"
  by (simp add: complete_running_def sessions_get_completeTool split: option.splits)

lemma complete_running_exists:
  "sessions_get st k = Some s \<Longrightarrow> \<exists>s'. sessions_get (complete_running cfg now k st) k = Some s'"
  by (simp add: complete_running_def sessions_get_completeTool split: option.splits)

subsection \<open>The staleness sweep, read at one session\<close>

lemma sessions_get_sweep_entry:
  "sessions_get (sweep_entry cfg now e st) k =
     (if k = fst e
      then (if now - lastActivity (snd e) > SESSION_TIMEOUT_MS cfg then None
            else if status (snd e) = Active \<and> currentTool (snd e) = None
                    \<and> now - lastActivity (snd e) > IDLE_THRESHOLD_MS cfg
            then map_option (\<lambda>s. s\<lparr>status := Idle\<rparr>) (sessions_get st k)
            else sessions_get st k)
      else sessions_get st k)"
  by (simp add: sweep_entry_def Let_def)

lemma sessions_get_sweep_other:
  "k \<notin> fst ` set es \<Longrightarrow> sessions_get (fold (sweep_entry cfg now) es st) k = sessions_get st k"
  by (induction es arbitrary: st) (auto simp: sessions_get_sweep_entry)

lemma sessions_get_sweep_fold:
  "distinct (map fst es) \<Longrightarrow> (k, s) \<in> set es \<Longrightarrow>
   sessions_get (fold (sweep_entry cfg now) es st) k =
     (if now - lastActivity s > SESSION_TIMEOUT_MS cfg then None
      else if status s = Active \<and> currentTool s = None
              \<and> now - lastActivity s > IDLE_THRESHOLD_MS cfg
      then map_option (\<lambda>s. s\<lparr>status := Idle\<rparr>) (sessions_get st k)
      else sessions_get st k)"
proof (induction es arbitrary: st)
  case Nil
  then show ?case by simp
next
  case (Cons e es)
  show ?case
  proof (cases "e = (k, s)")
    case True
    with Cons.prems have "k \<notin> fst ` set es" by auto
    then show ?thesis using True
      by (simp add: sessions_get_sweep_other sessions_get_sweep_entry)
  next
    case False
    with Cons.prems have in_es: "(k, s) \<in> set es" and d: "distinct (map fst es)"
      and ne: "fst e \<noteq> k"
      by (auto simp: rev_image_eqI)
    show ?thesis
      using Cons.IH [OF d in_es] ne by (simp add: sessions_get_sweep_entry)
  qed
qed

lemma sessions_get_cleanupStaleSessions:
  assumes "unique_keys st" and "sessions_get st k = Some s"
  shows "sessions_get (cleanupStaleSessions cfg now st) k =
     (if now - lastActivity s > SESSION_TIMEOUT_MS cfg then None
      else if status s = Active \<and> currentTool s = None
              \<and> now - lastActivity s > IDLE_THRESHOLD_MS cfg
      then Some (s\<lparr>status := Idle\<rparr>)
      else Some s)"
proof -
  from assms(2) have "(k, s) \<in> set (sessions st)"
    by (simp add: sessions_get_def map_of_SomeD)
  with assms show ?thesis
    unfolding cleanupStaleSessions_def unique_keys_def
    by (simp add: sessions_get_sweep_fold)
qed


subsection \<open>Properties kept by every session of the store\<close>

lemma list_all_map_entry:
  "list_all (\<lambda>e. P (snd e)) xs \<Longrightarrow> (\<And>s. P s \<Longrightarrow> P (f s))
     \<Longrightarrow> list_all (\<lambda>e. P (snd e)) (AList.map_entry k f xs)"
  by (induction xs) auto

lemma list_all_update:
  "list_all (\<lambda>e. P (snd e)) xs \<Longrightarrow> P v \<Longrightarrow> list_all (\<lambda>e. P (snd e)) (AList.update k v xs)"
  by (induction xs) auto

lemma list_all_delete:
  "list_all (\<lambda>e. P (snd e)) xs \<Longrightarrow> list_all (\<lambda>e. P (snd e)) (AList.delete k xs)"
  by (induction xs) auto

lemma all_sessions_notifyChange [simp]:
  "all_sessions P (notifyChange ev k st) = all_sessions P st"
  by (simp add: all_sessions_def notifyChange_def)

lemma all_sessions_agentToSession [simp]:
  "all_sessions P (st\<lparr>agentToSession := m\<rparr>) = all_sessions P st"
  by (simp add: all_sessions_def)

lemma all_sessions_modify:
  "all_sessions P st \<Longrightarrow> (\<And>s. P s \<Longrightarrow> P (f s)) \<Longrightarrow> all_sessions P (modify k f st)"
  unfolding all_sessions_def modify_def by (simp add: list_all_map_entry)

lemma all_sessions_insert:
  "all_sessions P st \<Longrightarrow> P v
     \<Longrightarrow> all_sessions P (st\<lparr>sessions := AList.update k v (sessions st)\<rparr>)"
  unfolding all_sessions_def by (simp add: list_all_update)

lemma all_sessions_remove:
  "all_sessions P st \<Longrightarrow> all_sessions P (st\<lparr>sessions := AList.delete k (sessions st)\<rparr>)"
  unfolding all_sessions_def by (simp add: list_all_delete)

lemma all_sessions_get:
  "all_sessions P st \<Longrightarrow> sessions_get st k = Some s \<Longrightarrow> P s"
  unfolding all_sessions_def sessions_get_def
  by (auto simp: list_all_iff dest!: map_of_SomeD)

lemma all_sessions_init [simp]: "all_sessions P init_store"
  by (simp add: all_sessions_def init_store_def)

lemma all_sessions_getOrCreateSession:
  "all_sessions P st \<Longrightarrow> (\<And>t. P (new_session k t))
     \<Longrightarrow> (\<And>s t. P s \<Longrightarrow> P (s\<lparr>lastActivity := t\<rparr>))
     \<Longrightarrow> all_sessions P (getOrCreateSession now k ts st)"
  unfolding getOrCreateSession_def
  by (auto simp: all_sessions_modify all_sessions_insert split: option.splits)

lemma all_sessions_sweep:
  "all_sessions P st \<Longrightarrow> (\<And>s. P s \<Longrightarrow> P (s\<lparr>status := Idle\<rparr>))
     \<Longrightarrow> all_sessions P (fold (sweep_entry cfg now) es st)"
proof (induction es arbitrary: st)
  case Nil
  then show ?case by simp
next
  case (Cons e es)
  have "all_sessions P (sweep_entry cfg now e st)"
    using Cons.prems
    by (simp add: sweep_entry_def Let_def all_sessions_modify all_sessions_remove)
  then show ?case using Cons by simp
qed

lemma all_sessions_cleanupStaleSessions:
  "all_sessions P st \<Longrightarrow> (\<And>s. P s \<Longrightarrow> P (s\<lparr>status := Idle\<rparr>))
     \<Longrightarrow> all_sessions P (cleanupStaleSessions cfg now st)"
  by (simp add: cleanupStaleSessions_def all_sessions_sweep)

named_theorems op_defs

lemmas [op_defs] = updateModelInfo_def updateCwd_def updateGitBranch_def updateTokenUsage_def
   addMessage_def createSubAgent_def linkSubAgent_def startTool_def completeTool_def
   complete_running_def completeSession_def updateSessionStatus_def updateSessionPrompt_def
   updateTodos_def Let_def


subsection \<open>The two trims\<close>

lemma js_index_neg:
  "0 < n \<Longrightarrow> n < int len \<Longrightarrow> js_index (- n) len = len - nat n"
  unfolding js_index_def by (simp add: max_def)

lemma js_index_pos:
  "0 < n \<Longrightarrow> n < int len \<Longrightarrow> js_index n len = nat n"
  unfolding js_index_def by (simp add: min_def)

lemma js_index_zero: "js_index 0 len = 0"
  by (simp add: js_index_def)

lemma js_slice_from_last:
  "0 < n \<Longrightarrow> int (length xs) > n \<Longrightarrow> js_slice_from (- n) xs = drop (length xs - nat n) xs"
  by (simp add: js_slice_from_def js_index_neg)

lemma js_slice_first:
  "0 < n \<Longrightarrow> int (length xs) > n \<Longrightarrow> js_slice 0 n xs = take (nat n) xs"
  by (simp add: js_slice_def js_index_pos js_index_zero Let_def)

lemma push_message_eq:
  "0 < MAX_MESSAGES cfg \<Longrightarrow>
   push_message cfg now role content timestamp msgs =
     (if int (length msgs) < MAX_MESSAGES cfg
      then msgs @ [new_message now role content timestamp]
      else drop (Suc (length msgs) - nat (MAX_MESSAGES cfg))
             (msgs @ [new_message now role content timestamp]))"
  by (auto simp: push_message_def Let_def js_slice_from_last)

lemma length_push_message:
  "0 < MAX_MESSAGES cfg \<Longrightarrow> int (length msgs) \<le> MAX_MESSAGES cfg
    \<Longrightarrow> int (length (push_message cfg now role content timestamp msgs)) \<le> MAX_MESSAGES cfg"
  by (auto simp: push_message_eq)

lemma push_message_evicts:
  assumes "0 < MAX_MESSAGES cfg" and "int (length msgs) = MAX_MESSAGES cfg"
  shows "push_message cfg now role content timestamp msgs
        = tl msgs @ [new_message now role content timestamp]"
proof -
  from assms have n: "nat (MAX_MESSAGES cfg) = length msgs" by simp
  from assms have "msgs \<noteq> []" by auto
  then obtain m ms where "msgs = m # ms" by (cases msgs) auto
  with assms n show ?thesis by (simp add: push_message_eq)
qed

lemma length_unshift_history:
  "0 < MAX_TOOL_HISTORY cfg \<Longrightarrow> int (length h) \<le> MAX_TOOL_HISTORY cfg
    \<Longrightarrow> int (length (unshift_history cfg e h)) \<le> MAX_TOOL_HISTORY cfg"
  by (auto simp: unshift_history_def Let_def js_slice_first)

lemma unshift_history_evicts:
  assumes "0 < MAX_TOOL_HISTORY cfg" and "int (length h) = MAX_TOOL_HISTORY cfg"
  shows "unshift_history cfg e h = e # butlast h"
proof -
  from assms have n: "nat (MAX_TOOL_HISTORY cfg) = length h" by simp
  from assms have "h \<noteq> []" by auto
  then obtain m where m: "length h = Suc m" by (cases h) auto
  with assms n show ?thesis
    by (simp add: unshift_history_def Let_def js_slice_first butlast_conv_take)
qed


subsection \<open>The example file\<close>

lemma nonblank_D: "nonblank_lines ''D'' = [''D'']"
  by (simp add: nonblank_lines_def trim_truthy_def is_space_def)


subsection \<open>One entry per key\<close>

text \<open>Every store reached by calls of the store's methods holds one entry per key.\<close>

lemma unique_keys_notifyChange [simp]: "unique_keys (notifyChange ev k st) = unique_keys st"
  by (simp add: unique_keys_def notifyChange_def)

lemma unique_keys_agentToSession [simp]:
  "unique_keys (st\<lparr>agentToSession := m\<rparr>) = unique_keys st"
  by (simp add: unique_keys_def)

lemma map_fst_map_entry: "map fst (AList.map_entry k f xs) = map fst xs"
  by (induction xs) auto

lemma unique_keys_modify [simp]: "unique_keys (modify k f st) = unique_keys st"
  by (simp add: unique_keys_def modify_def map_fst_map_entry)

lemma unique_keys_insert:
  "unique_keys st \<Longrightarrow> unique_keys (st\<lparr>sessions := AList.update k v (sessions st)\<rparr>)"
  by (simp add: unique_keys_def distinct_update)

lemma unique_keys_remove:
  "unique_keys st \<Longrightarrow> unique_keys (st\<lparr>sessions := AList.delete k (sessions st)\<rparr>)"
  by (simp add: unique_keys_def distinct_delete)

lemma unique_keys_getOrCreateSession:
  "unique_keys st \<Longrightarrow> unique_keys (getOrCreateSession now k ts st)"
  by (simp add: getOrCreateSession_def unique_keys_insert split: option.splits)

lemma unique_keys_sweep:
  "unique_keys st \<Longrightarrow> unique_keys (fold (sweep_entry cfg now) es st)"
proof (induction es arbitrary: st)
  case Nil
  then show ?case by simp
next
  case (Cons e es)
  have "unique_keys (sweep_entry cfg now e st)"
    using Cons.prems by (simp add: sweep_entry_def Let_def unique_keys_remove)
  then show ?case using Cons by simp
qed

lemma unique_keys_exec: "unique_keys st \<Longrightarrow> unique_keys (exec cfg (now, c) st)"
  by (cases c)
     (simp_all add: unique_keys_getOrCreateSession cleanupStaleSessions_def unique_keys_sweep
        op_defs split: option.splits)

lemma unique_keys_fold:
  "unique_keys st \<Longrightarrow> unique_keys (fold (exec cfg) trace st)"
proof (induction trace arbitrary: st)
  case Nil
  then show ?case by simp
next
  case (Cons a trace)
  obtain now c where "a = (now, c)" by (cases a)
  with Cons show ?case by (simp add: unique_keys_exec)
qed

lemma unique_keys_run: "unique_keys (run cfg trace)"
proof -
  have "unique_keys init_store" by (simp add: unique_keys_def init_store_def)
  then show ?thesis unfolding run_def by (rule unique_keys_fold)
qed

subsection \<open>The caps that the configuration loads\<close>

text \<open>The default caps are positive, and so are the caps loaded from an environment whose
  values are not negative: a zero is replaced by the default.\<close>

lemma default_caps_positive:
  "0 < MAX_TOOL_HISTORY default_config" "0 < MAX_MESSAGES default_config"
  by (simp_all add: default_config_def load_config_def num_or_def)

lemma loaded_caps_positive:
  assumes "env_MAX_TOOL_HISTORY env = None \<or> (\<exists>n\<ge>0. env_MAX_TOOL_HISTORY env = Some n)"
    and "env_MAX_MESSAGES env = None \<or> (\<exists>n\<ge>0. env_MAX_MESSAGES env = Some n)"
  shows "0 < MAX_TOOL_HISTORY (load_config env)" and "0 < MAX_MESSAGES (load_config env)"
  using assms by (auto simp: load_config_def num_or_def)


section \<open>What the steps of the reconciler keep\<close>

lemma kept_refl [simp]: "kept l s s"
  by (simp add: kept_def le_session_def)

lemma kept_trans: "kept l s s' \<Longrightarrow> kept l s' s'' \<Longrightarrow> kept l s s''"
  by (auto simp: kept_def le_session_def)

lemma kept_weaken: "kept True s s' \<Longrightarrow> kept l s s'"
  by (simp add: kept_def)

lemma related_refl [simp]: "related (kept l) st st"
  by (simp add: related_def)

lemma related_trans:
  "related (kept l) st st' \<Longrightarrow> related (kept l) st' st'' \<Longrightarrow> related (kept l) st st''"
  unfolding related_def by (meson kept_trans)

lemma related_weaken: "related (kept True) st st' \<Longrightarrow> related (kept l) st st'"
  unfolding related_def by (meson kept_weaken)

lemma relatedI:
  "(\<And>k s. sessions_get st k = Some s \<Longrightarrow> \<exists>s'. sessions_get st' k = Some s' \<and> R s s')
     \<Longrightarrow> related R st st'"
  by (simp add: related_def)

lemma relatedD:
  "related R st st' \<Longrightarrow> sessions_get st k = Some s
     \<Longrightarrow> \<exists>s'. sessions_get st' k = Some s' \<and> R s s'"
  by (simp add: related_def)

lemma kept_simps [simp]:
  "kept l s (s\<lparr>lastActivity := t\<rparr>)"
  "kept l s (s\<lparr>prompt := p\<rparr>)"
  "kept l s (s\<lparr>todos := td\<rparr>)"
  "kept l s (s\<lparr>status := st\<rparr>)"
  "kept l s (s\<lparr>currentTool := ct\<rparr>)"
  "kept l s (s\<lparr>toolHistory := th\<rparr>)"
  "kept l s (s\<lparr>messages := ms\<rparr>)"
  "kept l s (s\<lparr>tokens := tk\<rparr>)"
  "kept l s (s\<lparr>estimatedCost := ec\<rparr>)"
  by (simp_all add: kept_def le_session_def linkage_def)

lemma related_modify: "(\<And>s. kept l s (f s)) \<Longrightarrow> related (kept l) st (modify k f st)"
  by (rule relatedI) auto

lemma related_notifyChange [simp]:
  "related R st (notifyChange ev k st') = related R st st'"
  by (simp add: related_def)

lemma related_getOrCreateSession: "related (kept l) st (getOrCreateSession now k ts st)"
  by (rule relatedI) (auto simp: sessions_get_getOrCreateSession)

lemma related_updateCwd: "related (kept l) st (updateCwd now k d st)"
  by (rule relatedI)
     (auto simp: updateCwd_def Let_def sessions_get_getOrCreateSession kept_def le_session_def
        linkage_def split: option.splits)

lemma related_updateGitBranch: "related (kept l) st (updateGitBranch now k d st)"
  by (rule relatedI)
     (auto simp: updateGitBranch_def Let_def sessions_get_getOrCreateSession kept_def
        le_session_def linkage_def split: option.splits)

lemma related_updateSessionPrompt: "related (kept l) st (updateSessionPrompt now k p st)"
  by (rule relatedI)
     (auto simp: updateSessionPrompt_def Let_def sessions_get_getOrCreateSession kept_def
        le_session_def linkage_def split: option.splits)

lemma related_addMessage: "related (kept l) st (addMessage cfg now k role content ts st)"
  by (rule relatedI)
     (auto simp: addMessage_def Let_def kept_def le_session_def linkage_def split: option.splits)

lemma related_updateModelInfo: "related (kept l) st (updateModelInfo now k m v st)"
proof -
  let ?f1 = "\<lambda>s. if truthy m \<and> \<not> truthy (model s)
                 then s\<lparr>model := m, modelShort := parseModelName m\<rparr> else s"
  let ?f2 = "\<lambda>s. if truthy v \<and> \<not> truthy (version s) then s\<lparr>version := v\<rparr> else s"
  let ?st1 = "getOrCreateSession now k None st"
  have 1: "related (kept l) st ?st1" by (rule related_getOrCreateSession)
  have 2: "related (kept l) ?st1 (modify k ?f1 ?st1)"
    by (rule related_modify) (simp add: kept_def le_session_def linkage_def)
  have 3: "related (kept l) (modify k ?f1 ?st1) (modify k ?f2 (modify k ?f1 ?st1))"
    by (rule related_modify) (simp add: kept_def le_session_def linkage_def)
  from 1 2 3 have "related (kept l) st (modify k ?f2 (modify k ?f1 ?st1))"
    by (blast intro: related_trans)
  then show ?thesis by (simp add: updateModelInfo_def Let_def)
qed

lemma related_updateTokenUsage: "related (kept l) st (updateTokenUsage now k u st)"
  by (rule relatedI)
     (auto simp: updateTokenUsage_def Let_def kept_def le_session_def linkage_def
        split: option.splits)

lemma related_completeTool: "related (kept l) st (completeTool cfg now k n stat d st)"
  by (rule relatedI)
     (auto simp: sessions_get_completeTool kept_def le_session_def linkage_def
        split: option.splits)

lemma related_complete_running: "related (kept l) st (complete_running cfg now k st)"
  by (simp add: complete_running_def related_completeTool split: option.splits)

lemma related_startTool: "related (kept l) st (startTool cfg now k n d st)"
proof -
  let ?st1 = "getOrCreateSession now k None st"
  let ?st2 = "complete_running cfg now k ?st1"
  have "related (kept l) st ?st2"
    by (blast intro: related_trans related_getOrCreateSession related_complete_running)
  moreover have "related (kept l) ?st2 (startTool cfg now k n d st)"
    by (simp add: startTool_def Let_def related_modify kept_def le_session_def linkage_def)
  ultimately show ?thesis by (rule related_trans)
qed

lemma related_completeSession: "related (kept l) st (completeSession cfg now k st)"
proof (cases "sessions_get st k")
  case None
  then show ?thesis by (simp add: completeSession_def)
next
  case (Some s)
  have "related (kept l) (complete_running cfg now k st) (completeSession cfg now k st)"
    using Some
    by (simp add: completeSession_def Let_def related_modify kept_def le_session_def
          linkage_def)
  with related_complete_running show ?thesis by (rule related_trans)
qed

lemma related_linkSubAgent: "related (kept False) st (linkSubAgent p a st)"
  by (rule relatedI)
     (auto simp: linkSubAgent_def kept_def le_session_def split: option.splits)

lemma related_createSubAgent: "related (kept False) st (createSubAgent now a p st)"
proof (cases "sessions_get st a")
  case None
  let ?st1 = "getOrCreateSession now a None st"
  let ?st2 = "modify a (\<lambda>s. s\<lparr>agentId := Some a, parentSessionId := Some p,
                             isSubAgent := True\<rparr>) ?st1"
  let ?st3 = "?st2\<lparr>agentToSession := (agentToSession ?st2)(a \<mapsto> a)\<rparr>"
  have "related (kept False) st ?st1" by (rule related_getOrCreateSession)
  moreover have "related (kept False) ?st1 ?st3"
    by (rule relatedI) (auto simp: kept_def le_session_def)
  moreover have "related (kept False) ?st3 (linkSubAgent p a ?st3)"
    by (rule related_linkSubAgent)
  ultimately have "related (kept False) st (linkSubAgent p a ?st3)"
    by (blast intro: related_trans)
  with None show ?thesis by (simp add: createSubAgent_def Let_def)
next
  case (Some s)
  then show ?thesis by (simp add: createSubAgent_def)
qed

lemma sessionManager_processMessage:
  "sessionManager (processMessage cfg now data filePath w) =
     (case effectiveSessionId data filePath of
        None \<Rightarrow> sessionManager w
      | Some eff \<Rightarrow>
          if eff = [] then sessionManager w
          else after_link cfg now eff data (link_step now data filePath (sessionManager w)))"
  by (simp add: processMessage_def on_manager_def Let_def after_link_def link_step_def
        cwd_step_def branch_step_def split: option.splits)

lemma related_handleUserMessage: "related (kept l) st (handleUserMessage cfg now k data st)"
  by (auto simp: handleUserMessage_def split: option.splits message_content.splits
        intro: related_trans [OF related_updateSessionPrompt related_addMessage])

lemma related_handleToolUse:
  "related (kept l) st (handleToolUse cfg now k n i inp ts st)"
  by (simp add: handleToolUse_def Let_def related_startTool)

lemma related_handle_block: "related (kept l) st (handle_block cfg now k ts b st)"
  by (simp add: handle_block_def related_addMessage related_handleToolUse
        split: content_block.splits option.splits)

lemma related_fold_handle_block:
  "related (kept l) st (fold (handle_block cfg now k ts) bs st)"
proof (induction bs arbitrary: st)
  case Nil
  show ?case by simp
next
  case (Cons b bs)
  have "related (kept l) st (handle_block cfg now k ts b st)"
    by (rule related_handle_block)
  with Cons [of "handle_block cfg now k ts b st"] show ?case
    by (simp add: related_trans)
qed

lemma related_handleAssistantMessage:
  "related (kept l) st (handleAssistantMessage cfg now k data ts st)"
proof (cases "r_message data")
  case None
  then show ?thesis by (simp add: handleAssistantMessage_def)
next
  case (Some m)
  let ?st1 = "if truthy (lm_model m)
              then updateModelInfo now k (lm_model m) (r_version data) st else st"
  let ?st2 = "case lm_usage m of None \<Rightarrow> ?st1
              | Some u \<Rightarrow> updateTokenUsage now k (Some u) ?st1"
  have 1: "related (kept l) st ?st1" by (simp add: related_updateModelInfo)
  have 2: "related (kept l) ?st1 ?st2"
    by (simp add: related_updateTokenUsage split: option.splits)
  have 3: "related (kept l) ?st2 (handleAssistantMessage cfg now k data ts st)"
    using Some
    by (simp add: handleAssistantMessage_def Let_def related_fold_handle_block
          split: message_content.splits)
  from 1 2 3 show ?thesis by (blast intro: related_trans)
qed

lemma related_handleToolResult: "related (kept l) st (handleToolResult cfg now k data st)"
  by (simp add: handleToolResult_def related_completeTool split: option.splits)

lemma related_dispatch_type: "related (kept l) st (dispatch_type cfg now k data st)"
  by (simp add: dispatch_type_def related_handleUserMessage related_handleAssistantMessage
        related_handleToolResult related_completeSession related_getOrCreateSession)

lemma related_after_link: "related (kept l) st (after_link cfg now k data st)"
proof -
  have "related (kept l) st (cwd_step now k data st)"
    by (simp add: cwd_step_def related_updateCwd)
  moreover have "related (kept l) (cwd_step now k data st)
                   (branch_step now k data (cwd_step now k data st))"
    by (simp add: branch_step_def related_updateGitBranch)
  moreover have "related (kept l) (branch_step now k data (cwd_step now k data st))
                   (after_link cfg now k data st)"
    by (simp add: after_link_def related_dispatch_type)
  ultimately show ?thesis by (blast intro: related_trans)
qed

lemma related_link_step: "related (kept False) st (link_step now data filePath st)"
  by (simp add: link_step_def related_createSubAgent split: option.splits)

lemma related_processMessage:
  "related (kept False) (sessionManager w) (sessionManager (processMessage cfg now data p w))"
  by (auto simp: sessionManager_processMessage split: option.splits
        intro: related_trans [OF related_link_step related_after_link])

named_theorems pm_defs

lemmas [pm_defs] = processMessage_def effectiveSessionId_def isSubAgentRecord_def
  on_manager_def dispatch_type_def handleAssistantMessage_def handleUserMessage_def
  handleToolResult_def handle_block_def handleToolUse_def updateTokenUsage_def add_usage_def
  estimateCost_def pricing_for_def createSubAgent_def linkSubAgent_def updateModelInfo_def
  updateCwd_def updateGitBranch_def updateSessionPrompt_def addMessage_def is_duplicate_def
  init_watcher_def


section \<open>The stable fields under the steps of the reconciler\<close>

lemma stable_view_notifyChange [simp]:
  "stable_view (notifyChange ev k st) = stable_view st"
  by (simp add: stable_view_def notifyChange_def)

lemma stable_view_agentToSession [simp]:
  "stable_view (st\<lparr>agentToSession := m\<rparr>) = stable_view st"
  by (simp add: stable_view_def)

lemma map_entry_same_view:
  "(\<And>s. map_of xs k = Some s \<Longrightarrow> g (f s) = g s)
     \<Longrightarrow> map (\<lambda>e. (fst e, g (snd e))) (AList.map_entry k f xs) = map (\<lambda>e. (fst e, g (snd e))) xs"
  by (induction xs) auto

lemma stable_view_modify_at:
  "(\<And>s. sessions_get st k = Some s \<Longrightarrow> stable_part (f s) = stable_part s)
     \<Longrightarrow> stable_view (modify k f st) = stable_view st"
  unfolding stable_view_def modify_def sessions_get_def
  by (simp add: map_entry_same_view)

lemma stable_part_simps [simp]:
  "stable_part (s\<lparr>lastActivity := t\<rparr>) = stable_part s"
  "stable_part (s\<lparr>prompt := p\<rparr>) = stable_part s"
  "stable_part (s\<lparr>status := x\<rparr>) = stable_part s"
  "stable_part (s\<lparr>currentTool := ct\<rparr>) = stable_part s"
  "stable_part (s\<lparr>toolHistory := th\<rparr>) = stable_part s"
  "stable_part (s\<lparr>messages := ms\<rparr>) = stable_part s"
  "stable_part (s\<lparr>tokens := tk\<rparr>) = stable_part s"
  "stable_part (s\<lparr>estimatedCost := ec\<rparr>) = stable_part s"
  by (simp_all add: stable_part_def linkage_def)

lemma stable_view_modify:
  "(\<And>s. stable_part (f s) = stable_part s) \<Longrightarrow> stable_view (modify k f st) = stable_view st"
  by (simp add: stable_view_modify_at)

lemma exists_sessionD: "exists_session st k \<Longrightarrow> \<exists>s. sessions_get st k = Some s"
  by (simp add: exists_session_def)

lemma has_fieldD: "has_field g st k \<Longrightarrow> \<exists>s. sessions_get st k = Some s \<and> truthy (g s)"
  by (simp add: has_field_def split: option.splits)

lemma has_field_exists: "has_field g st k \<Longrightarrow> exists_session st k"
  by (simp add: has_field_def exists_session_def split: option.splits)

lemma stable_view_getOrCreateSession:
  "exists_session st k \<Longrightarrow> stable_view (getOrCreateSession now k ts st) = stable_view st"
  by (auto simp: getOrCreateSession_def stable_view_modify dest!: exists_sessionD)

lemma stable_view_updateCwd:
  "has_field cwd st k \<Longrightarrow> stable_view (updateCwd now k d st) = stable_view st"
  by (auto simp: updateCwd_def Let_def sessions_get_getOrCreateSession
        stable_view_getOrCreateSession has_field_exists
        dest!: has_fieldD split: option.splits if_splits)

lemma stable_view_updateGitBranch:
  "has_field gitBranch st k \<Longrightarrow> stable_view (updateGitBranch now k d st) = stable_view st"
  by (auto simp: updateGitBranch_def Let_def sessions_get_getOrCreateSession
        stable_view_getOrCreateSession has_field_exists
        dest!: has_fieldD split: option.splits if_splits)

lemma stable_view_updateSessionPrompt:
  "exists_session st k \<Longrightarrow> stable_view (updateSessionPrompt now k p st) = stable_view st"
  by (simp add: updateSessionPrompt_def Let_def stable_view_modify
        stable_view_getOrCreateSession)

lemma stable_view_addMessage:
  "stable_view (addMessage cfg now k role content ts st) = stable_view st"
  by (simp add: addMessage_def stable_view_modify split: option.splits)

lemma stable_view_updateTokenUsage:
  "stable_view (updateTokenUsage now k u st) = stable_view st"
  by (simp add: updateTokenUsage_def Let_def stable_view_modify split: option.splits)

lemma stable_view_completeTool:
  "stable_view (completeTool cfg now k n stat d st) = stable_view st"
  by (simp add: completeTool_def Let_def stable_view_modify split: option.splits)

lemma stable_view_complete_running:
  "stable_view (complete_running cfg now k st) = stable_view st"
  by (simp add: complete_running_def stable_view_completeTool split: option.splits)

lemma stable_view_completeSession:
  "stable_view (completeSession cfg now k st) = stable_view st"
  by (simp add: completeSession_def Let_def stable_view_modify stable_view_complete_running
        split: option.splits)

lemma stable_view_startTool:
  "exists_session st k \<Longrightarrow> stable_view (startTool cfg now k n d st) = stable_view st"
  by (simp add: startTool_def Let_def stable_view_modify stable_view_complete_running
        stable_view_getOrCreateSession)

lemma stable_view_updateModelInfo:
  assumes "has_field model st k" and "truthy v \<longrightarrow> has_field version st k"
  shows "stable_view (updateModelInfo now k m v st) = stable_view st"
proof -
  let ?f1 = "\<lambda>s. if truthy m \<and> \<not> truthy (model s)
                 then s\<lparr>model := m, modelShort := parseModelName m\<rparr> else s"
  let ?f2 = "\<lambda>s. if truthy v \<and> \<not> truthy (version s) then s\<lparr>version := v\<rparr> else s"
  let ?st1 = "getOrCreateSession now k None st"
  from assms(1) obtain s where s: "sessions_get st k = Some s" "truthy (model s)"
    by (blast dest: has_fieldD)
  from assms(2) s have v: "truthy v \<longrightarrow> truthy (version s)"
    by (auto dest: has_fieldD)
  have g1: "sessions_get ?st1 k = Some (s\<lparr>lastActivity := now\<rparr>)"
    using s by (simp add: sessions_get_getOrCreateSession truthy_num_def)
  have 1: "stable_view ?st1 = stable_view st"
    using assms(1) by (simp add: stable_view_getOrCreateSession has_field_exists)
  have 2: "stable_view (modify k ?f1 ?st1) = stable_view ?st1"
    by (rule stable_view_modify_at) (use g1 s in auto)
  have g2: "sessions_get (modify k ?f1 ?st1) k = Some (s\<lparr>lastActivity := now\<rparr>)"
    using g1 s by simp
  have 3: "stable_view (modify k ?f2 (modify k ?f1 ?st1)) = stable_view (modify k ?f1 ?st1)"
    by (rule stable_view_modify_at) (use g2 v in auto)
  from 1 2 3 show ?thesis by (simp add: updateModelInfo_def Let_def)
qed

lemma createSubAgent_existing:
  "exists_session st a \<Longrightarrow> createSubAgent now a p st = st"
  by (auto simp: createSubAgent_def dest!: exists_sessionD)

lemma exists_related:
  "related R st st' \<Longrightarrow> exists_session st k \<Longrightarrow> exists_session st' k"
  by (auto simp: related_def exists_session_def)

lemma has_related:
  assumes "related (kept l) st st'" and "has_field g st k"
    and "\<And>s s'. le_session s s' \<Longrightarrow> truthy (g s) \<Longrightarrow> truthy (g s')"
  shows "has_field g st' k"
proof -
  from assms(2) obtain s where s: "sessions_get st k = Some s" "truthy (g s)"
    by (blast dest: has_fieldD)
  from relatedD [OF assms(1) s(1)] obtain s' where "sessions_get st' k = Some s'" "kept l s s'"
    by blast
  with s assms(3) show ?thesis by (auto simp: has_field_def kept_def)
qed

lemma has_cwd_related:
  "related (kept l) st st' \<Longrightarrow> has_field cwd st k \<Longrightarrow> has_field cwd st' k"
  by (erule has_related) (simp_all add: le_session_def)

lemma has_gitBranch_related:
  "related (kept l) st st' \<Longrightarrow> has_field gitBranch st k \<Longrightarrow> has_field gitBranch st' k"
  by (erule has_related) (simp_all add: le_session_def)

lemma has_model_related:
  "related (kept l) st st' \<Longrightarrow> has_field model st k \<Longrightarrow> has_field model st' k"
  by (erule has_related) (simp_all add: le_session_def)

lemma has_version_related:
  "related (kept l) st st' \<Longrightarrow> has_field version st k \<Longrightarrow> has_field version st' k"
  by (erule has_related) (simp_all add: le_session_def)

lemma exists_getOrCreateSession: "exists_session (getOrCreateSession now k ts st) k"
  by (simp add: exists_session_def sessions_get_getOrCreateSession split: option.splits)

lemma has_updateCwd: "truthy d \<Longrightarrow> has_field cwd (updateCwd now k d st) k"
  by (auto simp: has_field_def updateCwd_def Let_def sessions_get_getOrCreateSession
        split: option.splits)

lemma has_updateGitBranch: "truthy d \<Longrightarrow> has_field gitBranch (updateGitBranch now k d st) k"
  by (auto simp: has_field_def updateGitBranch_def Let_def sessions_get_getOrCreateSession
        split: option.splits)

lemma exists_updateSessionPrompt: "exists_session (updateSessionPrompt now k p st) k"
  by (simp add: exists_session_def updateSessionPrompt_def Let_def
        sessions_get_getOrCreateSession split: option.splits)

lemma has_updateModelInfo:
  "truthy m \<Longrightarrow> has_field model (updateModelInfo now k m v st) k"
  "truthy m \<Longrightarrow> truthy v \<Longrightarrow> has_field version (updateModelInfo now k m v st) k"
  by (auto simp: has_field_def updateModelInfo_def Let_def sessions_get_getOrCreateSession
        split: option.splits)

lemma exists_startTool: "exists_session (startTool cfg now k n d st) k"
proof -
  have "exists_session (getOrCreateSession now k None st) k"
    by (rule exists_getOrCreateSession)
  then have "exists_session (complete_running cfg now k (getOrCreateSession now k None st)) k"
    by (rule exists_related [OF related_complete_running [where l = True]])
  then show ?thesis
    by (auto simp: startTool_def Let_def exists_session_def)
qed

lemma exists_createSubAgent: "exists_session (createSubAgent now a p st) a"
proof (cases "sessions_get st a")
  case None
  let ?st2 = "modify a (\<lambda>s. s\<lparr>agentId := Some a, parentSessionId := Some p, isSubAgent := True\<rparr>)
                (getOrCreateSession now a None st)"
  let ?st3 = "?st2\<lparr>agentToSession := (agentToSession ?st2)(a \<mapsto> a)\<rparr>"
  have "exists_session (getOrCreateSession now a None st) a"
    by (rule exists_getOrCreateSession)
  then have "exists_session ?st3 a"
    by (auto simp: exists_session_def)
  then have "exists_session (linkSubAgent p a ?st3) a"
    by (rule exists_related [OF related_linkSubAgent])
  with None show ?thesis by (simp add: createSubAgent_def Let_def)
next
  case (Some s)
  then show ?thesis by (simp add: createSubAgent_def exists_session_def)
qed

section \<open>Settled records\<close>

lemma stable_view_handleUserMessage:
  "(prompt_written data \<noteq> None \<longrightarrow> exists_session st k)
     \<Longrightarrow> stable_view (handleUserMessage cfg now k data st) = stable_view st"
  by (auto simp: handleUserMessage_def prompt_written_def stable_view_addMessage
        stable_view_updateSessionPrompt split: option.splits message_content.splits)

lemma stable_view_handle_block:
  "(is_tool_use b \<longrightarrow> exists_session st k)
     \<Longrightarrow> stable_view (handle_block cfg now k ts b st) = stable_view st"
  by (cases b)
     (auto simp: handle_block_def handleToolUse_def Let_def stable_view_addMessage
        stable_view_startTool split: option.splits)

lemma stable_view_fold_handle_block:
  "(list_ex is_tool_use bs \<longrightarrow> exists_session st k)
     \<Longrightarrow> stable_view (fold (handle_block cfg now k ts) bs st) = stable_view st"
proof (induction bs arbitrary: st)
  case Nil
  show ?case by simp
next
  case (Cons b bs)
  let ?st1 = "handle_block cfg now k ts b st"
  have 1: "stable_view ?st1 = stable_view st"
    using Cons.prems by (simp add: stable_view_handle_block)
  have "list_ex is_tool_use bs \<longrightarrow> exists_session ?st1 k"
    using Cons.prems exists_related [OF related_handle_block [where l = True]] by auto
  then have "stable_view (fold (handle_block cfg now k ts) bs ?st1) = stable_view ?st1"
    by (rule Cons.IH)
  with 1 show ?case by simp
qed

lemma stable_view_handleAssistantMessage:
  assumes "names_model data \<longrightarrow>
             has_field model st k \<and> (truthy (r_version data) \<longrightarrow> has_field version st k)"
    and "starts_tool data \<longrightarrow> exists_session st k"
  shows "stable_view (handleAssistantMessage cfg now k data ts st) = stable_view st"
proof (cases "r_message data")
  case None
  then show ?thesis by (simp add: handleAssistantMessage_def)
next
  case (Some m)
  let ?st1 = "if truthy (lm_model m)
              then updateModelInfo now k (lm_model m) (r_version data) st else st"
  let ?st2 = "case lm_usage m of None \<Rightarrow> ?st1
              | Some u \<Rightarrow> updateTokenUsage now k (Some u) ?st1"
  have 1: "stable_view ?st1 = stable_view st"
    using assms(1) Some by (simp add: names_model_def stable_view_updateModelInfo)
  have 2: "stable_view ?st2 = stable_view ?st1"
    by (simp add: stable_view_updateTokenUsage split: option.splits)
  have r: "related (kept True) st ?st2"
  proof -
    have "related (kept True) st ?st1" by (simp add: related_updateModelInfo)
    moreover have "related (kept True) ?st1 ?st2"
      by (simp add: related_updateTokenUsage split: option.splits)
    ultimately show ?thesis by (rule related_trans)
  qed
  have 3: "stable_view (handleAssistantMessage cfg now k data ts st) = stable_view ?st2"
  proof (cases "lm_content m")
    case (BlockContent bs)
    with assms(2) Some have "list_ex is_tool_use bs \<longrightarrow> exists_session st k"
      by (simp add: starts_tool_def)
    with r have "list_ex is_tool_use bs \<longrightarrow> exists_session ?st2 k"
      by (blast intro: exists_related)
    then have "stable_view (fold (handle_block cfg now k ts) bs ?st2) = stable_view ?st2"
      by (rule stable_view_fold_handle_block)
    with Some BlockContent show ?thesis by (simp add: handleAssistantMessage_def Let_def)
  qed (use Some in \<open>simp_all add: handleAssistantMessage_def Let_def\<close>)
  from 1 2 3 show ?thesis by simp
qed

lemma stable_view_handleToolResult:
  "stable_view (handleToolResult cfg now k data st) = stable_view st"
  by (simp add: handleToolResult_def stable_view_completeTool split: option.splits)

lemma stable_view_dispatch_type:
  assumes "touches data \<longrightarrow> exists_session st k"
    and "r_type data = Some ''assistant'' \<and> names_model data \<longrightarrow>
           has_field model st k \<and> (truthy (r_version data) \<longrightarrow> has_field version st k)"
  shows "stable_view (dispatch_type cfg now k data st) = stable_view st"
  using assms
  by (auto simp: dispatch_type_def touches_def stable_view_handleUserMessage
        stable_view_handleAssistantMessage stable_view_handleToolResult
        stable_view_completeSession stable_view_getOrCreateSession)

lemma settled_after_link_related:
  "related (kept l) st st' \<Longrightarrow> settled_after_link eff data st
     \<Longrightarrow> settled_after_link eff data st'"
  unfolding settled_after_link_def
  by (blast intro: has_cwd_related has_gitBranch_related has_model_related
        has_version_related exists_related)

lemma settled_related:
  "related (kept l) st st' \<Longrightarrow> settled data filePath st \<Longrightarrow> settled data filePath st'"
  unfolding settled_def
  by (auto split: option.splits intro: settled_after_link_related exists_related)

lemma stable_view_after_link:
  assumes "settled_after_link eff data st"
  shows "stable_view (after_link cfg now eff data st) = stable_view st"
proof -
  let ?st1 = "cwd_step now eff data st"
  let ?st2 = "branch_step now eff data ?st1"
  have r1: "related (kept True) st ?st1"
    by (simp add: cwd_step_def related_updateCwd)
  have r2: "related (kept True) ?st1 ?st2"
    by (simp add: branch_step_def related_updateGitBranch)
  from assms r1 have s1: "settled_after_link eff data ?st1"
    by (blast intro: settled_after_link_related)
  with r2 have s2: "settled_after_link eff data ?st2"
    by (blast intro: settled_after_link_related)
  have 1: "stable_view ?st1 = stable_view st"
    using assms by (simp add: cwd_step_def settled_after_link_def stable_view_updateCwd)
  have 2: "stable_view ?st2 = stable_view ?st1"
    using s1 by (simp add: branch_step_def settled_after_link_def stable_view_updateGitBranch)
  have 3: "stable_view (dispatch_type cfg now eff data ?st2) = stable_view ?st2"
    using s2 by (intro stable_view_dispatch_type) (simp_all add: settled_after_link_def)
  from 1 2 3 show ?thesis by (simp add: after_link_def)
qed

lemma links_effective:
  "links data filePath \<Longrightarrow> effectiveSessionId data filePath = Some eff
     \<Longrightarrow> \<exists>p. link_step now data filePath st = createSubAgent now eff p st"
  by (auto simp: links_def link_step_def effectiveSessionId_def split: option.splits)

lemma not_links: "\<not> links data filePath \<Longrightarrow> link_step now data filePath st = st"
  by (auto simp: links_def link_step_def split: option.splits)

lemma link_step_settled:
  assumes "effectiveSessionId data filePath = Some eff"
    and "links data filePath \<longrightarrow> exists_session st eff"
  shows "link_step now data filePath st = st"
proof (cases "links data filePath")
  case True
  from links_effective [OF True assms(1)] obtain p
    where "link_step now data filePath st = createSubAgent now eff p st" by blast
  with assms True show ?thesis by (simp add: createSubAgent_existing)
next
  case False
  then show ?thesis by (rule not_links)
qed

lemma stable_view_processMessage:
  assumes "settled data filePath (sessionManager w)"
  shows "stable_view (sessionManager (processMessage cfg now data filePath w))
           = stable_view (sessionManager w)"
proof (cases "effectiveSessionId data filePath")
  case None
  then show ?thesis by (simp add: sessionManager_processMessage)
next
  case (Some eff)
  show ?thesis
  proof (cases "eff = []")
    case True
    with Some show ?thesis by (simp add: sessionManager_processMessage)
  next
    case False
    with assms Some have l: "links data filePath \<longrightarrow> exists_session (sessionManager w) eff"
      and s: "settled_after_link eff data (sessionManager w)"
      by (simp_all add: settled_def)
    from Some l have "link_step now data filePath (sessionManager w) = sessionManager w"
      by (rule link_step_settled)
    with Some False s show ?thesis
      by (simp add: sessionManager_processMessage stable_view_after_link)
  qed
qed

lemma exists_handleUserMessage:
  "prompt_written data \<noteq> None \<Longrightarrow> exists_session (handleUserMessage cfg now k data st) k"
  by (auto simp: handleUserMessage_def prompt_written_def
        split: option.splits message_content.splits if_splits
        intro: exists_related [OF related_addMessage [where l = True]]
               exists_updateSessionPrompt)

lemma exists_fold_handle_block:
  "list_ex is_tool_use bs \<Longrightarrow> exists_session (fold (handle_block cfg now k ts) bs st) k"
proof (induction bs arbitrary: st)
  case Nil
  then show ?case by simp
next
  case (Cons b bs)
  show ?case
  proof (cases "list_ex is_tool_use bs")
    case True
    then show ?thesis by (simp add: Cons.IH)
  next
    case False
    with Cons.prems have "is_tool_use b" by simp
    then have "exists_session (handle_block cfg now k ts b st) k"
      by (cases b) (simp_all add: handle_block_def handleToolUse_def Let_def exists_startTool)
    then show ?thesis
      by (simp add: exists_related [OF related_fold_handle_block [where l = True]])
  qed
qed

lemma established_handleAssistantMessage:
  "names_model data \<Longrightarrow> has_field model (handleAssistantMessage cfg now k data ts st) k"
  "names_model data \<Longrightarrow> truthy (r_version data)
     \<Longrightarrow> has_field version (handleAssistantMessage cfg now k data ts st) k"
  "starts_tool data \<Longrightarrow> exists_session (handleAssistantMessage cfg now k data ts st) k"
proof -
  {
    assume nm: "names_model data"
    then obtain m where m: "r_message data = Some m" "truthy (lm_model m)"
      by (auto simp: names_model_def split: option.splits)
    let ?st1 = "updateModelInfo now k (lm_model m) (r_version data) st"
    let ?st2 = "case lm_usage m of None \<Rightarrow> ?st1
                | Some u \<Rightarrow> updateTokenUsage now k (Some u) ?st1"
    have r2: "related (kept True) ?st1 ?st2"
      by (simp add: related_updateTokenUsage split: option.splits)
    have r3: "related (kept True) ?st2 (handleAssistantMessage cfg now k data ts st)"
      using m
      by (simp add: handleAssistantMessage_def Let_def related_fold_handle_block
            split: message_content.splits)
    from r2 r3 have r: "related (kept True) ?st1 (handleAssistantMessage cfg now k data ts st)"
      by (rule related_trans)
    from m have "has_field model ?st1 k" by (simp add: has_updateModelInfo)
    with r show "has_field model (handleAssistantMessage cfg now k data ts st) k"
      by (rule has_model_related)
    {
      assume "truthy (r_version data)"
      with m have "has_field version ?st1 k" by (simp add: has_updateModelInfo)
      with r show "has_field version (handleAssistantMessage cfg now k data ts st) k"
        by (rule has_version_related)
    }
  }
  {
    assume "starts_tool data"
    then obtain m bs where m: "r_message data = Some m" "lm_content m = BlockContent bs"
      "list_ex is_tool_use bs"
      by (auto simp: starts_tool_def split: option.splits message_content.splits)
    then show "exists_session (handleAssistantMessage cfg now k data ts st) k"
      by (simp add: handleAssistantMessage_def Let_def exists_fold_handle_block)
  }
qed

lemma established_dispatch_type:
  "touches data \<Longrightarrow> exists_session (dispatch_type cfg now k data st) k"
  "r_type data = Some ''assistant'' \<Longrightarrow> names_model data
     \<Longrightarrow> has_field model (dispatch_type cfg now k data st) k"
  "r_type data = Some ''assistant'' \<Longrightarrow> names_model data \<Longrightarrow> truthy (r_version data)
     \<Longrightarrow> has_field version (dispatch_type cfg now k data st) k"
  by (auto simp: dispatch_type_def touches_def exists_handleUserMessage
        established_handleAssistantMessage exists_getOrCreateSession
        intro: has_field_exists [OF established_handleAssistantMessage(1)])

lemma established_after_link: "settled_after_link eff data (after_link cfg now eff data st)"
proof -
  let ?st1 = "cwd_step now eff data st"
  let ?st2 = "branch_step now eff data ?st1"
  let ?st3 = "dispatch_type cfg now eff data ?st2"
  have r2: "related (kept True) ?st1 ?st2"
    by (simp add: branch_step_def related_updateGitBranch)
  have r3: "related (kept True) ?st2 ?st3" by (rule related_dispatch_type)
  have c: "truthy (r_cwd data) \<longrightarrow> has_field cwd ?st3 eff"
  proof
    assume "truthy (r_cwd data)"
    then have "has_field cwd ?st1 eff" by (simp add: cwd_step_def has_updateCwd)
    with r2 have "has_field cwd ?st2 eff" by (rule has_cwd_related)
    with r3 show "has_field cwd ?st3 eff" by (rule has_cwd_related)
  qed
  have b: "truthy (r_gitBranch data) \<longrightarrow> has_field gitBranch ?st3 eff"
  proof
    assume "truthy (r_gitBranch data)"
    then have "has_field gitBranch ?st2 eff" by (simp add: branch_step_def has_updateGitBranch)
    with r3 show "has_field gitBranch ?st3 eff" by (rule has_gitBranch_related)
  qed
  from c b show ?thesis
    by (simp add: settled_after_link_def after_link_def established_dispatch_type)
qed

lemma established_processMessage:
  "settled data filePath (sessionManager (processMessage cfg now data filePath w))"
proof (cases "effectiveSessionId data filePath")
  case None
  then show ?thesis by (simp add: settled_def)
next
  case (Some eff)
  show ?thesis
  proof (cases "eff = []")
    case True
    with Some show ?thesis by (simp add: settled_def)
  next
    case False
    let ?st1 = "link_step now data filePath (sessionManager w)"
    have "links data filePath \<longrightarrow> exists_session ?st1 eff"
    proof
      assume "links data filePath"
      from links_effective [OF this Some] obtain p
        where "?st1 = createSubAgent now eff p (sessionManager w)" by blast
      then show "exists_session ?st1 eff" by (simp add: exists_createSubAgent)
    qed
    then have "links data filePath \<longrightarrow> exists_session (after_link cfg now eff data ?st1) eff"
      by (blast intro: exists_related [OF related_after_link [where l = True]])
    with Some False show ?thesis
      by (simp add: settled_def sessionManager_processMessage established_after_link)
  qed
qed

section \<open>Two passes over the lines of a file\<close>

lemma stored_prompt_notifyChange [simp]:
  "stored_prompt (notifyChange ev k st) = stored_prompt st"
  by (rule ext) (simp add: stored_prompt_def)

lemma stored_prompt_agentToSession [simp]:
  "stored_prompt (st\<lparr>agentToSession := m\<rparr>) = stored_prompt st"
  by (rule ext) (simp add: stored_prompt_def)

lemma stored_prompt_modify:
  "(\<And>s. prompt (f s) = prompt s) \<Longrightarrow> stored_prompt (modify k f st) = stored_prompt st"
  by (rule ext) (simp add: stored_prompt_def split: option.splits)

lemma stored_prompt_getOrCreateSession [simp]:
  "stored_prompt (getOrCreateSession now k ts st) = stored_prompt st"
  by (rule ext)
     (simp add: stored_prompt_def sessions_get_getOrCreateSession new_session_def
        split: option.splits)

lemma stored_prompt_updateCwd [simp]:
  "stored_prompt (updateCwd now k d st) = stored_prompt st"
  by (simp add: updateCwd_def Let_def stored_prompt_modify split: option.splits)

lemma stored_prompt_updateGitBranch [simp]:
  "stored_prompt (updateGitBranch now k d st) = stored_prompt st"
  by (simp add: updateGitBranch_def Let_def stored_prompt_modify split: option.splits)

lemma stored_prompt_updateModelInfo [simp]:
  "stored_prompt (updateModelInfo now k m v st) = stored_prompt st"
  by (simp add: updateModelInfo_def Let_def stored_prompt_modify)

lemma stored_prompt_updateTokenUsage [simp]:
  "stored_prompt (updateTokenUsage now k u st) = stored_prompt st"
  by (simp add: updateTokenUsage_def Let_def stored_prompt_modify split: option.splits)

lemma stored_prompt_addMessage [simp]:
  "stored_prompt (addMessage cfg now k role content ts st) = stored_prompt st"
  by (simp add: addMessage_def stored_prompt_modify split: option.splits)

lemma stored_prompt_linkSubAgent [simp]:
  "stored_prompt (linkSubAgent p a st) = stored_prompt st"
  by (simp add: linkSubAgent_def stored_prompt_modify split: option.splits)

lemma stored_prompt_createSubAgent [simp]:
  "stored_prompt (createSubAgent now a p st) = stored_prompt st"
  by (simp add: createSubAgent_def Let_def stored_prompt_modify split: option.splits)

lemma stored_prompt_completeTool [simp]:
  "stored_prompt (completeTool cfg now k n stat d st) = stored_prompt st"
  by (simp add: completeTool_def Let_def stored_prompt_modify split: option.splits)

lemma stored_prompt_complete_running [simp]:
  "stored_prompt (complete_running cfg now k st) = stored_prompt st"
  by (simp add: complete_running_def split: option.splits)

lemma stored_prompt_startTool [simp]:
  "stored_prompt (startTool cfg now k n d st) = stored_prompt st"
  by (simp add: startTool_def Let_def stored_prompt_modify)

lemma stored_prompt_completeSession [simp]:
  "stored_prompt (completeSession cfg now k st) = stored_prompt st"
  by (simp add: completeSession_def Let_def stored_prompt_modify split: option.splits)

lemma stored_prompt_updateSessionPrompt:
  "stored_prompt (updateSessionPrompt now k p st) = (stored_prompt st)(k \<mapsto> p)"
  by (rule ext)
     (simp add: updateSessionPrompt_def Let_def stored_prompt_def
        sessions_get_getOrCreateSession split: option.splits)

lemma stored_prompt_handleUserMessage:
  "stored_prompt (handleUserMessage cfg now k data st)
     = apply_prompt (map_option (Pair k) (prompt_written data)) (stored_prompt st)"
  by (simp add: handleUserMessage_def prompt_written_def apply_prompt_def
        stored_prompt_updateSessionPrompt split: option.splits message_content.splits)

lemma stored_prompt_handle_block [simp]:
  "stored_prompt (handle_block cfg now k ts b st) = stored_prompt st"
  by (simp add: handle_block_def handleToolUse_def Let_def
        split: content_block.splits option.splits)

lemma stored_prompt_fold_handle_block [simp]:
  "stored_prompt (fold (handle_block cfg now k ts) bs st) = stored_prompt st"
  by (induction bs arbitrary: st) simp_all

lemma stored_prompt_handleAssistantMessage [simp]:
  "stored_prompt (handleAssistantMessage cfg now k data ts st) = stored_prompt st"
  by (simp add: handleAssistantMessage_def Let_def
        split: option.splits message_content.splits)

lemma stored_prompt_handleToolResult [simp]:
  "stored_prompt (handleToolResult cfg now k data st) = stored_prompt st"
  by (simp add: handleToolResult_def split: option.splits)

lemma stored_prompt_dispatch_type:
  "stored_prompt (dispatch_type cfg now k data st)
     = (if r_type data = Some ''user''
        then apply_prompt (map_option (Pair k) (prompt_written data)) (stored_prompt st)
        else stored_prompt st)"
  by (simp add: dispatch_type_def stored_prompt_handleUserMessage)

lemma stored_prompt_link_step [simp]:
  "stored_prompt (link_step now data filePath st) = stored_prompt st"
  by (simp add: link_step_def split: option.splits)

lemma stored_prompt_after_link:
  "stored_prompt (after_link cfg now k data st)
     = (if r_type data = Some ''user''
        then apply_prompt (map_option (Pair k) (prompt_written data)) (stored_prompt st)
        else stored_prompt st)"
  by (simp add: after_link_def cwd_step_def branch_step_def stored_prompt_dispatch_type)

lemma stored_prompt_processMessage:
  "stored_prompt (sessionManager (processMessage cfg now data filePath w))
     = apply_prompt (prompt_of_record data filePath) (stored_prompt (sessionManager w))"
  by (auto simp: sessionManager_processMessage stored_prompt_after_link prompt_of_record_def
        apply_prompt_def split: option.splits)

lemma stored_prompt_process_line:
  "stored_prompt (sessionManager (process_line cfg parse now filePath line w))
     = apply_prompt (line_prompt parse filePath line) (stored_prompt (sessionManager w))"
  by (simp add: process_line_def line_prompt_def stored_prompt_processMessage apply_prompt_def
        split: option.splits)

lemma stored_prompt_fold_process_line:
  "stored_prompt (sessionManager (fold (process_line cfg parse now filePath) lines w))
     = fold (\<lambda>line. apply_prompt (line_prompt parse filePath line)) lines
         (stored_prompt (sessionManager w))"
  by (induction lines arbitrary: w) (simp_all add: stored_prompt_process_line)

lemma fold_apply_prompt_add:
  "fold (\<lambda>line. apply_prompt (u line)) lines (g ++ m)
     = g ++ fold (\<lambda>line. apply_prompt (u line)) lines m"
proof (induction lines arbitrary: m)
  case Nil
  show ?case by simp
next
  case (Cons line lines)
  have "apply_prompt (u line) (g ++ m) = g ++ apply_prompt (u line) m"
    by (simp add: apply_prompt_def split: option.splits)
  with Cons show ?case by simp
qed

lemma fold_apply_prompt_twice:
  "fold (\<lambda>line. apply_prompt (u line)) lines (fold (\<lambda>line. apply_prompt (u line)) lines g)
     = fold (\<lambda>line. apply_prompt (u line)) lines g"
proof -
  define M where "M = fold (\<lambda>line. apply_prompt (u line)) lines Map.empty"
  have 1: "fold (\<lambda>line. apply_prompt (u line)) lines h = h ++ M" for h
    unfolding M_def using fold_apply_prompt_add [of u lines h Map.empty] by simp
  have 2: "(g ++ M) ++ M = g ++ M"
    by (rule ext) (simp add: map_add_def split: option.splits)
  show ?thesis
    by (simp only: 1 2)
qed

lemma related_process_line:
  "related (kept False) (sessionManager w)
     (sessionManager (process_line cfg parse now filePath line w))"
  by (simp add: process_line_def related_processMessage split: option.splits)

lemma related_fold_process_line:
  "related (kept False) (sessionManager w)
     (sessionManager (fold (process_line cfg parse now filePath) lines w))"
proof (induction lines arbitrary: w)
  case Nil
  show ?case by simp
next
  case (Cons line lines)
  have "related (kept False) (sessionManager w)
          (sessionManager (process_line cfg parse now filePath line w))"
    by (rule related_process_line)
  with Cons [of "process_line cfg parse now filePath line w"] show ?case
    by (simp add: related_trans)
qed

lemma settled_line_related:
  "related (kept l) st st' \<Longrightarrow> settled_line parse filePath st line
     \<Longrightarrow> settled_line parse filePath st' line"
  by (auto simp: settled_line_def split: option.splits intro: settled_related)

lemma settled_line_process_line:
  "settled_line parse filePath
     (sessionManager (process_line cfg parse now filePath line w)) line"
  by (simp add: settled_line_def process_line_def established_processMessage
        split: option.splits)

lemma lines_settled_after_fold:
  "list_all
     (settled_line parse filePath
        (sessionManager (fold (process_line cfg parse now filePath) lines w))) lines"
proof (induction lines arbitrary: w)
  case Nil
  show ?case by simp
next
  case (Cons line lines)
  let ?w1 = "process_line cfg parse now filePath line w"
  have "settled_line parse filePath (sessionManager ?w1) line"
    by (rule settled_line_process_line)
  then have "settled_line parse filePath
               (sessionManager (fold (process_line cfg parse now filePath) lines ?w1)) line"
    by (rule settled_line_related [OF related_fold_process_line])
  with Cons [of ?w1] show ?case by simp
qed

lemma stable_view_process_line:
  "settled_line parse filePath (sessionManager w) line
     \<Longrightarrow> stable_view (sessionManager (process_line cfg parse now filePath line w))
         = stable_view (sessionManager w)"
  by (simp add: settled_line_def process_line_def stable_view_processMessage
        split: option.splits)

lemma stable_view_fold_settled:
  "list_all (settled_line parse filePath (sessionManager w)) lines
     \<Longrightarrow> stable_view (sessionManager (fold (process_line cfg parse now filePath) lines w))
         = stable_view (sessionManager w)"
proof (induction lines arbitrary: w)
  case Nil
  show ?case by simp
next
  case (Cons line lines)
  let ?w1 = "process_line cfg parse now filePath line w"
  from Cons.prems have h: "settled_line parse filePath (sessionManager w) line"
    and t: "list_all (settled_line parse filePath (sessionManager w)) lines"
    by simp_all
  from h have 1: "stable_view (sessionManager ?w1) = stable_view (sessionManager w)"
    by (rule stable_view_process_line)
  from t have "list_all (settled_line parse filePath (sessionManager ?w1)) lines"
    by (auto simp: list_all_iff
          intro: settled_line_related [OF related_process_line])
  then have "stable_view (sessionManager (fold (process_line cfg parse now filePath) lines ?w1))
               = stable_view (sessionManager ?w1)"
    by (rule Cons.IH)
  with 1 show ?case by simp
qed

lemma map_fst_stable_view: "map fst (stable_view st) = map fst (sessions st)"
  by (simp add: stable_view_def comp_def)

lemma map_of_view:
  "map_of (map (\<lambda>e. (fst e, g (snd e))) xs) k = map_option g (map_of xs k)"
  by (induction xs) auto

lemma map_of_stable_view: "map_of (stable_view st) k = map_option stable_part (sessions_get st k)"
  by (simp add: stable_view_def sessions_get_def map_of_view)

lemma replay_part_eq:
  assumes "stable_view st2 = stable_view st1" and "stored_prompt st2 = stored_prompt st1"
  shows "map_option replay_part (sessions_get st2 k) = map_option replay_part (sessions_get st1 k)"
proof -
  from assms(1) have v: "map_option stable_part (sessions_get st2 k)
                           = map_option stable_part (sessions_get st1 k)"
    by (simp add: map_of_stable_view [symmetric])
  from assms(2) have p: "stored_prompt st2 k = stored_prompt st1 k" by simp
  from v p show ?thesis
    by (cases "sessions_get st2 k"; cases "sessions_get st1 k")
       (simp_all add: replay_part_def stored_prompt_def)
qed

lemma replay_lines:
  assumes "sessionManager w2 = sessionManager (fold (process_line cfg parse now1 filePath) lines w)"
  shows "stable_view (sessionManager (fold (process_line cfg parse now2 filePath) lines w2))
           = stable_view (sessionManager (fold (process_line cfg parse now1 filePath) lines w))"
    and "stored_prompt (sessionManager (fold (process_line cfg parse now2 filePath) lines w2))
           = stored_prompt (sessionManager (fold (process_line cfg parse now1 filePath) lines w))"
proof -
  let ?w1 = "fold (process_line cfg parse now1 filePath) lines w"
  have "list_all (settled_line parse filePath (sessionManager ?w1)) lines"
    by (rule lines_settled_after_fold)
  with assms have "list_all (settled_line parse filePath (sessionManager w2)) lines" by simp
  then have "stable_view (sessionManager (fold (process_line cfg parse now2 filePath) lines w2))
               = stable_view (sessionManager w2)"
    by (rule stable_view_fold_settled)
  with assms show "stable_view (sessionManager (fold (process_line cfg parse now2 filePath) lines w2))
           = stable_view (sessionManager ?w1)" by simp
  show "stored_prompt (sessionManager (fold (process_line cfg parse now2 filePath) lines w2))
           = stored_prompt (sessionManager ?w1)"
    by (simp add: stored_prompt_fold_process_line assms fold_apply_prompt_twice)
qed

lemma replay_from_start:
  "stable_view (sessionManager (process_from_start cfg parse fs now2 filePath
                                  (process_from_start cfg parse fs now1 filePath w)))
     = stable_view (sessionManager (process_from_start cfg parse fs now1 filePath w))"
  "stored_prompt (sessionManager (process_from_start cfg parse fs now2 filePath
                                  (process_from_start cfg parse fs now1 filePath w)))
     = stored_prompt (sessionManager (process_from_start cfg parse fs now1 filePath w))"
proof -
  let ?goal = "stable_view (sessionManager (process_from_start cfg parse fs now2 filePath
                                  (process_from_start cfg parse fs now1 filePath w)))
     = stable_view (sessionManager (process_from_start cfg parse fs now1 filePath w))
   \<and> stored_prompt (sessionManager (process_from_start cfg parse fs now2 filePath
                                  (process_from_start cfg parse fs now1 filePath w)))
     = stored_prompt (sessionManager (process_from_start cfg parse fs now1 filePath w))"
  have ?goal
  proof (cases "statSync fs filePath")
    case None
    then show ?thesis
      by (simp add: process_from_start_def processNewLines_def processNewLines_try_def)
  next
    case (Some stats)
    show ?thesis
    proof (cases "size_bytes stats = 0")
      case True
      with Some show ?thesis
        by (simp add: process_from_start_def processNewLines_def processNewLines_try_def)
    next
      case False
      show ?thesis
      proof (cases "readFileSync fs filePath")
        case None
        with Some False show ?thesis
          by (simp add: process_from_start_def processNewLines_def processNewLines_try_def)
      next
        case (Some content)
        let ?lines = "nonblank_lines content"
        let ?wa = "w\<lparr>filePositions := (filePositions w)(filePath \<mapsto> size_bytes stats)\<rparr>"
        let ?w1 = "fold (process_line cfg parse now1 filePath) ?lines ?wa"
        let ?wb = "?w1\<lparr>filePositions := (filePositions ?w1)(filePath \<mapsto> size_bytes stats)\<rparr>"
        have p1: "process_from_start cfg parse fs now1 filePath w = ?w1"
          using \<open>statSync fs filePath = Some stats\<close> False Some
          by (simp add: process_from_start_def processNewLines_def processNewLines_try_def
                substring_from_def Let_def)
        have p2: "process_from_start cfg parse fs now2 filePath ?w1
                    = fold (process_line cfg parse now2 filePath) ?lines ?wb"
          using \<open>statSync fs filePath = Some stats\<close> False Some
          by (simp add: process_from_start_def processNewLines_def processNewLines_try_def
                substring_from_def Let_def)
        have "sessionManager ?wb = sessionManager ?w1" by simp
        from replay_lines [OF this, of now2] show ?thesis
          by (simp only: p1 p2)
      qed
    qed
  qed
  then show
    "stable_view (sessionManager (process_from_start cfg parse fs now2 filePath
                                  (process_from_start cfg parse fs now1 filePath w)))
     = stable_view (sessionManager (process_from_start cfg parse fs now1 filePath w))"
    "stored_prompt (sessionManager (process_from_start cfg parse fs now2 filePath
                                  (process_from_start cfg parse fs now1 filePath w)))
     = stored_prompt (sessionManager (process_from_start cfg parse fs now1 filePath w))"
    by simp_all
qed

section \<open>The total of the token counters\<close>

lemma tokens_ok_exec:
  "all_sessions tokens_ok st \<Longrightarrow> all_sessions tokens_ok (exec cfg (now, c) st)"
  by (cases c)
     (auto simp: tokens_ok_def new_session_def add_usage_def op_defs
        split: option.splits
        intro!: all_sessions_modify all_sessions_getOrCreateSession
                all_sessions_cleanupStaleSessions)

lemma tokens_ok_fold:
  "all_sessions tokens_ok st \<Longrightarrow> all_sessions tokens_ok (fold (exec cfg) trace st)"
proof (induction trace arbitrary: st)
  case Nil
  then show ?case by simp
next
  case (Cons a trace)
  obtain now c where "a = (now, c)" by (cases a)
  with Cons show ?case by (simp add: tokens_ok_exec)
qed

lemma tokens_ok_run: "all_sessions tokens_ok (run cfg trace)"
  by (simp add: run_def tokens_ok_fold)

text \<open>
  Claim C1. After every sequence of calls of the store's methods, every session of the
  store has \<open>tokens.total = tokens.input + tokens.output\<close>; in particular the session that
  \<open>updateTokenUsage\<close> has updated has it, whatever the store was before, and so has a session
  that \<open>getOrCreateSession\<close> has just created.
\<close>

theorem tokens_total_is_sum:
  "(sessions_get (run cfg trace) k = Some s \<longrightarrow>
      tok_total (tokens s) = tok_input (tokens s) + tok_output (tokens s))
   \<and> (sessions_get st1 k1 = Some s1 \<longrightarrow>
        (\<exists>s'. sessions_get (updateTokenUsage now1 k1 (Some u) st1) k1 = Some s'
             \<and> tok_total (tokens s') = tok_input (tokens s') + tok_output (tokens s')))
   \<and> (sessions_get st2 k2 = None \<longrightarrow>
        (\<exists>s'. sessions_get (getOrCreateSession now2 k2 ts st2) k2 = Some s'
             \<and> tok_total (tokens s') = tok_input (tokens s') + tok_output (tokens s')))"
proof (intro conjI impI)
  assume "sessions_get (run cfg trace) k = Some s"
  with tokens_ok_run [of cfg trace] have "tokens_ok s" by (rule all_sessions_get)
  then show "tok_total (tokens s) = tok_input (tokens s) + tok_output (tokens s)"
    by (simp add: tokens_ok_def)
next
  assume "sessions_get st1 k1 = Some s1"
  then show "\<exists>s'. sessions_get (updateTokenUsage now1 k1 (Some u) st1) k1 = Some s'
             \<and> tok_total (tokens s') = tok_input (tokens s') + tok_output (tokens s')"
    by (simp add: updateTokenUsage_def add_usage_def Let_def)
next
  assume "sessions_get st2 k2 = None"
  then show "\<exists>s'. sessions_get (getOrCreateSession now2 k2 ts st2) k2 = Some s'
             \<and> tok_total (tokens s') = tok_input (tokens s') + tok_output (tokens s')"
    by (simp add: sessions_get_getOrCreateSession new_session_def)
qed

text \<open>The theorem after a session was created and one usage recorded: the counters are 5 and
  7 and the total is 12; and at the two single calls.\<close>

theorem tokens_total_is_sum_witness:
  "map_option (tok_input \<circ> tokens) (sessions_get (run default_config usage_trace) ''s1'') = Some 5
   \<and> map_option (tok_output \<circ> tokens) (sessions_get (run default_config usage_trace) ''s1'') = Some 7
   \<and> map_option (tok_total \<circ> tokens) (sessions_get (run default_config usage_trace) ''s1'') = Some 12
   \<and> sessions_get fresh_store ''s1'' \<noteq> None
   \<and> (\<exists>s'. sessions_get (updateTokenUsage 2 ''s1'' (Some usage_5_7) fresh_store) ''s1'' = Some s'
          \<and> tok_total (tokens s') = tok_input (tokens s') + tok_output (tokens s'))
   \<and> sessions_get init_store ''s1'' = None
   \<and> (\<exists>s'. sessions_get (getOrCreateSession 1 ''s1'' None init_store) ''s1'' = Some s'
          \<and> tok_total (tokens s') = tok_input (tokens s') + tok_output (tokens s'))"
proof -
  obtain s where s: "sessions_get (run default_config usage_trace) ''s1'' = Some s"
    and i: "tok_input (tokens s) = 5" and o: "tok_output (tokens s) = 7"
    by (simp add: run_def usage_trace_def usage_5_7_def updateTokenUsage_def add_usage_def
          sm_defs)
  obtain s0 where s0: "sessions_get fresh_store ''s1'' = Some s0"
    by (simp add: fresh_store_def sm_defs)
  have n: "sessions_get init_store ''s1'' = None"
    by (simp add: sm_defs)
  from tokens_total_is_sum [of default_config usage_trace "''s1''" s fresh_store "''s1''" s0
         2 usage_5_7 init_store "''s1''" 1 None] s s0 n
  have "tok_total (tokens s) = tok_input (tokens s) + tok_output (tokens s)"
    and "\<exists>s'. sessions_get (updateTokenUsage 2 ''s1'' (Some usage_5_7) fresh_store) ''s1'' = Some s'
          \<and> tok_total (tokens s') = tok_input (tokens s') + tok_output (tokens s')"
    and "\<exists>s'. sessions_get (getOrCreateSession 1 ''s1'' None init_store) ''s1'' = Some s'
          \<and> tok_total (tokens s') = tok_input (tokens s') + tok_output (tokens s')"
    by blast+
  with s i o s0 n show ?thesis by simp
qed

section \<open>Completion, errors and the open tool\<close>

lemma list_all_map_entry_at:
  "list_all (\<lambda>e. P (snd e)) xs \<Longrightarrow> (\<And>s. map_of xs k = Some s \<Longrightarrow> P (f s))
     \<Longrightarrow> list_all (\<lambda>e. P (snd e)) (AList.map_entry k f xs)"
  by (induction xs) auto

lemma all_sessions_modify_at:
  "all_sessions P st \<Longrightarrow> (\<And>s. sessions_get st k = Some s \<Longrightarrow> P (f s))
     \<Longrightarrow> all_sessions P (modify k f st)"
  unfolding all_sessions_def modify_def sessions_get_def
  by (simp add: list_all_map_entry_at)

lemma tool_inv_completeTool:
  "all_sessions tool_inv st \<Longrightarrow> all_sessions tool_inv (completeTool cfg now k n stat d st)"
  by (auto simp: completeTool_def Let_def tool_inv_def split: option.splits
         intro!: all_sessions_modify)

lemma tool_inv_complete_running:
  "all_sessions tool_inv st \<Longrightarrow> all_sessions tool_inv (complete_running cfg now k st)"
  by (simp add: complete_running_def tool_inv_completeTool split: option.splits)

lemma complete_running_closes:
  assumes "all_sessions tool_inv st"
    and "sessions_get (complete_running cfg now k st) k = Some s"
  shows "currentTool s = None"
proof (cases "sessions_get st k")
  case None
  with assms(2) show ?thesis by (simp add: complete_running_def)
next
  case (Some s0)
  with assms(1) have inv: "tool_inv s0" by (blast intro: all_sessions_get)
  show ?thesis
  proof (cases "currentTool s0")
    case None
    with Some assms(2) show ?thesis by (simp add: complete_running_def)
  next
    case (Some t)
    with inv have "tool_status t = Running" by (simp add: tool_inv_def)
    with Some \<open>sessions_get st k = Some s0\<close> assms(2) show ?thesis
      by (auto simp: complete_running_def sessions_get_completeTool)
  qed
qed

lemma tool_inv_completeSession:
  assumes "all_sessions tool_inv st"
  shows "all_sessions tool_inv (completeSession cfg now k st)"
proof (cases "sessions_get st k")
  case None
  with assms show ?thesis by (simp add: completeSession_def)
next
  case (Some s0)
  let ?st1 = "complete_running cfg now k st"
  have inv1: "all_sessions tool_inv ?st1"
    using assms by (rule tool_inv_complete_running)
  have "all_sessions tool_inv
          (modify k (\<lambda>s. s\<lparr>status := Completed, lastActivity := now\<rparr>) ?st1)"
  proof (rule all_sessions_modify_at [OF inv1])
    fix s assume "sessions_get ?st1 k = Some s"
    with assms have "currentTool s = None" by (rule complete_running_closes)
    then show "tool_inv (s\<lparr>status := Completed, lastActivity := now\<rparr>)"
      by (simp add: tool_inv_def)
  qed
  with Some show ?thesis by (simp add: completeSession_def Let_def)
qed

lemma tool_inv_getOrCreateSession:
  "all_sessions tool_inv st \<Longrightarrow> all_sessions tool_inv (getOrCreateSession now k ts st)"
  by (rule all_sessions_getOrCreateSession)
     (simp_all add: tool_inv_def new_session_def split: option.splits)

lemma tool_inv_startTool:
  assumes "all_sessions tool_inv st"
  shows "all_sessions tool_inv (startTool cfg now k n d st)"
proof -
  have "all_sessions tool_inv (complete_running cfg now k (getOrCreateSession now k None st))"
    using assms by (simp add: tool_inv_complete_running tool_inv_getOrCreateSession)
  then show ?thesis
    by (auto simp: startTool_def Let_def tool_inv_def intro!: all_sessions_modify)
qed

lemma tool_inv_exec:
  "\<not> writes_completed c \<Longrightarrow> all_sessions tool_inv st
     \<Longrightarrow> all_sessions tool_inv (exec cfg (now, c) st)"
  by (cases c)
     (auto simp: tool_inv_def new_session_def tool_inv_completeSession tool_inv_completeTool
         tool_inv_startTool
         updateModelInfo_def updateCwd_def updateGitBranch_def updateTokenUsage_def
         addMessage_def createSubAgent_def linkSubAgent_def
         updateSessionStatus_def updateSessionPrompt_def updateTodos_def Let_def
        split: option.splits
        intro!: all_sessions_modify all_sessions_getOrCreateSession
                all_sessions_cleanupStaleSessions)


lemma tool_inv_fold:
  "no_direct_completed trace \<Longrightarrow> all_sessions tool_inv st
     \<Longrightarrow> all_sessions tool_inv (fold (exec cfg) trace st)"
proof (induction trace arbitrary: st)
  case Nil
  then show ?case by simp
next
  case (Cons a trace)
  obtain now c where "a = (now, c)" by (cases a)
  with Cons show ?case by (simp add: tool_inv_exec no_direct_completed_def)
qed

lemma tool_inv_run:
  "no_direct_completed trace \<Longrightarrow> all_sessions tool_inv (run cfg trace)"
  by (simp add: run_def tool_inv_fold)

text \<open>
  Claim C5, as the code has it. After every sequence of calls of the store's methods in
  which \<open>updateSessionStatus\<close> is not called with the status completed, a session whose status
  is completed has no \<open>currentTool\<close>: \<open>completeSession\<close> completes a running tool before it
  writes the status. A transition to the status error is a call of \<open>updateSessionStatus\<close>,
  which writes \<open>status\<close> and \<open>lastActivity\<close> and leaves \<open>currentTool\<close> as it is.
\<close>

theorem completed_has_no_tool:
  "(no_direct_completed trace \<and> sessions_get (run cfg trace) k = Some s
      \<and> status s = Completed \<longrightarrow> currentTool s = None)
   \<and> (sessions_get st1 k1 = Some s1 \<longrightarrow>
        sessions_get (updateSessionStatus now1 k1 Error st1) k1
          = Some (s1\<lparr>status := Error, lastActivity := now1\<rparr>))"
proof (intro conjI impI)
  assume a: "no_direct_completed trace \<and> sessions_get (run cfg trace) k = Some s
      \<and> status s = Completed"
  then have "all_sessions tool_inv (run cfg trace)" by (simp add: tool_inv_run)
  with a have "tool_inv s" by (blast intro: all_sessions_get)
  with a show "currentTool s = None"
    by (simp add: tool_inv_def split: option.splits)
next
  assume "sessions_get st1 k1 = Some s1"
  then show "sessions_get (updateSessionStatus now1 k1 Error st1) k1
          = Some (s1\<lparr>status := Error, lastActivity := now1\<rparr>)"
    by (simp add: updateSessionStatus_def)
qed

text \<open>The claim as stated fails for the status error: after a chunk of the stream that
  starts the tool \<open>Bash\<close> and a chunk of type error, the session is in error and \<open>Bash\<close> is
  still its open tool.\<close>

theorem error_keeps_tool_counterexample:
  "map_option status
     (sessions_get (parseStreamChunk default_config 2 error_chunk
                      (parseStreamChunk default_config 1 tool_chunk init_store)) ''s1'')
     = Some Error
   \<and> map_option (map_option tool_name \<circ> currentTool)
     (sessions_get (parseStreamChunk default_config 2 error_chunk
                      (parseStreamChunk default_config 1 tool_chunk init_store)) ''s1'')
     = Some (Some ''Bash'')"
  by (simp add: parseStreamChunk_def tool_chunk_def error_chunk_def chunk_session_id_def
        stream_block_def handleToolUse_stream_def extractToolDetails_stream_def
        empty_input_def no_details_def truncate_str_def sm_defs)

text \<open>The theorem after a tool was started and the session completed: the status is
  completed and no tool is open; and at the store with the tool open, where the status
  error leaves the tool open.\<close>

theorem completed_has_no_tool_witness:
  "no_direct_completed tool_then_completed_trace
   \<and> map_option status (sessions_get (run default_config tool_then_completed_trace) ''s1'')
       = Some Completed
   \<and> map_option currentTool (sessions_get (run default_config tool_then_completed_trace) ''s1'')
       = Some None
   \<and> map_option (map_option tool_name \<circ> currentTool)
        (sessions_get (run default_config tool_trace) ''s1'') = Some (Some ''Bash'')
   \<and> map_option (map_option tool_name \<circ> currentTool)
        (sessions_get (updateSessionStatus 2 ''s1'' Error (run default_config tool_trace)) ''s1'')
       = Some (Some ''Bash'')
   \<and> map_option status
        (sessions_get (updateSessionStatus 2 ''s1'' Error (run default_config tool_trace)) ''s1'')
       = Some Error"
proof -
  have n: "no_direct_completed tool_then_completed_trace"
    by (simp add: no_direct_completed_def tool_then_completed_trace_def tool_trace_def)
  obtain s where s: "sessions_get (run default_config tool_then_completed_trace) ''s1'' = Some s"
    and c: "status s = Completed"
    by (simp add: run_def tool_then_completed_trace_def tool_trace_def no_details_def
          no_completion_details_def sm_defs)
  obtain s1 where s1: "sessions_get (run default_config tool_trace) ''s1'' = Some s1"
    and t1: "map_option tool_name (currentTool s1) = Some ''Bash''"
    by (simp add: run_def tool_trace_def no_details_def sm_defs)
  from completed_has_no_tool
         [of tool_then_completed_trace default_config "''s1''" s
            "run default_config tool_trace" "''s1''" s1 2] n s c s1
  have "currentTool s = None"
    and "sessions_get (updateSessionStatus 2 ''s1'' Error (run default_config tool_trace)) ''s1''
          = Some (s1\<lparr>status := Error, lastActivity := 2\<rparr>)"
    by simp_all
  with n s c s1 t1 show ?thesis by simp
qed

section \<open>The caps of the tool history and of the messages\<close>

lemma caps_ok_exec:
  assumes "0 < MAX_TOOL_HISTORY cfg" and "0 < MAX_MESSAGES cfg"
  shows "all_sessions (caps_ok cfg) st \<Longrightarrow> all_sessions (caps_ok cfg) (exec cfg (now, c) st)"
  using assms
  by (cases c)
     (auto simp: caps_ok_def new_session_def length_push_message length_unshift_history op_defs
        split: option.splits
        intro!: all_sessions_modify all_sessions_getOrCreateSession
                all_sessions_cleanupStaleSessions)

lemma caps_ok_fold:
  assumes "0 < MAX_TOOL_HISTORY cfg" and "0 < MAX_MESSAGES cfg"
  shows "all_sessions (caps_ok cfg) st \<Longrightarrow> all_sessions (caps_ok cfg) (fold (exec cfg) trace st)"
proof (induction trace arbitrary: st)
  case Nil
  then show ?case by simp
next
  case (Cons a trace)
  obtain now c where "a = (now, c)" by (cases a)
  with Cons assms show ?case by (simp add: caps_ok_exec)
qed

lemma caps_ok_run:
  "0 < MAX_TOOL_HISTORY cfg \<Longrightarrow> 0 < MAX_MESSAGES cfg \<Longrightarrow> all_sessions (caps_ok cfg) (run cfg trace)"
  by (simp add: run_def caps_ok_fold)

text \<open>
  Claim C6, as the code has it. With the two caps configured as positive numbers (an unset
  or zero value is replaced by the default when the configuration is loaded, a negative
  one is kept): after every sequence of calls of the store's
  methods, no session has more entries in \<open>toolHistory\<close> than \<open>MAX_TOOL_HISTORY\<close> nor more
  messages than \<open>MAX_MESSAGES\<close>. When \<open>completeTool\<close> adds to a history that is at its cap, the
  new entry comes first and the last, oldest entry is dropped; when \<open>addMessage\<close> appends to
  messages that are at their cap, the new message comes last and the first, oldest message
  is dropped.
\<close>

theorem history_and_messages_capped:
  "(0 < MAX_TOOL_HISTORY cfg \<and> 0 < MAX_MESSAGES cfg
      \<and> sessions_get (run cfg trace) k = Some s \<longrightarrow>
        int (length (toolHistory s)) \<le> MAX_TOOL_HISTORY cfg
        \<and> int (length (messages s)) \<le> MAX_MESSAGES cfg)
   \<and> (0 < MAX_TOOL_HISTORY cfg \<and> sessions_get st1 k1 = Some s1 \<and> currentTool s1 = Some t
        \<and> int (length (toolHistory s1)) = MAX_TOOL_HISTORY cfg \<longrightarrow>
        map_option toolHistory
            (sessions_get (completeTool cfg now1 k1 toolName stat details st1) k1)
          = Some (\<lparr> hist_name = toolName, hist_duration = now1 - tool_startTime t,
                     hist_status = stat, hist_completedAt = now1, hist_details = details \<rparr>
                   # butlast (toolHistory s1)))
   \<and> (0 < MAX_MESSAGES cfg \<and> sessions_get st2 k2 = Some s2 \<and> content \<noteq> []
        \<and> \<not> is_duplicate (messages s2) role content
        \<and> int (length (messages s2)) = MAX_MESSAGES cfg \<longrightarrow>
        map_option messages
            (sessions_get (addMessage cfg now2 k2 role content timestamp st2) k2)
          = Some (tl (messages s2) @ [new_message now2 role content timestamp]))"
proof (intro conjI impI)
  assume a: "0 < MAX_TOOL_HISTORY cfg \<and> 0 < MAX_MESSAGES cfg
      \<and> sessions_get (run cfg trace) k = Some s"
  then have "all_sessions (caps_ok cfg) (run cfg trace)" by (simp add: caps_ok_run)
  with a have "caps_ok cfg s" by (blast intro: all_sessions_get)
  then show "int (length (toolHistory s)) \<le> MAX_TOOL_HISTORY cfg"
    and "int (length (messages s)) \<le> MAX_MESSAGES cfg"
    by (simp_all add: caps_ok_def)
next
  assume "0 < MAX_TOOL_HISTORY cfg \<and> sessions_get st1 k1 = Some s1 \<and> currentTool s1 = Some t
        \<and> int (length (toolHistory s1)) = MAX_TOOL_HISTORY cfg"
  then show "map_option toolHistory
            (sessions_get (completeTool cfg now1 k1 toolName stat details st1) k1)
          = Some (\<lparr> hist_name = toolName, hist_duration = now1 - tool_startTime t,
                     hist_status = stat, hist_completedAt = now1, hist_details = details \<rparr>
                   # butlast (toolHistory s1))"
    by (simp add: sessions_get_completeTool unshift_history_evicts)
next
  assume "0 < MAX_MESSAGES cfg \<and> sessions_get st2 k2 = Some s2 \<and> content \<noteq> []
        \<and> \<not> is_duplicate (messages s2) role content
        \<and> int (length (messages s2)) = MAX_MESSAGES cfg"
  then show "map_option messages
            (sessions_get (addMessage cfg now2 k2 role content timestamp st2) k2)
          = Some (tl (messages s2) @ [new_message now2 role content timestamp])"
    by (simp add: addMessage_def push_message_evicts)
qed


text \<open>The claim as stated fails for a cap that is configured negative: with both caps
  loaded as -1, a session that was created and sent one message has no tool history and,
  the message being trimmed away by \<open>slice(1)\<close>, no message, and 0 exceeds -1.\<close>

theorem negative_cap_counterexample:
  "MAX_TOOL_HISTORY negative_config = - 1
   \<and> MAX_MESSAGES negative_config = - 1
   \<and> map_option (length \<circ> toolHistory)
        (sessions_get (run negative_config message_trace) ''s1'') = Some 0
   \<and> map_option (length \<circ> messages)
        (sessions_get (run negative_config message_trace) ''s1'') = Some 0
   \<and> \<not> int 0 \<le> MAX_TOOL_HISTORY negative_config
   \<and> \<not> int 0 \<le> MAX_MESSAGES negative_config"
  by (simp add: negative_config_def message_trace_def run_def addMessage_def is_duplicate_def
        truncate_str_def sm_defs)

text \<open>The theorem with both caps at 2, at a session whose history is \<open>Edit, Read\<close> with
  \<open>Bash\<close> running and whose messages are \<open>one, two\<close>: completing \<open>Bash\<close> drops \<open>Read\<close>, a
  third message drops \<open>one\<close>.\<close>

theorem history_and_messages_capped_witness:
  "0 < MAX_TOOL_HISTORY small_config \<and> 0 < MAX_MESSAGES small_config
   \<and> map_option (map hist_name \<circ> toolHistory) (sessions_get (run small_config full_trace) ''s1'')
       = Some [''Edit'', ''Read'']
   \<and> map_option (map msg_content \<circ> messages) (sessions_get (run small_config full_trace) ''s1'')
       = Some [''one'', ''two'']
   \<and> map_option (map hist_name \<circ> toolHistory)
         (sessions_get (completeTool small_config 6 ''s1'' ''Bash'' ToolCompleted
                          no_completion_details (run small_config full_trace)) ''s1'')
       = Some [''Bash'', ''Edit'']
   \<and> map_option (map msg_content \<circ> messages)
         (sessions_get (addMessage small_config 6 ''s1'' ''user'' ''three'' None
                          (run small_config full_trace)) ''s1'')
       = Some [''two'', ''three'']"
proof -
  have c: "MAX_TOOL_HISTORY small_config = 2" "MAX_MESSAGES small_config = 2"
    by (simp_all add: small_config_def sm_defs)
  obtain s t where s: "sessions_get (run small_config full_trace) ''s1'' = Some s"
    and h: "map hist_name (toolHistory s) = [''Edit'', ''Read'']"
    and m: "map msg_content (messages s) = [''one'', ''two'']"
    and t: "currentTool s = Some t"
    by (simp add: run_def full_trace_def small_config_def sm_defs no_details_def
          no_completion_details_def addMessage_def is_duplicate_def truncate_str_def
          substring_to_def)
  from h have lh: "length (toolHistory s) = 2"
    by (metis length_map length_Cons list.size(3) numeral_2_eq_2)
  from m have lm: "length (messages s) = 2"
    by (metis length_map length_Cons list.size(3) numeral_2_eq_2)
  from lm have ne: "messages s \<noteq> []" by auto
  from m ne have "msg_content (last (messages s)) = ''two''"
    by (metis last_map last.simps list.distinct(1))
  with ne have nd: "\<not> is_duplicate (messages s) ''user'' ''three''"
    by (cases "messages s") (simp_all add: is_duplicate_def)
  from history_and_messages_capped
         [of small_config full_trace "''s1''" s "run small_config full_trace" "''s1''" s t
            6 "''Bash''" ToolCompleted no_completion_details
            "run small_config full_trace" "''s1''" s "''three''" "''user''" 6 None]
       c s t lh lm nd
  have le: "int (length (toolHistory s)) \<le> MAX_TOOL_HISTORY small_config"
    and th: "map_option toolHistory
               (sessions_get (completeTool small_config 6 ''s1'' ''Bash'' ToolCompleted
                                no_completion_details (run small_config full_trace)) ''s1'')
             = Some (\<lparr> hist_name = ''Bash'', hist_duration = 6 - tool_startTime t,
                        hist_status = ToolCompleted, hist_completedAt = 6,
                        hist_details = no_completion_details \<rparr> # butlast (toolHistory s))"
    and ms: "map_option messages
               (sessions_get (addMessage small_config 6 ''s1'' ''user'' ''three'' None
                                (run small_config full_trace)) ''s1'')
             = Some (tl (messages s) @ [new_message 6 ''user'' ''three'' None])"
    by simp_all
  have b: "map hist_name (butlast (toolHistory s)) = [''Edit'']"
    using h by (simp add: map_butlast)
  have tl: "map msg_content (tl (messages s)) = [''two'']"
    using m by (simp add: map_tl)
  have nm: "msg_content (new_message 6 ''user'' ''three'' None) = ''three''"
    by (simp add: new_message_def truncate_str_def)
  from th ms b tl nm c s h m show ?thesis
    by (auto simp: map_option_case split: option.splits)
qed

section \<open>Replaying a file\<close>

lemma replay_lines_example: "nonblank_lines replay_content = [''R'', ''A'', ''U'', ''T'']"
  by (simp add: nonblank_lines_def replay_content_def trim_truthy_def is_space_def)

lemma replay_length_example: "length replay_content = 7"
  by (simp add: replay_content_def)

lemma parse_opus_example: "parseModelName (Some ''claude-opus-4'') = Some ''Opus 4.5''"
  by (simp add: parseModelName_def toLowerCase_def lower_char_def)

named_theorems replay_defs

lemmas [replay_defs] = process_from_start_def processNewLines_def
  processNewLines_try_def replay_fs_def file_with_def substring_from_def
  process_line_def replay_parse_def record_of_def opus_usage_message_def
  bash_message_def question_message_def usage_5_7_def
  trim_truthy_def is_space_def substring_to_def truncate_str_def
  extractToolDetails_def empty_input_def no_details_def no_completion_details_def
  MODEL_PRICING_def

text \<open>
  Claim C2, as the code has it. When a file is read from its start twice, the store after
  the second pass holds the same sessions in the same order as after the first pass, and
  every session has the same \<open>id\<close>, \<open>startTime\<close>, \<open>model\<close>, \<open>modelShort\<close>, \<open>version\<close>, \<open>cwd\<close>,
  \<open>gitBranch\<close>, \<open>parentSessionId\<close>, \<open>agentId\<close>, \<open>isSubAgent\<close>, \<open>subAgents\<close>, \<open>todos\<close> and \<open>prompt\<close>
  as after the first pass, whatever the store was before and whatever the times of the two
  passes are. The other fields are written again by the second pass.
\<close>

theorem replay_keeps_stable_fields:
  "map fst (sessions (sessionManager
       (process_from_start cfg parse fs now2 filePath
          (process_from_start cfg parse fs now1 filePath w))))
     = map fst (sessions (sessionManager (process_from_start cfg parse fs now1 filePath w)))
   \<and> map_option replay_part
       (sessions_get (sessionManager
          (process_from_start cfg parse fs now2 filePath
             (process_from_start cfg parse fs now1 filePath w))) k)
     = map_option replay_part
         (sessions_get (sessionManager (process_from_start cfg parse fs now1 filePath w)) k)"
proof
  show "map fst (sessions (sessionManager
       (process_from_start cfg parse fs now2 filePath
          (process_from_start cfg parse fs now1 filePath w))))
     = map fst (sessions (sessionManager (process_from_start cfg parse fs now1 filePath w)))"
    using replay_from_start(1) [of cfg parse fs now2 filePath now1 w]
    by (metis map_fst_stable_view)
  show "map_option replay_part
       (sessions_get (sessionManager
          (process_from_start cfg parse fs now2 filePath
             (process_from_start cfg parse fs now1 filePath w))) k)
     = map_option replay_part
         (sessions_get (sessionManager (process_from_start cfg parse fs now1 filePath w)) k)"
    by (rule replay_part_eq) (rule replay_from_start)+
qed

text \<open>The claim as stated fails in each of the fields \<open>status\<close>, \<open>tokens\<close>, \<open>estimatedCost\<close>,
  \<open>messages\<close>, \<open>toolHistory\<close> and \<open>currentTool\<close>: in the example file the second pass completes the session \<open>s1\<close> that the first pass left active, doubles
  its tokens and its cost, appends its two messages again, and for \<open>s2\<close> it moves the
  running tool to the history and starts it anew.\<close>

theorem replay_changes_counters_counterexample:
  "map_option status (sessions_get (sessionManager first_pass) ''s1'') = Some Active
   \<and> map_option status (sessions_get (sessionManager second_pass) ''s1'') = Some Completed
   \<and> map_option (tok_input \<circ> tokens) (sessions_get (sessionManager first_pass) ''s1'') = Some 5
   \<and> map_option (tok_input \<circ> tokens) (sessions_get (sessionManager second_pass) ''s1'') = Some 10
   \<and> map_option estimatedCost (sessions_get (sessionManager first_pass) ''s1'') = Some (3 / 5000)
   \<and> map_option estimatedCost (sessions_get (sessionManager second_pass) ''s1'') = Some (3 / 2500)
   \<and> map_option (length \<circ> messages) (sessions_get (sessionManager first_pass) ''s1'') = Some 2
   \<and> map_option (length \<circ> messages) (sessions_get (sessionManager second_pass) ''s1'') = Some 4
   \<and> map_option (length \<circ> toolHistory) (sessions_get (sessionManager first_pass) ''s2'') = Some 0
   \<and> map_option (length \<circ> toolHistory) (sessions_get (sessionManager second_pass) ''s2'') = Some 1
   \<and> map_option (map_option tool_startTime \<circ> currentTool)
         (sessions_get (sessionManager first_pass) ''s2'') = Some (Some 10)
   \<and> map_option (map_option tool_startTime \<circ> currentTool)
         (sessions_get (sessionManager second_pass) ''s2'') = Some (Some 20)"
  by (simp add: second_pass_def first_pass_def replay_lines_example replay_length_example
        parse_opus_example replay_defs pm_defs sm_defs)

text \<open>The theorem at the example file: after the second pass the sessions are \<open>s1\<close> and
  \<open>s2\<close>, and \<open>s1\<close> has the model and the prompt that the first pass gave it.\<close>

theorem replay_keeps_stable_fields_witness:
  "map fst (sessions (sessionManager second_pass)) = [''s1'', ''s2'']
   \<and> map_option replay_part (sessions_get (sessionManager second_pass) ''s1'')
       = map_option replay_part (sessions_get (sessionManager first_pass) ''s1'')
   \<and> map_option model (sessions_get (sessionManager second_pass) ''s1'')
       = Some (Some ''claude-opus-4'')
   \<and> map_option prompt (sessions_get (sessionManager second_pass) ''s1'') = Some (Some ''why'')"
proof -
  have k1: "map fst (sessions (sessionManager first_pass)) = [''s1'', ''s2'']"
    by (simp add: first_pass_def replay_lines_example replay_length_example
          parse_opus_example replay_defs pm_defs sm_defs)
  obtain s where s: "sessions_get (sessionManager first_pass) ''s1'' = Some s"
    and m: "model s = Some ''claude-opus-4''" and p: "prompt s = Some ''why''"
    by (simp add: first_pass_def replay_lines_example replay_length_example
          parse_opus_example replay_defs pm_defs sm_defs)
  from replay_keeps_stable_fields
         [of default_config replay_parse replay_fs 20 "''/p/s1.jsonl''" 10 init_watcher "''s1''"]
  have k2: "map fst (sessions (sessionManager second_pass))
              = map fst (sessions (sessionManager first_pass))"
    and r: "map_option replay_part (sessions_get (sessionManager second_pass) ''s1'')
              = map_option replay_part (sessions_get (sessionManager first_pass) ''s1'')"
    by (simp_all add: second_pass_def first_pass_def)
  from r s obtain s2 where s2: "sessions_get (sessionManager second_pass) ''s1'' = Some s2"
    and e: "replay_part s2 = replay_part s"
    by (cases "sessions_get (sessionManager second_pass) ''s1''") simp_all
  from e m p have "model s2 = Some ''claude-opus-4''" "prompt s2 = Some ''why''"
    by (simp_all add: replay_part_def stable_part_def)
  with k1 k2 r s2 show ?thesis by simp
qed


section \<open>Registering a sub-agent\<close>

lemma createSubAgent_new:
  assumes "sessions_get st A = None" and "sessions_get st P = Some p"
  shows "\<exists>a. sessions_get (createSubAgent now A P st) A = Some a
             \<and> linkage a = (Some P, Some A, True, [])"
    and "\<exists>p1. sessions_get (createSubAgent now A P st) P = Some p1
             \<and> subAgents p1 = (if A \<in> set (subAgents p) then subAgents p
                                else subAgents p @ [A])"
proof -
  from assms have ne: "A \<noteq> P" by auto
  with assms show "\<exists>a. sessions_get (createSubAgent now A P st) A = Some a
             \<and> linkage a = (Some P, Some A, True, [])"
    by (simp add: createSubAgent_def linkSubAgent_def Let_def sessions_get_getOrCreateSession
          linkage_def new_session_def)
  from ne assms show "\<exists>p1. sessions_get (createSubAgent now A P st) P = Some p1
             \<and> subAgents p1 = (if A \<in> set (subAgents p) then subAgents p
                                else subAgents p @ [A])"
    by (simp add: createSubAgent_def linkSubAgent_def Let_def sessions_get_getOrCreateSession)
qed

lemma count_after_link:
  assumes "count_list xs A \<le> 1"
  shows "count_list (if A \<in> set xs then xs else xs @ [A]) A = 1"
proof (cases "A \<in> set xs")
  case True
  then have "count_list xs A \<noteq> 0" by (simp add: count_list_0_iff)
  with assms True show ?thesis by simp
next
  case False
  then have "count_list xs A = 0" by (simp add: count_list_0_iff)
  with False show ?thesis by simp
qed

text \<open>
  Claim C3, as the code has it. A record with \<open>sessionId\<close> \<open>P\<close> and \<open>agentId\<close> \<open>A\<close>, both not
  empty and different, is processed in a store that holds the session \<open>P\<close>, with \<open>A\<close> at most
  once among its \<open>subAgents\<close>, and holds no session \<open>A\<close>. Then the session \<open>A\<close> is created with
  \<open>parentSessionId\<close> \<open>P\<close>, \<open>agentId\<close> \<open>A\<close> and \<open>isSubAgent\<close> true, and the \<open>subAgents\<close> of \<open>P\<close> hold \<open>A\<close>
  exactly once. Processing the same record again, at any time, leaves the linkage fields
  (\<open>parentSessionId\<close>, \<open>agentId\<close>, \<open>isSubAgent\<close>, \<open>subAgents\<close>) of both sessions as they are.
\<close>

theorem sub_agent_registered_once:
  assumes "r_sessionId data = Some P" and "r_agentId data = Some A"
    and "A \<noteq> P" and "A \<noteq> []" and "P \<noteq> []"
    and "sessions_get (sessionManager w) P = Some p" and "count_list (subAgents p) A \<le> 1"
    and "sessions_get (sessionManager w) A = None"
  shows "\<exists>a p1 a2 p2.
      sessions_get (sessionManager (processMessage cfg now data filePath w)) A = Some a
    \<and> parentSessionId a = Some P \<and> isSubAgent a \<and> agentId a = Some A
    \<and> sessions_get (sessionManager (processMessage cfg now data filePath w)) P = Some p1
    \<and> count_list (subAgents p1) A = 1
    \<and> sessions_get (sessionManager (processMessage cfg now' data filePath
                                      (processMessage cfg now data filePath w))) A = Some a2
    \<and> linkage a2 = linkage a
    \<and> sessions_get (sessionManager (processMessage cfg now' data filePath
                                      (processMessage cfg now data filePath w))) P = Some p2
    \<and> linkage p2 = linkage p1"
proof -
  let ?st = "sessionManager w"
  let ?w1 = "processMessage cfg now data filePath w"
  let ?w2 = "processMessage cfg now' data filePath ?w1"
  from assms have sub: "isSubAgentRecord data filePath"
    by (simp add: isSubAgentRecord_def truthy_def)
  with assms have eff: "effectiveSessionId data filePath = Some A"
    by (simp add: effectiveSessionId_def)
  from assms sub have link: "\<And>t st. link_step t data filePath st = createSubAgent t A P st"
    by (simp add: link_step_def)
  let ?l1 = "createSubAgent now A P ?st"
  from eff assms link have st1: "sessionManager ?w1 = after_link cfg now A data ?l1"
    by (simp add: sessionManager_processMessage)
  from createSubAgent_new [OF assms(8) assms(6)] obtain a0 p0
    where a0: "sessions_get ?l1 A = Some a0" "linkage a0 = (Some P, Some A, True, [])"
      and p0: "sessions_get ?l1 P = Some p0"
        "subAgents p0 = (if A \<in> set (subAgents p) then subAgents p else subAgents p @ [A])"
    by blast
  have r1: "related (kept True) ?l1 (sessionManager ?w1)"
    unfolding st1 by (rule related_after_link)
  from relatedD [OF r1 a0(1)] obtain a
    where a: "sessions_get (sessionManager ?w1) A = Some a" "linkage a = linkage a0"
    by (auto simp: kept_def)
  from relatedD [OF r1 p0(1)] obtain p1
    where p1: "sessions_get (sessionManager ?w1) P = Some p1" "linkage p1 = linkage p0"
    by (auto simp: kept_def)
  from a have same: "createSubAgent now' A P (sessionManager ?w1) = sessionManager ?w1"
    by (simp add: createSubAgent_def)
  from eff assms link same
  have st2: "sessionManager ?w2 = after_link cfg now' A data (sessionManager ?w1)"
    by (simp add: sessionManager_processMessage)
  have r2: "related (kept True) (sessionManager ?w1) (sessionManager ?w2)"
    unfolding st2 by (rule related_after_link)
  from relatedD [OF r2 a(1)] obtain a2
    where a2: "sessions_get (sessionManager ?w2) A = Some a2" "linkage a2 = linkage a"
    by (auto simp: kept_def)
  from relatedD [OF r2 p1(1)] obtain p2
    where p2: "sessions_get (sessionManager ?w2) P = Some p2" "linkage p2 = linkage p1"
    by (auto simp: kept_def)
  from a a0 have la: "parentSessionId a = Some P" "isSubAgent a" "agentId a = Some A"
    by (simp_all add: linkage_def)
  from p1 p0 have "subAgents p1 = (if A \<in> set (subAgents p) then subAgents p
                                   else subAgents p @ [A])"
    by (simp add: linkage_def)
  with assms(7) have c: "count_list (subAgents p1) A = 1"
    by (simp only: count_after_link)
  from a la p1 c a2 p2 show ?thesis by blast
qed


text \<open>The claim as stated fails in two ways. In a store without the session \<open>P\<close> the record
  creates \<open>A\<close> with parent \<open>P\<close> but there is no session \<open>P\<close> to hold the link
  (\<open>linkSubAgent\<close> returns when the parent is not in the store). And the second processing
  of the record does change the store: the tokens of \<open>A\<close> go from 5 to 10.\<close>

theorem sub_agent_without_parent_counterexample:
  "sessions_get
     (sessionManager (processMessage default_config 1 sub_record ''/p/agent-A.jsonl'' init_watcher))
     ''P'' = None
   \<and> map_option parentSessionId
       (sessions_get
          (sessionManager
             (processMessage default_config 1 sub_record ''/p/agent-A.jsonl'' init_watcher))
          ''A'') = Some (Some ''P'')
   \<and> map_option (tok_input \<circ> tokens)
       (sessions_get
          (sessionManager
             (processMessage default_config 2 sub_record ''/p/agent-A.jsonl'' parent_watcher))
          ''A'') = Some 5
   \<and> map_option (tok_input \<circ> tokens)
       (sessions_get
          (sessionManager
             (processMessage default_config 3 sub_record ''/p/agent-A.jsonl''
                (processMessage default_config 2 sub_record ''/p/agent-A.jsonl'' parent_watcher)))
          ''A'') = Some 10"
  by (simp add: sub_record_def parent_record_def parent_watcher_def usage_5_7_def pm_defs sm_defs)

text \<open>The theorem at the watcher that holds \<open>P\<close>, for the record of the sub-agent \<open>A\<close>.\<close>

theorem sub_agent_registered_once_witness:
  "map_option subAgents (sessions_get (sessionManager parent_watcher) ''P'') = Some []
   \<and> sessions_get (sessionManager parent_watcher) ''A'' = None
   \<and> (\<exists>a p1 a2 p2.
        sessions_get
          (sessionManager
             (processMessage default_config 2 sub_record ''/p/agent-A.jsonl'' parent_watcher))
          ''A'' = Some a
      \<and> parentSessionId a = Some ''P'' \<and> isSubAgent a \<and> agentId a = Some ''A''
      \<and> sessions_get
          (sessionManager
             (processMessage default_config 2 sub_record ''/p/agent-A.jsonl'' parent_watcher))
          ''P'' = Some p1
      \<and> count_list (subAgents p1) ''A'' = 1
      \<and> sessions_get
          (sessionManager
             (processMessage default_config 3 sub_record ''/p/agent-A.jsonl''
                (processMessage default_config 2 sub_record ''/p/agent-A.jsonl'' parent_watcher)))
          ''A'' = Some a2
      \<and> linkage a2 = linkage a
      \<and> sessions_get
          (sessionManager
             (processMessage default_config 3 sub_record ''/p/agent-A.jsonl''
                (processMessage default_config 2 sub_record ''/p/agent-A.jsonl'' parent_watcher)))
          ''P'' = Some p2
      \<and> linkage p2 = linkage p1)"
proof -
  obtain p where p: "sessions_get (sessionManager parent_watcher) ''P'' = Some p"
    and sp: "subAgents p = []"
    by (simp add: parent_watcher_def parent_record_def pm_defs sm_defs)
  have n: "sessions_get (sessionManager parent_watcher) ''A'' = None"
    by (simp add: parent_watcher_def parent_record_def pm_defs sm_defs)
  have d: "r_sessionId sub_record = Some ''P''" "r_agentId sub_record = Some ''A''"
    by (simp_all add: sub_record_def)
  from sp have c: "count_list (subAgents p) ''A'' \<le> 1" by simp
  have ne: "''A'' \<noteq> ''P''" "''A'' \<noteq> []" "''P'' \<noteq> []" by simp_all
  note t = sub_agent_registered_once [OF d ne p c n,
             of default_config 2 "''/p/agent-A.jsonl''" 3]
  from p sp n t show ?thesis by simp
qed


section \<open>Consecutive duplicates of a message\<close>

lemma truncate_long_differs:
  "length content > 1000 \<Longrightarrow> length content \<noteq> 1003 \<Longrightarrow> truncate_str (Some content) 1000 \<noteq> content"
proof -
  assume a: "length content > 1000" "length content \<noteq> 1003"
  then have "length (truncate_str (Some content) 1000) = 1003"
    by (auto simp: truncate_str_def substring_to_def)
  with a show ?thesis by metis
qed

lemma is_duplicate_iff:
  "is_duplicate msgs role content =
     (msgs \<noteq> [] \<and> msg_content (last msgs) = content \<and> msg_role (last msgs) = role)"
  by (cases msgs) (simp_all add: is_duplicate_def)

text \<open>
  Claim C7, at a content of 1001 characters. \<open>addMessage\<close> compares its argument with the
  content stored in the last message, which is the content cut to 1000 characters with
  \<open>...\<close> appended: the second of two identical calls is not recognised as a duplicate and
  two messages are stored, where a short content stores one.
\<close>

theorem long_duplicate_stored_twice:
  "map_option (length \<circ> messages)
     (sessions_get
        (addMessage default_config 2 ''s1'' ''user'' long_content None
           (addMessage default_config 1 ''s1'' ''user'' long_content None fresh_store)) ''s1'')
     = Some 2
   \<and> map_option (length \<circ> messages)
     (sessions_get
        (addMessage default_config 2 ''s1'' ''user'' ''hello'' None
           (addMessage default_config 1 ''s1'' ''user'' ''hello'' None fresh_store)) ''s1'')
     = Some 1"
proof -
  have l: "length long_content > 1000" "length long_content \<noteq> 1003" "long_content \<noteq> []"
    by (auto simp: long_content_def)
  have d: "truncate_str (Some long_content) 1000 \<noteq> long_content"
    using l by (simp add: truncate_long_differs)
  have f: "sessions_get fresh_store ''s1'' = Some (new_session ''s1'' 0)"
    by (simp add: fresh_store_def sm_defs)
  have c: "MAX_MESSAGES default_config = 20" by (simp add: sm_defs)
  have m0: "messages (new_session ''s1'' 0) = []" by (simp add: new_session_def)
  show ?thesis
    using l d f c m0
    by (simp add: addMessage_def is_duplicate_def push_message_def new_message_def Let_def
           truncate_str_def)
qed



section \<open>A file that shrinks\<close>

text \<open>
  Claim C8. When a poll finds the size of a tracked file strictly smaller than the tracked
  offset, the body of \<open>processNewLines\<close> ends without an exception, with the offset of the
  file set to 0 and nothing else changed (no record is processed). At the next poll, when
  the file has content again, the body reads from offset 0: it processes every line of the
  content that is not blank and sets the offset to the size.
\<close>

theorem truncation_resets_offset:
  "(statSync fs filePath = Some stats \<and> filePositions w filePath = Some lastOffset
      \<and> size_bytes stats < lastOffset \<longrightarrow>
      processNewLines_try cfg parse fs now filePath w
        = Inr (w\<lparr>filePositions := (filePositions w)(filePath \<mapsto> 0)\<rparr>))
   \<and> (statSync fs' filePath = Some stats' \<and> readFileSync fs' filePath = Some content
        \<and> 0 < size_bytes stats' \<longrightarrow>
      processNewLines_try cfg parse fs' now' filePath
          (w\<lparr>filePositions := (filePositions w)(filePath \<mapsto> 0)\<rparr>)
        = Inr (fold (process_line cfg parse now' filePath) (nonblank_lines content)
                 (w\<lparr>filePositions := (filePositions w)(filePath \<mapsto> size_bytes stats')\<rparr>)))"
  by (auto simp: processNewLines_try_def Let_def substring_from_def)

text \<open>The theorem at a file truncated to nothing after 120 bytes were read, and then grown
  to the line \<open>D\<close>: the offset goes to 0, then the record is processed and the offset is 1.\<close>

theorem truncation_resets_offset_witness:
  "filePositions tracked_watcher ''/p/s1.jsonl'' = Some 120
   \<and> processNewLines_try default_config toy_parse (file_with ''/p/s1.jsonl'' 5 []) 10
        ''/p/s1.jsonl'' tracked_watcher
       = Inr (init_watcher\<lparr>filePositions := [''/p/s1.jsonl'' \<mapsto> 0]\<rparr>)
   \<and> map_option session_id
        (sessions_get
           (sessionManager
              (processNewLines default_config toy_parse (file_with ''/p/s1.jsonl'' 15 ''D'') 20
                 ''/p/s1.jsonl'' (init_watcher\<lparr>filePositions := [''/p/s1.jsonl'' \<mapsto> 0]\<rparr>)))
           ''s1'')
       = Some ''s1''
   \<and> filePositions
        (processNewLines default_config toy_parse (file_with ''/p/s1.jsonl'' 15 ''D'') 20
           ''/p/s1.jsonl'' (init_watcher\<lparr>filePositions := [''/p/s1.jsonl'' \<mapsto> 0]\<rparr>))
        ''/p/s1.jsonl''
       = Some 1"
proof -
  let ?p = "''/p/s1.jsonl''"
  have a: "statSync (file_with ?p 5 []) ?p = Some \<lparr> mtimeMs = 5, size_bytes = 0 \<rparr>"
    "statSync (file_with ?p 15 ''D'') ?p = Some \<lparr> mtimeMs = 15, size_bytes = 1 \<rparr>"
    "readFileSync (file_with ?p 15 ''D'') ?p = Some ''D''"
    "filePositions tracked_watcher ?p = Some 120"
    by (simp_all add: file_with_def tracked_watcher_def)
  have e: "tracked_watcher\<lparr>filePositions := (filePositions tracked_watcher)(?p \<mapsto> 0)\<rparr>
            = init_watcher\<lparr>filePositions := [?p \<mapsto> 0]\<rparr>"
    "tracked_watcher\<lparr>filePositions := (filePositions tracked_watcher)(?p \<mapsto> 1)\<rparr>
            = init_watcher\<lparr>filePositions := [?p \<mapsto> 1]\<rparr>"
    by (simp_all add: tracked_watcher_def)
  from truncation_resets_offset
    [of "file_with ?p 5 []" ?p "\<lparr> mtimeMs = 5, size_bytes = 0 \<rparr>" tracked_watcher 120
        default_config toy_parse 10 "file_with ?p 15 ''D''" "\<lparr> mtimeMs = 15, size_bytes = 1 \<rparr>"
        "''D''" 20] a e
  have r1: "processNewLines_try default_config toy_parse (file_with ?p 5 []) 10 ?p tracked_watcher
       = Inr (init_watcher\<lparr>filePositions := [?p \<mapsto> 0]\<rparr>)"
   and r2: "processNewLines_try default_config toy_parse (file_with ?p 15 ''D'') 20 ?p
              (init_watcher\<lparr>filePositions := [?p \<mapsto> 0]\<rparr>)
       = Inr (fold (process_line default_config toy_parse 20 ?p) (nonblank_lines ''D'')
                 (init_watcher\<lparr>filePositions := [?p \<mapsto> 1]\<rparr>))"
    by simp_all
  have p: "process_line default_config toy_parse 20 ?p ''D''
             (init_watcher\<lparr>filePositions := [?p \<mapsto> 1]\<rparr>)
           = (init_watcher\<lparr>filePositions := [?p \<mapsto> 1]\<rparr>)
               \<lparr>sessionManager := getOrCreateSession 20 ''s1'' None init_store,
                sessionFiles := [''s1'' \<mapsto> ?p]\<rparr>"
    by (simp add: process_line_def toy_parse_def dequeue_record_def processMessage_def
          effectiveSessionId_def isSubAgentRecord_def truthy_def on_manager_def
          dispatch_type_def init_watcher_def Let_def)
  have g: "map_option session_id (sessions_get (getOrCreateSession 20 ''s1'' None init_store) ''s1'')
             = Some ''s1''"
    by (simp add: sm_defs)
  from r1 r2 p g a show ?thesis
    by (simp add: processNewLines_def nonblank_D)
qed


section \<open>The startup scan and nested directories\<close>

text \<open>The scan lists the log directory itself: when no entry of that directory has a name
  that ends in \<open>.jsonl\<close>, nothing is loaded, whatever the directories below it hold.\<close>

lemma scan_reads_top_level_only:
  "readdirSync fs dir = Some names \<Longrightarrow> filter (\<lambda>f. endsWith f ''.jsonl'') names = []
     \<Longrightarrow> scanExistingSessions cfg parse fs now dir w = w"
  by (simp add: scanExistingSessions_def scanExistingSessions_try_def)

text \<open>
  Claim C9, at a log directory whose one session file lies in a project directory below it,
  modified one second before the scan. The scan loads nothing: the watcher is as it was.
  The same file directly in the log directory is loaded by the scan, and the nested file is
  loaded when the recursive watch reports it to \<open>handleFileAdded\<close>.
\<close>

theorem scan_skips_nested_file:
  "map_option mtimeMs (statSync nested_fs ''/p/proj/s1.jsonl'') = Some 1000
   \<and> 2000 - 1000 < MAX_FILE_AGE_MS
   \<and> scanExistingSessions default_config toy_parse nested_fs 2000 ''/p'' init_watcher
       = init_watcher
   \<and> map_option session_id
        (sessions_get
           (sessionManager
              (scanExistingSessions default_config toy_parse flat_fs 2000 ''/p'' init_watcher))
           ''s1'')
       = Some ''s1''
   \<and> map_option session_id
        (sessions_get
           (sessionManager
              (handleFileAdded default_config toy_parse nested_fs 2000 ''/p/proj/s1.jsonl''
                 init_watcher))
           ''s1'')
       = Some ''s1''"
  by (simp add: nested_fs_def flat_fs_def MAX_FILE_AGE_MS_def scanExistingSessions_def
        scanExistingSessions_try_def endsWith_def scan_file_def extractSessionIdFromFile_def
        nonblank_D toy_parse_def dequeue_record_def on_manager_def processNewLines_def
        processNewLines_try_def handleFileAdded_def init_watcher_def substring_from_def
        process_line_def processMessage_def effectiveSessionId_def isSubAgentRecord_def
        dispatch_type_def sm_defs)


section \<open>The staleness sweep and the idle threshold\<close>

text \<open>
  Claim C4, as the code has it. The sweep compares with \<open>inactiveTime > IDLE_THRESHOLD_MS\<close>:
  in a store with one entry per key, a session that is active, has no tool open and is not
  removed by the sweep (its inactivity does not exceed the removal timeout) becomes idle
  when its inactivity is strictly greater than the idle threshold, and is left as it is
  when its inactivity is equal to the threshold or below it.
\<close>

theorem sweep_idle_strict:
  assumes "unique_keys st" and "sessions_get st k = Some s"
    and "status s = Active" and "currentTool s = None"
    and "now - lastActivity s \<le> SESSION_TIMEOUT_MS cfg"
  shows "sessions_get (cleanupStaleSessions cfg now st) k =
           (if now - lastActivity s > IDLE_THRESHOLD_MS cfg
            then Some (s\<lparr>status := Idle\<rparr>) else Some s)"
  using assms by (simp add: sessions_get_cleanupStaleSessions)

text \<open>The claim as stated fails when the inactivity equals the threshold: a session last
  active at time 0 is still active after the sweep at time 30000, the default threshold.\<close>

theorem sweep_at_threshold_counterexample:
  "map_option status (sessions_get fresh_store ''s1'') = Some Active
   \<and> map_option currentTool (sessions_get fresh_store ''s1'') = Some None
   \<and> map_option lastActivity (sessions_get fresh_store ''s1'') = Some 0
   \<and> 30000 - 0 = IDLE_THRESHOLD_MS default_config
   \<and> map_option status
        (sessions_get (cleanupStaleSessions default_config 30000 fresh_store) ''s1'')
       = Some Active"
  by (simp add: fresh_store_def cleanupStaleSessions_def sweep_entry_def sm_defs)

text \<open>The theorem at the same session: idle after the sweep at 30001, active after the
  sweep at 30000.\<close>

theorem sweep_idle_strict_witness:
  "unique_keys fresh_store
   \<and> map_option status (sessions_get fresh_store ''s1'') = Some Active
   \<and> map_option currentTool (sessions_get fresh_store ''s1'') = Some None
   \<and> map_option status
        (sessions_get (cleanupStaleSessions default_config 30001 fresh_store) ''s1'')
       = Some Idle
   \<and> map_option status
        (sessions_get (cleanupStaleSessions default_config 30000 fresh_store) ''s1'')
       = Some Active"
proof -
  have u: "unique_keys fresh_store"
    by (simp add: fresh_store_def unique_keys_def sm_defs)
  obtain s where s: "sessions_get fresh_store ''s1'' = Some s"
    and a: "status s = Active" and t: "currentTool s = None" and l: "lastActivity s = 0"
    by (simp add: fresh_store_def sm_defs)
  have c: "SESSION_TIMEOUT_MS default_config = 300000" "IDLE_THRESHOLD_MS default_config = 30000"
    by (simp_all add: sm_defs)
  have "30001 - lastActivity s \<le> SESSION_TIMEOUT_MS default_config"
    "30000 - lastActivity s \<le> SESSION_TIMEOUT_MS default_config"
    using l c by simp_all
  from sweep_idle_strict [OF u s a t this(1)] sweep_idle_strict [OF u s a t this(2)]
  show ?thesis using u s a t l c by simp
qed


section \<open>Starting a tool reactivates the session\<close>

text \<open>
  Claim C10. \<open>startTool\<close> on an existing session sets the session's status to active and its
  \<open>lastActivity\<close> to the current time, whatever the status was before, and opens the tool as
  the running \<open>currentTool\<close>: a session that was completed, in error or idle is active
  again, so completed is not a final state.
\<close>

theorem startTool_reactivates:
  "sessions_get st sessionId = Some s0 \<Longrightarrow>
   \<exists>s. sessions_get (startTool cfg now sessionId toolName details st) sessionId = Some s
       \<and> status s = Active
       \<and> lastActivity s = now
       \<and> currentTool s = Some \<lparr> tool_name = toolName, tool_startTime = now,
                                 tool_status = Running, tool_details = details \<rparr>"
proof -
  assume a: "sessions_get st sessionId = Some s0"
  let ?st1 = "getOrCreateSession now sessionId None st"
  from a obtain s1 where s1: "sessions_get ?st1 sessionId = Some s1"
    by (simp add: sessions_get_getOrCreateSession)
  from complete_running_exists [OF s1] obtain s2
    where "sessions_get (complete_running cfg now sessionId ?st1) sessionId = Some s2" by blast
  then show ?thesis
    by (simp add: startTool_def Let_def)
qed

text \<open>The theorem at a session that was completed: it exists, its status is completed, and
  after \<open>startTool\<close> it is active.\<close>

theorem startTool_reactivates_witness:
  "map_option status (sessions_get completed_store ''s1'') = Some Completed
   \<and> map_option status
         (sessions_get (startTool default_config 30 ''s1'' ''Bash'' no_details completed_store)
            ''s1'')
       = Some Active"
proof -
  obtain s0 where s0: "sessions_get completed_store ''s1'' = Some s0"
    and c: "status s0 = Completed"
    by (simp add: completed_store_def sm_defs)
  from startTool_reactivates [OF s0, of default_config 30 "''Bash''" no_details]
  obtain s where
    "sessions_get (startTool default_config 30 ''s1'' ''Bash'' no_details completed_store) ''s1''
       = Some s" and "status s = Active"
    by blast
  with s0 c show ?thesis by simp
qed

end
